theory Spec2Isabelle
  imports Main "HOL-Library.Word"
begin

unbundle bit_operations_syntax

section \<open>Bytes and buffers\<close>

text \<open>
  The two programs (the client \<^verbatim>\<open>isocks.c\<close> and the server \<^verbatim>\<open>osocks.c\<close>) work on
  \<^verbatim>\<open>uint8_t\<close> arrays.  A byte is an 8-bit word, a buffer is a list of bytes, and the
  libc block operations are written as list surgery at an offset.
\<close>

type_synonym byte = "8 word"

definition BUF_SIZE :: nat where
  "BUF_SIZE = 8192"

definition MAGIC :: "32 word" where
  "MAGIC = 0x526f6e61"

text \<open>\<^verbatim>\<open>memcpy(buf + off, bs, length bs)\<close>.\<close>

definition write_at :: "byte list \<Rightarrow> nat \<Rightarrow> byte list \<Rightarrow> byte list" where
  "write_at buf off bs = take off buf @ bs @ drop (off + length bs) buf"

text \<open>\<^verbatim>\<open>bzero(buf, n)\<close>.\<close>

definition bzero :: "byte list \<Rightarrow> nat \<Rightarrow> byte list" where
  "bzero buf n = write_at buf 0 (replicate n 0)"

text \<open>The bytes of a C string stored in an array: everything before the first NUL.\<close>

definition cstr :: "byte list \<Rightarrow> byte list" where
  "cstr bs = takeWhile (\<lambda>b. b \<noteq> 0) bs"

text \<open>\<^verbatim>\<open>strcpy(buf + off, s)\<close>: the characters of the C string and its terminating NUL.\<close>

definition strcpy :: "byte list \<Rightarrow> nat \<Rightarrow> byte list \<Rightarrow> byte list" where
  "strcpy buf off s = write_at buf off (cstr s @ [0])"

text \<open>\<^verbatim>\<open>*((uint32_t *)buf) = htonl(w)\<close> and \<^verbatim>\<open>ntohl(*((uint32_t *)buf))\<close>: network byte
  order is most significant byte first, whatever the host's order is.\<close>

definition htonl_bytes :: "32 word \<Rightarrow> byte list" where
  "htonl_bytes w = [ucast (drop_bit 24 w), ucast (drop_bit 16 w), ucast (drop_bit 8 w), ucast w]"

definition ntohl_bytes :: "byte list \<Rightarrow> 32 word" where
  "ntohl_bytes bs =
     push_bit 24 (ucast (bs ! 0)) OR push_bit 16 (ucast (bs ! 1)) OR
     push_bit 8 (ucast (bs ! 2)) OR ucast (bs ! 3)"

text \<open>\<^verbatim>\<open>ntohs(*(uint16_t *)(buf + off))\<close>, as a number.\<close>

definition ntohs_at :: "byte list \<Rightarrow> nat \<Rightarrow> nat" where
  "ntohs_at buf off = 256 * unat (buf ! off) + unat (buf ! (off + 1))"

section \<open>External primitives\<close>

text \<open>
  MD5 (\<^verbatim>\<open>md5.h\<close>), the stream cipher (\<^verbatim>\<open>encrypt.h\<close>) and libc's \<^verbatim>\<open>inet_ntop\<close> for IPv6 are
  not part of the two source files.  They are parameters of the model: \<open>md5 p data\<close> is
  the digest that \<^verbatim>\<open>md5(data, len, out)\<close> stores at \<^verbatim>\<open>out\<close>, \<open>enc_init p key\<close> is the
  cipher state after \<^verbatim>\<open>enc_init(&evp, enc_rc4, key, 64)\<close>, and \<open>io_encrypt p e bs\<close> is the
  result of the in-place \<^verbatim>\<open>io_encrypt(buf, n, &evp)\<close> on the \<open>n\<close> bytes \<open>bs\<close> together with
  the advanced cipher state.
\<close>

record 'e prims =
  md5 :: "byte list \<Rightarrow> byte list"
  enc_init :: "byte list \<Rightarrow> 'e"
  io_encrypt :: "'e \<Rightarrow> byte list \<Rightarrow> byte list \<times> 'e"
  io_decrypt :: "'e \<Rightarrow> byte list \<Rightarrow> byte list \<times> 'e"
  inet_ntop6 :: "byte list \<Rightarrow> byte list"

text \<open>An MD5 digest has 16 bytes.\<close>

definition md5_ok :: "'e prims \<Rightarrow> bool" where
  "md5_ok p = (\<forall>x. length (md5 p x) = 16)"

text \<open>The cipher works in place: it returns as many bytes as it was given.\<close>

definition cipher_ok :: "'e prims \<Rightarrow> bool" where
  "cipher_ok p =
     (\<forall>e x. length (fst (io_encrypt p e x)) = length x \<and>
            length (fst (io_decrypt p e x)) = length x)"

text \<open>\<^verbatim>\<open>io_encrypt(buf, n, &evp)\<close> and \<^verbatim>\<open>io_decrypt(buf, n, &evp)\<close> on a buffer.\<close>

definition encrypt_buf :: "'e prims \<Rightarrow> byte list \<Rightarrow> nat \<Rightarrow> 'e \<Rightarrow> byte list \<times> 'e" where
  "encrypt_buf p buf n e =
     (case io_encrypt p e (take n buf) of (out, e') \<Rightarrow> (write_at buf 0 out, e'))"

definition decrypt_buf :: "'e prims \<Rightarrow> byte list \<Rightarrow> nat \<Rightarrow> 'e \<Rightarrow> byte list \<times> 'e" where
  "decrypt_buf p buf n e =
     (case io_decrypt p e (take n buf) of (out, e') \<Rightarrow> (write_at buf 0 out, e'))"

section \<open>Configured servers and key derivation\<close>

text \<open>
  Both \<^verbatim>\<open>main\<close> functions store each configured key with its length; a key longer than
  256 bytes gets a NUL written at index 257 and the length 256.
\<close>

record server_t =
  key :: "byte list"
  key_len :: nat

definition server_setup :: "byte list \<Rightarrow> server_t" where
  "server_setup k =
     (if 256 < length k then \<lparr>key = take 257 k, key_len = 256\<rparr>
      else \<lparr>key = k, key_len = length k\<rparr>)"

text \<open>
  The four \<^verbatim>\<open>md5\<close> calls that fill \<^verbatim>\<open>uint8_t key[64]\<close>; \<open>buf\<close> holds the IV followed by the
  key and \<open>len\<close> is \<^verbatim>\<open>236 + key_len\<close>.  The array is a local without initialiser; all of
  its 64 bytes are written when the digests have 16 bytes.
\<close>

definition derive_key :: "'e prims \<Rightarrow> byte list \<Rightarrow> nat \<Rightarrow> byte list" where
  "derive_key p buf len =
     (let k0 = write_at (replicate 64 0) 0 (md5 p (take len buf));
          k1 = write_at k0 16 (md5 p (take 16 k0));
          k2 = write_at k1 32 (md5 p (take 32 k1));
          k3 = write_at k2 48 (md5 p (take 48 k2))
      in k3)"

text \<open>\<^verbatim>\<open>rand_bytes(stream, len)\<close>: \<open>rnd\<close> is what \<^verbatim>\<open>read\<close> delivered from \<^verbatim>\<open>/dev/urandom\<close>.\<close>

definition rand_bytes :: "byte list \<Rightarrow> nat \<Rightarrow> byte list \<Rightarrow> byte list" where
  "rand_bytes stream len rnd = write_at stream 0 (take len rnd)"

text \<open>Client, \<^verbatim>\<open>local_read_cb\<close>, state \<^verbatim>\<open>NEGO_SENT\<close>: the IV is drawn into \<^verbatim>\<open>rx_buf\<close>, the key
  of the chosen server is appended, and the key is derived.  Returns the new \<^verbatim>\<open>rx_buf\<close>
  and the key.\<close>

definition client_key :: "'e prims \<Rightarrow> server_t \<Rightarrow> byte list \<Rightarrow> byte list \<Rightarrow> byte list \<times> byte list" where
  "client_key p srv rx rnd =
     (let rx1 = rand_bytes rx 236 rnd;
          rx2 = write_at rx1 236 (take (key_len srv) (key srv))
      in (rx2, derive_key p rx2 (236 + key_len srv)))"

text \<open>Server, \<^verbatim>\<open>local_read_cb\<close>, state \<^verbatim>\<open>CLOSED\<close>: the IV is copied from the received frame in
  \<^verbatim>\<open>rx_buf\<close> to \<^verbatim>\<open>tx_buf\<close>, the listener's key is appended, and the key is derived.  Returns
  the new \<^verbatim>\<open>tx_buf\<close> and the key.\<close>

definition server_key :: "'e prims \<Rightarrow> server_t \<Rightarrow> byte list \<Rightarrow> byte list \<Rightarrow> byte list \<times> byte list" where
  "server_key p srv rx tx =
     (let tx1 = write_at tx 0 (take 236 (drop 276 rx));
          tx2 = write_at tx1 236 (take (key_len srv) (key srv))
      in (tx2, derive_key p tx2 (236 + key_len srv)))"

text \<open>The derivation in the specification's words: \<open>k[0..16] = MD5(R || P)\<close>, and each
  further block of 16 bytes is the digest of the key prefix before it; \<open>P\<close> is the
  pre-shared key cut to 256 bytes.\<close>

definition spec_key :: "'e prims \<Rightarrow> byte list \<Rightarrow> byte list \<Rightarrow> byte list" where
  "spec_key p R P =
     (let a = md5 p (R @ take 256 P);
          b = md5 p a;
          c = md5 p (a @ b);
          d = md5 p (a @ b @ c)
      in a @ b @ c @ d)"

section \<open>Formatting addresses and ports\<close>

text \<open>\<^verbatim>\<open>sprintf(port, "%u", n)\<close>: the decimal digits of \<open>n\<close> in ASCII.\<close>

fun dec :: "nat \<Rightarrow> byte list" where
  "dec n = (if n < 10 then [of_nat (48 + n)] else dec (n div 10) @ [of_nat (48 + n mod 10)])"

declare dec.simps [simp del]

text \<open>\<^verbatim>\<open>inet_ntop(AF_INET, src, host, INET_ADDRSTRLEN)\<close>: dotted decimal of the four bytes.\<close>

definition inet_ntop4 :: "byte list \<Rightarrow> byte list" where
  "inet_ntop4 a =
     dec (unat (a ! 0)) @ [46] @ dec (unat (a ! 1)) @ [46] @
     dec (unat (a ! 2)) @ [46] @ dec (unat (a ! 3))"

section \<open>Connection control block, environment and effects\<close>

text \<open>
  The client's \<^verbatim>\<open>state_t\<close>.  The server declares its own \<^verbatim>\<open>state_t\<close> with the members
  \<^verbatim>\<open>CLOSED\<close>, \<^verbatim>\<open>REQ_RCVD\<close>, \<^verbatim>\<open>REQ_ERR\<close>, \<^verbatim>\<open>CONNECTED\<close>, \<^verbatim>\<open>ESTAB\<close> and \<^verbatim>\<open>CLOSE_WAIT\<close>;
  \<open>REQ_RCVD\<close> is the one member that only the server has.  The numeric values of the
  members are never used.
\<close>

datatype state_t =
  CLOSED | NEGO_RCVD | NEGO_ERR | NEGO_SENT | CMD_RCVD | CMD_ERR | CONNECTED
  | REQ_SENT | REP_RCVD | REQ_ERR | ESTAB | CLOSE_WAIT | REQ_RCVD

text \<open>The callback an \<^verbatim>\<open>ev_io\<close> watcher of the remote socket dispatches to; it is set by
  \<^verbatim>\<open>ev_io_init\<close>.\<close>

datatype callback = Connect_cb | Remote_write_cb

text \<open>
  \<^verbatim>\<open>conn_t\<close>.  A watcher field is \<open>True\<close> while the watcher is started, that is, while it
  is registered with the event loop.  The \<^verbatim>\<open>ssize_t\<close> counters are integers.
\<close>

record 'e conn =
  w_local_read :: bool
  w_local_write :: bool
  w_remote_read :: bool
  w_remote_write :: bool
  w_remote_write_cb :: callback
  rx_bytes :: int
  tx_bytes :: int
  rx_offset :: int
  tx_offset :: int
  sock_local :: int
  sock_remote :: int
  state :: state_t
  enc_evp :: 'e
  rx_buf :: "byte list"
  tx_buf :: "byte list"

text \<open>What the operating system answers to \<^verbatim>\<open>recv\<close> and \<^verbatim>\<open>send\<close>.  \<open>Recv_data d\<close> is the
  data waiting on the socket (\<open>[]\<close> at end of stream); \<open>Send_n n\<close> is the number of bytes
  the socket took; the two errors of \<^verbatim>\<open>send\<close> that the code tells apart are
  \<^verbatim>\<open>EAGAIN\<close>/\<^verbatim>\<open>EWOULDBLOCK\<close> and every other one.\<close>

datatype recv_res = Recv_fail | Recv_data "byte list"

datatype errno = EAGAIN | EOTHER

datatype send_res = Send_fail errno | Send_n nat

text \<open>Everything else a callback reads from outside: the random words, the result of
  \<^verbatim>\<open>socket\<close>, \<^verbatim>\<open>SO_ERROR\<close>, and whether the pool has a block for the linger timer.\<close>

record env =
  recv_r :: recv_res
  send_r :: send_res
  rnd_index :: "32 word"
  rnd_iv :: "byte list"
  socket_r :: int
  so_error :: int
  timer_new :: bool

text \<open>The effects of a callback on the outside, in program order.\<close>

datatype action =
  Send_local "byte list" | Send_remote "byte list" | Close_local | Close_remote
  | Timer_start nat | Timer_stop | Free_conn | Free_timer | Free_gai
  | Connect_server nat | Getaddrinfo_a "byte list" "byte list" | Connect_addr int

text \<open>A callback leaves the connection alive, or has freed it, or has hit an
  \<^verbatim>\<open>assert\<close> (the build with assertions is the one modelled; \<^verbatim>\<open>assert(0 != 0)\<close> guards the
  \<^verbatim>\<open>default\<close> case of every \<^verbatim>\<open>switch\<close> over the state), or has written past the end of
  an array, after which the behaviour of the program is undefined.\<close>

datatype 'c result = Live 'c "action list" | Dead "action list" | Assert_fail | Overflow

text \<open>\<^verbatim>\<open>recv(sock, buf, BUF_SIZE, 0)\<close>: at most \<open>BUF_SIZE\<close> bytes are stored.\<close>

definition recv_ret :: "recv_res \<Rightarrow> int" where
  "recv_ret r = (case r of Recv_fail \<Rightarrow> - 1 | Recv_data d \<Rightarrow> int (length (take BUF_SIZE d)))"

definition recv_buf :: "byte list \<Rightarrow> recv_res \<Rightarrow> byte list" where
  "recv_buf buf r = (case r of Recv_fail \<Rightarrow> buf | Recv_data d \<Rightarrow> write_at buf 0 (take BUF_SIZE d))"

text \<open>\<^verbatim>\<open>send(sock, buf + off, len, MSG_NOSIGNAL)\<close>: its return value, and the bytes that
  left.\<close>

definition send_ret :: "send_res \<Rightarrow> int" where
  "send_ret r = (case r of Send_fail e \<Rightarrow> - 1 | Send_n n \<Rightarrow> int n)"

definition send_act :: "(byte list \<Rightarrow> action) \<Rightarrow> byte list \<Rightarrow> int \<Rightarrow> int \<Rightarrow> send_res \<Rightarrow> action list" where
  "send_act mk buf off len r =
     (case r of Send_fail e \<Rightarrow> []
      | Send_n n \<Rightarrow> [mk (take n (take (nat len) (drop (nat off) buf)))])"

text \<open>\<^verbatim>\<open>cleanup\<close> stops the four watchers, closes both sockets and frees the block.\<close>

definition cleanup :: "action list" where
  "cleanup = [Close_local, Close_remote, Free_conn]"

section \<open>The client: \<^verbatim>\<open>isocks.c\<close>\<close>

record conf =
  server_num :: int
  servers :: "server_t list"

text \<open>\<^verbatim>\<open>accept_cb\<close>, after a successful \<^verbatim>\<open>mem_new\<close> and \<^verbatim>\<open>accept\<close>, on the pool block
  \<open>blank\<close>.  Only the two local watchers are initialised; the remote ones are not
  registered with the loop.\<close>

definition accept_cb :: "int \<Rightarrow> 'e conn \<Rightarrow> 'e conn" where
  "accept_cb fd blank =
     blank\<lparr>sock_local := fd, state := CLOSED, w_local_read := True, w_local_write := False,
           w_remote_read := False, w_remote_write := False\<rparr>"

text \<open>The loop over the offered methods, with its \<^verbatim>\<open>uint8_t\<close> counter; the result is the
  value of \<open>i\<close> when the loop is left.\<close>

function scan_methods :: "byte list \<Rightarrow> byte \<Rightarrow> byte \<Rightarrow> byte" where
  "scan_methods buf nmethods i =
     (if i < nmethods
      then (if buf ! (2 + unat i) = 0 then i else scan_methods buf nmethods (i + 1))
      else i)"
  by pat_completeness auto
termination
proof (relation "measure (\<lambda>(buf, nmethods, i). unat nmethods - unat i)")
  show "wf (measure (\<lambda>(buf, nmethods, i). unat nmethods - unat i))"
    by simp
next
  fix buf :: "byte list" and nmethods i :: byte
  assume lt: "i < nmethods"
  then have "unat i < unat nmethods"
    by (simp add: word_less_nat_alt)
  moreover have "unat nmethods < 256"
    using unsigned_less [of nmethods, where ?'a = nat] by simp
  ultimately have "unat i + 1 < 256"
    by simp
  then have "unat (i + 1) = unat i + 1"
    by (simp add: unat_word_ariths)
  with \<open>unat i < unat nmethods\<close> show "((buf, nmethods, i + 1), (buf, nmethods, i))
      \<in> measure (\<lambda>(buf, nmethods, i). unat nmethods - unat i)"
    by simp
qed

declare scan_methods.simps [simp del]

text \<open>\<^verbatim>\<open>local_read_cb\<close>, case \<^verbatim>\<open>CLOSED\<close>: the SOCKS5 greeting.\<close>

definition local_read_CLOSED :: "env \<Rightarrow> 'e conn \<Rightarrow> 'e conn result" where
  "local_read_CLOSED ev conn =
     (let rx0 = bzero (rx_buf conn) 257;
          rx = recv_buf rx0 (recv_r ev);
          rx_bytes = recv_ret (recv_r ev)
      in if rx_bytes \<le> 0 then Dead [Close_local, Free_conn]
         else
           let error = (0::int);
               error = (if rx ! 0 \<noteq> 0x05 then 1 else error);
               nmethods = rx ! 1;
               i = scan_methods rx nmethods 0;
               error = (if i \<ge> nmethods then 2 else error);
               tx = (tx_buf conn)[0 := 0x05, 1 := 0x00];
               conn = conn\<lparr>rx_buf := rx, tx_buf := tx, tx_bytes := 2, state := NEGO_RCVD\<rparr>;
               conn = (if error \<noteq> 0
                       then conn\<lparr>state := NEGO_ERR, tx_buf := (tx_buf conn)[1 := 0xff]\<rparr>
                       else conn)
           in Live (conn\<lparr>w_local_write := True\<rparr>) [])"

text \<open>The three checks of the SOCKS5 request; each failing check overwrites \<open>error\<close>.\<close>

definition request_error :: "byte list \<Rightarrow> int" where
  "request_error rx =
     (let error = (0::int);
          error = (if rx ! 0 \<noteq> 0x05 then 1 else error);
          error = (if rx ! 1 \<noteq> 0x01 then 2 else error);
          error = (if rx ! 3 = 0x01 then error
                   else if rx ! 3 = 0x03 then error
                   else if rx ! 3 = 0x04 then error
                   else 3)
      in error)"

text \<open>The contents of \<^verbatim>\<open>char host[257]\<close> and \<^verbatim>\<open>char port[15]\<close> up to the terminating NUL that
  the branch writes.  With an unknown address type the arrays stay unwritten; they are
  read only when \<open>error\<close> is 0.\<close>

definition request_host :: "'e prims \<Rightarrow> byte list \<Rightarrow> byte list" where
  "request_host p rx =
     (if rx ! 3 = 0x01 then inet_ntop4 (take 4 (drop 4 rx))
      else if rx ! 3 = 0x03 then take (unat (rx ! 4)) (drop 5 rx)
      else if rx ! 3 = 0x04 then inet_ntop6 p (take 16 (drop 4 rx))
      else [])"

definition request_port :: "byte list \<Rightarrow> byte list" where
  "request_port rx =
     (if rx ! 3 = 0x01 then dec (ntohs_at rx 8)
      else if rx ! 3 = 0x03 then dec (ntohs_at rx (unat (rx ! 4) + 5))
      else if rx ! 3 = 0x04 then dec (ntohs_at rx 20)
      else [])"

text \<open>\<^verbatim>\<open>index %= conf.server_num\<close> on \<^verbatim>\<open>unsigned int index\<close>; the \<^verbatim>\<open>int\<close> operand is
  converted to \<^verbatim>\<open>unsigned int\<close>.\<close>

definition select_server :: "32 word \<Rightarrow> int \<Rightarrow> 32 word" where
  "select_server index n = index mod word_of_int n"

text \<open>The inner request is laid out in \<^verbatim>\<open>tx_buf\<close> and its first 276 bytes are encrypted;
  \<open>rx\<close> holds the IV in its first 236 bytes.\<close>

definition request_plain :: "byte list \<Rightarrow> byte list \<Rightarrow> byte list \<Rightarrow> byte list \<Rightarrow> byte list" where
  "request_plain rx host port tx =
     (let tx = write_at tx 276 (take 236 rx);
          tx = bzero tx 276;
          tx = write_at tx 0 (htonl_bytes MAGIC);
          tx = strcpy tx 4 host;
          tx = strcpy tx 261 port
      in tx)"

definition build_request ::
  "'e prims \<Rightarrow> byte list \<Rightarrow> byte list \<Rightarrow> byte list \<Rightarrow> byte list \<Rightarrow> byte list \<Rightarrow> byte list \<times> 'e" where
  "build_request p k rx host port tx =
     encrypt_buf p (request_plain rx host port tx) 276 (enc_init p (take 64 k))"

text \<open>\<^verbatim>\<open>local_read_cb\<close>, case \<^verbatim>\<open>NEGO_SENT\<close>: the SOCKS5 request.\<close>

definition local_read_NEGO_SENT :: "'e prims \<Rightarrow> conf \<Rightarrow> env \<Rightarrow> 'e conn \<Rightarrow> 'e conn result" where
  "local_read_NEGO_SENT p cf ev conn =
     (let rx0 = bzero (rx_buf conn) 263;
          rx = recv_buf rx0 (recv_r ev);
          rx_bytes = recv_ret (recv_r ev)
      in if rx_bytes \<le> 0 then Dead [Close_local, Free_conn]
         else
           let error = request_error rx;
               host = request_host p rx;
               port = request_port rx
           in if error = 0 then
                let index = select_server (rnd_index ev) (server_num cf);
                    srv = servers cf ! unat index
                in case client_key p srv rx (rnd_iv ev) of (rx1, k) \<Rightarrow>
                   case build_request p k rx1 host port (tx_buf conn) of (tx1, e) \<Rightarrow>
                     let conn = conn\<lparr>rx_buf := rx1, tx_buf := tx1, enc_evp := e, tx_bytes := 512,
                                     sock_remote := socket_r ev\<rparr>
                     in if sock_remote conn < 0 then Dead [Close_local, Free_conn]
                        else Live (conn\<lparr>w_remote_write_cb := Connect_cb, w_remote_write := True,
                                         state := CMD_RCVD\<rparr>)
                               [Connect_server (unat index)]
              else
                let tx = bzero (tx_buf conn) 10;
                    tx = tx[0 := 0x05];
                    tx = tx[1 := (if error = 2 then 0x07 else if error = 3 then 0x08 else 0x01)];
                    tx = tx[2 := 0x00];
                    tx = tx[3 := 0x01]
                in Live (conn\<lparr>rx_buf := rx, tx_buf := tx, tx_bytes := 10, state := CMD_ERR,
                               w_local_write := True\<rparr>) [])"

text \<open>\<^verbatim>\<open>local_read_cb\<close>, case \<^verbatim>\<open>ESTAB\<close>: read from the application, encrypt, write to the
  server at once.\<close>

definition local_read_ESTAB :: "'e prims \<Rightarrow> env \<Rightarrow> 'e conn \<Rightarrow> 'e conn result" where
  "local_read_ESTAB p ev conn =
     (let conn = conn\<lparr>tx_buf := recv_buf (tx_buf conn) (recv_r ev),
                     tx_bytes := recv_ret (recv_r ev)\<rparr>
      in if tx_bytes conn \<le> 0 then Dead cleanup
         else
           case encrypt_buf p (tx_buf conn) (nat (tx_bytes conn)) (enc_evp conn) of (tx, e) \<Rightarrow>
             let conn = conn\<lparr>tx_buf := tx, enc_evp := e\<rparr>;
                 n = send_ret (send_r ev);
                 acts = send_act Send_remote (tx_buf conn) 0 (tx_bytes conn) (send_r ev)
             in if n < 0 then
                  (if send_r ev = Send_fail EAGAIN
                   then Live (conn\<lparr>tx_offset := 0, w_remote_write := True, w_local_read := False\<rparr>) acts
                   else Dead (acts @ cleanup))
                else if n < tx_bytes conn
                then Live (conn\<lparr>tx_offset := n, tx_bytes := tx_bytes conn - n,
                                 w_remote_write := True, w_local_read := False\<rparr>) acts
                else Live conn acts)"

definition local_read_cb :: "'e prims \<Rightarrow> conf \<Rightarrow> env \<Rightarrow> 'e conn \<Rightarrow> 'e conn result" where
  "local_read_cb p cf ev conn =
     (let conn = (if state conn \<noteq> ESTAB then conn\<lparr>w_local_read := False\<rparr> else conn)
      in case state conn of
           CLOSED \<Rightarrow> local_read_CLOSED ev conn
         | NEGO_SENT \<Rightarrow> local_read_NEGO_SENT p cf ev conn
         | ESTAB \<Rightarrow> local_read_ESTAB p ev conn
         | _ \<Rightarrow> Assert_fail)"

text \<open>The end of both reply cases of \<^verbatim>\<open>local_write_cb\<close>: enter \<^verbatim>\<open>CLOSE_WAIT\<close> and start the
  one-second timer, or give up at once when the pool has no block for it.\<close>

definition close_wait :: "env \<Rightarrow> 'e conn \<Rightarrow> action list \<Rightarrow> 'e conn result" where
  "close_wait ev conn acts =
     (let conn = conn\<lparr>state := CLOSE_WAIT\<rparr>
      in if \<not> timer_new ev then Dead (acts @ [Close_local, Free_conn])
         else Live conn (acts @ [Timer_start 1]))"

text \<open>\<^verbatim>\<open>local_write_cb\<close>, cases \<^verbatim>\<open>NEGO_RCVD\<close> and \<^verbatim>\<open>NEGO_ERR\<close>.\<close>

definition local_write_NEGO :: "env \<Rightarrow> 'e conn \<Rightarrow> 'e conn result" where
  "local_write_NEGO ev conn =
     (let n = send_ret (send_r ev);
          acts = send_act Send_local (tx_buf conn) 0 (tx_bytes conn) (send_r ev)
      in if n \<noteq> tx_bytes conn then Dead (acts @ [Close_local, Free_conn])
         else if state conn = NEGO_RCVD
         then Live (conn\<lparr>state := NEGO_SENT, w_local_read := True\<rparr>) acts
         else close_wait ev conn acts)"

text \<open>\<^verbatim>\<open>local_write_cb\<close>, cases \<^verbatim>\<open>CMD_ERR\<close>, \<^verbatim>\<open>REQ_ERR\<close> and \<^verbatim>\<open>REP_RCVD\<close>.\<close>

definition local_write_REPLY :: "env \<Rightarrow> 'e conn \<Rightarrow> 'e conn result" where
  "local_write_REPLY ev conn =
     (let n = send_ret (send_r ev);
          acts = send_act Send_local (tx_buf conn) 0 (tx_bytes conn) (send_r ev)
      in if n \<noteq> tx_bytes conn then Dead (acts @ [Close_local, Free_conn])
         else if state conn = REP_RCVD
         then Live (conn\<lparr>state := ESTAB, w_local_read := True, w_remote_read := True\<rparr>) acts
         else close_wait ev conn acts)"

text \<open>\<^verbatim>\<open>local_write_cb\<close>, case \<^verbatim>\<open>ESTAB\<close>: drain \<^verbatim>\<open>rx_buf\<close> to the application.\<close>

definition local_write_ESTAB :: "env \<Rightarrow> 'e conn \<Rightarrow> 'e conn result" where
  "local_write_ESTAB ev conn =
     (if \<not> rx_bytes conn > 0 then Assert_fail
      else
        let n = send_ret (send_r ev);
            acts = send_act Send_local (rx_buf conn) (rx_offset conn) (rx_bytes conn) (send_r ev)
        in if n < 0 then
             (if send_r ev = Send_fail EAGAIN then Live conn acts
              else Dead (acts @ cleanup))
           else if n < rx_bytes conn
           then Live (conn\<lparr>rx_offset := rx_offset conn + n, rx_bytes := rx_bytes conn - n\<rparr>) acts
           else Live (conn\<lparr>w_remote_read := True, w_local_write := False\<rparr>) acts)"

definition local_write_cb :: "env \<Rightarrow> 'e conn \<Rightarrow> 'e conn result" where
  "local_write_cb ev conn =
     (let conn = (if state conn \<noteq> ESTAB then conn\<lparr>w_local_write := False\<rparr> else conn)
      in case state conn of
           NEGO_RCVD \<Rightarrow> local_write_NEGO ev conn
         | NEGO_ERR \<Rightarrow> local_write_NEGO ev conn
         | CMD_ERR \<Rightarrow> local_write_REPLY ev conn
         | REQ_ERR \<Rightarrow> local_write_REPLY ev conn
         | REP_RCVD \<Rightarrow> local_write_REPLY ev conn
         | ESTAB \<Rightarrow> local_write_ESTAB ev conn
         | _ \<Rightarrow> Assert_fail)"

text \<open>\<^verbatim>\<open>remote_read_cb\<close>, case \<^verbatim>\<open>REQ_SENT\<close>: the server's four-byte reply.\<close>

definition remote_read_REQ_SENT :: "'e prims \<Rightarrow> env \<Rightarrow> 'e conn \<Rightarrow> 'e conn result" where
  "remote_read_REQ_SENT p ev conn =
     (let rx = recv_buf (rx_buf conn) (recv_r ev);
          rx_bytes = recv_ret (recv_r ev)
      in if rx_bytes \<noteq> 4 then Dead cleanup
         else
           case decrypt_buf p rx (nat rx_bytes) (enc_evp conn) of (rx, e) \<Rightarrow>
             let tx = bzero (tx_buf conn) 10;
                 tx = tx[0 := 0x05, 1 := 0x00, 2 := 0x00, 3 := 0x01];
                 conn = conn\<lparr>rx_buf := rx, enc_evp := e, tx_buf := tx, tx_bytes := 10,
                               state := REP_RCVD\<rparr>;
                 magic = ntohl_bytes (rx_buf conn);
                 conn = (if magic \<noteq> MAGIC
                         then conn\<lparr>state := REQ_ERR, tx_buf := (tx_buf conn)[1 := 0x05]\<rparr>
                         else conn)
             in Live (conn\<lparr>w_local_write := True\<rparr>) [])"

text \<open>\<^verbatim>\<open>remote_read_cb\<close>, case \<^verbatim>\<open>ESTAB\<close>: read from the server, decrypt, write to the
  application at once.\<close>

definition remote_read_ESTAB :: "'e prims \<Rightarrow> env \<Rightarrow> 'e conn \<Rightarrow> 'e conn result" where
  "remote_read_ESTAB p ev conn =
     (let conn = conn\<lparr>rx_buf := recv_buf (rx_buf conn) (recv_r ev),
                     rx_bytes := recv_ret (recv_r ev)\<rparr>
      in if rx_bytes conn \<le> 0 then Dead cleanup
         else
           case decrypt_buf p (rx_buf conn) (nat (rx_bytes conn)) (enc_evp conn) of (rx, e) \<Rightarrow>
             let conn = conn\<lparr>rx_buf := rx, enc_evp := e\<rparr>;
                 n = send_ret (send_r ev);
                 acts = send_act Send_local (rx_buf conn) 0 (rx_bytes conn) (send_r ev)
             in if n < 0 then
                  (if send_r ev = Send_fail EAGAIN
                   then Live (conn\<lparr>rx_offset := 0, w_local_write := True, w_remote_read := False\<rparr>) acts
                   else Dead (acts @ cleanup))
                else if n < rx_bytes conn
                then Live (conn\<lparr>rx_offset := n, rx_bytes := rx_bytes conn - n,
                                 w_local_write := True, w_remote_read := False\<rparr>) acts
                else Live conn acts)"

definition remote_read_cb :: "'e prims \<Rightarrow> env \<Rightarrow> 'e conn \<Rightarrow> 'e conn result" where
  "remote_read_cb p ev conn =
     (let conn = (if state conn \<noteq> ESTAB then conn\<lparr>w_remote_read := False\<rparr> else conn)
      in case state conn of
           REQ_SENT \<Rightarrow> remote_read_REQ_SENT p ev conn
         | ESTAB \<Rightarrow> remote_read_ESTAB p ev conn
         | _ \<Rightarrow> Assert_fail)"

text \<open>\<^verbatim>\<open>remote_write_cb\<close>, case \<^verbatim>\<open>CONNECTED\<close>: the inner request goes out.\<close>

definition remote_write_CONNECTED :: "env \<Rightarrow> 'e conn \<Rightarrow> 'e conn result" where
  "remote_write_CONNECTED ev conn =
     (let n = send_ret (send_r ev);
          acts = send_act Send_remote (tx_buf conn) 0 (tx_bytes conn) (send_r ev)
      in if n \<noteq> tx_bytes conn then Dead (acts @ cleanup)
         else Live (conn\<lparr>state := REQ_SENT, w_remote_read := True\<rparr>) acts)"

text \<open>\<^verbatim>\<open>remote_write_cb\<close>, case \<^verbatim>\<open>ESTAB\<close>: drain \<^verbatim>\<open>tx_buf\<close> to the server.\<close>

definition remote_write_ESTAB :: "env \<Rightarrow> 'e conn \<Rightarrow> 'e conn result" where
  "remote_write_ESTAB ev conn =
     (if \<not> tx_bytes conn > 0 then Assert_fail
      else
        let n = send_ret (send_r ev);
            acts = send_act Send_remote (tx_buf conn) (tx_offset conn) (tx_bytes conn) (send_r ev)
        in if n < 0 then
             (if send_r ev = Send_fail EAGAIN then Live conn acts
              else Dead (acts @ cleanup))
           else if n < tx_bytes conn
           then Live (conn\<lparr>tx_offset := tx_offset conn + n, tx_bytes := tx_bytes conn - n\<rparr>) acts
           else Live (conn\<lparr>w_local_read := True, w_remote_write := False\<rparr>) acts)"

definition remote_write_cb :: "env \<Rightarrow> 'e conn \<Rightarrow> 'e conn result" where
  "remote_write_cb ev conn =
     (let conn = (if state conn \<noteq> ESTAB then conn\<lparr>w_remote_write := False\<rparr> else conn)
      in case state conn of
           CONNECTED \<Rightarrow> remote_write_CONNECTED ev conn
         | ESTAB \<Rightarrow> remote_write_ESTAB ev conn
         | _ \<Rightarrow> Assert_fail)"

text \<open>\<^verbatim>\<open>connect_cb\<close>: the outcome of the non-blocking \<^verbatim>\<open>connect\<close> to the server.\<close>

definition connect_cb :: "env \<Rightarrow> 'e conn \<Rightarrow> 'e conn result" where
  "connect_cb ev conn =
     (if state conn \<noteq> CMD_RCVD then Assert_fail
      else
        let conn = conn\<lparr>w_remote_write := False\<rparr>;
            error = so_error ev
        in if error = 0
           then Live (conn\<lparr>state := CONNECTED, w_remote_write_cb := Remote_write_cb,
                            w_remote_write := True\<rparr>) []
           else
             let tx = bzero (tx_buf conn) 10;
                 tx = tx[0 := 0x05, 1 := 0x05, 2 := 0x00, 3 := 0x01]
             in Live (conn\<lparr>tx_buf := tx, tx_bytes := 10, state := REQ_ERR,
                            w_local_write := True\<rparr>) [Close_remote])"

text \<open>\<^verbatim>\<open>closewait_cb\<close>: the linger timer has expired.\<close>

definition closewait_cb :: "'e conn \<Rightarrow> 'e conn result" where
  "closewait_cb conn =
     (if state conn \<noteq> CLOSE_WAIT then Assert_fail
      else Dead [Timer_stop, Close_local, Free_timer, Free_conn])"

section \<open>The server: \<^verbatim>\<open>osocks.c\<close>\<close>

text \<open>
  \<^verbatim>\<open>gai_t\<close>, as far as the callbacks below use it: the host and port strings of the
  query, held in \<^verbatim>\<open>char host[264]\<close> and \<^verbatim>\<open>char port[8]\<close>, and the addresses still to be
  tried (their families).
\<close>

definition GAI_HOST_SIZE :: nat where
  "GAI_HOST_SIZE = 264"

definition GAI_PORT_SIZE :: nat where
  "GAI_PORT_SIZE = 8"

record gai_t =
  gai_host :: "byte list"
  gai_port :: "byte list"
  gai_res :: "int list"

text \<open>The server's \<^verbatim>\<open>conn_t\<close> has two more members: the block \<^verbatim>\<open>gai\<close> points to, and the
  index of the listener that accepted the connection.\<close>

record 'e sconn = "'e conn" +
  gai :: gai_t
  server_index :: nat

text \<open>What the server's callbacks read from outside, beyond \<open>env\<close>: whether the pool has
  a \<^verbatim>\<open>gai_t\<close> block, what \<^verbatim>\<open>getaddrinfo_a\<close> and \<^verbatim>\<open>gai_error\<close> return, and the families of
  the resolved addresses.\<close>

record senv = env +
  gai_new :: bool
  getaddrinfo_a_r :: int
  gai_error_r :: int
  ar_result :: "int list"

text \<open>\<^verbatim>\<open>local_read_cb\<close> of the server, case \<^verbatim>\<open>CLOSED\<close>: the inner request.  The two
  \<^verbatim>\<open>strcpy\<close> calls into the \<^verbatim>\<open>gai_t\<close> block copy the string and its NUL without a bound: a
  string that does not leave room for the NUL in the array is written past its end.  The
  host string has at most 256 characters, the port string up to 14.\<close>

definition local_read_CLOSED_srv ::
  "'e prims \<Rightarrow> server_t list \<Rightarrow> senv \<Rightarrow> 'e sconn \<Rightarrow> 'e sconn result" where
  "local_read_CLOSED_srv p srvs ev conn =
     (let rx = recv_buf (rx_buf conn) (recv_r ev);
          rx_bytes = recv_ret (recv_r ev)
      in if rx_bytes \<noteq> 512 then Dead [Close_local, Free_conn]
         else
           case server_key p (srvs ! server_index conn) rx (tx_buf conn) of (tx, k) \<Rightarrow>
           case decrypt_buf p rx 276 (enc_init p (take 64 k)) of (rx, e) \<Rightarrow>
             let magic = ntohl_bytes rx;
                 rx = rx[260 := 0, 275 := 0];
                 h = cstr (drop 4 rx);
                 q = cstr (drop 261 rx)
             in if magic \<noteq> MAGIC then Dead [Close_local, Free_conn]
                else if \<not> gai_new ev then Dead [Close_local, Free_conn]
                else if \<not> length h < GAI_HOST_SIZE then Overflow
                else if \<not> length q < GAI_PORT_SIZE then Overflow
                else if getaddrinfo_a_r ev \<noteq> 0 then Dead [Close_local, Free_conn]
                else Live (conn\<lparr>rx_buf := rx, tx_buf := tx, enc_evp := e,
                                 gai := \<lparr>gai_host = h, gai_port = q, gai_res = []\<rparr>\<rparr>)
                       [Getaddrinfo_a h q])"

text \<open>\<^verbatim>\<open>local_read_cb\<close> of the server, case \<^verbatim>\<open>ESTAB\<close>: read from the client, decrypt, write
  to the destination at once.\<close>

definition local_read_ESTAB_srv :: "'e prims \<Rightarrow> senv \<Rightarrow> 'e sconn \<Rightarrow> 'e sconn result" where
  "local_read_ESTAB_srv p ev conn =
     (let conn = conn\<lparr>tx_buf := recv_buf (tx_buf conn) (recv_r ev),
                     tx_bytes := recv_ret (recv_r ev)\<rparr>
      in if tx_bytes conn \<le> 0 then Dead cleanup
         else
           case decrypt_buf p (tx_buf conn) (nat (tx_bytes conn)) (enc_evp conn) of (tx, e) \<Rightarrow>
             let conn = conn\<lparr>tx_buf := tx, enc_evp := e\<rparr>;
                 n = send_ret (send_r ev);
                 acts = send_act Send_remote (tx_buf conn) 0 (tx_bytes conn) (send_r ev)
             in if n < 0 then
                  (if send_r ev = Send_fail EAGAIN
                   then Live (conn\<lparr>tx_offset := 0, w_remote_write := True, w_local_read := False\<rparr>) acts
                   else Dead (acts @ cleanup))
                else if n < tx_bytes conn
                then Live (conn\<lparr>tx_offset := n, tx_bytes := tx_bytes conn - n,
                                 w_remote_write := True, w_local_read := False\<rparr>) acts
                else Live conn acts)"

definition local_read_cb_srv ::
  "'e prims \<Rightarrow> server_t list \<Rightarrow> senv \<Rightarrow> 'e sconn \<Rightarrow> 'e sconn result" where
  "local_read_cb_srv p srvs ev conn =
     (let conn = (if state conn \<noteq> ESTAB then conn\<lparr>w_local_read := False\<rparr> else conn)
      in case state conn of
           CLOSED \<Rightarrow> local_read_CLOSED_srv p srvs ev conn
         | ESTAB \<Rightarrow> local_read_ESTAB_srv p ev conn
         | _ \<Rightarrow> Assert_fail)"

text \<open>\<^verbatim>\<open>resolv_cb\<close>: the name resolution has finished.\<close>

definition resolv_cb :: "'e prims \<Rightarrow> senv \<Rightarrow> 'e sconn \<Rightarrow> 'e sconn result" where
  "resolv_cb p ev conn =
     (if gai_error_r ev \<noteq> 0 then
        let conn = conn\<lparr>tx_buf := bzero (tx_buf conn) 4, tx_bytes := 4\<rparr>
        in case encrypt_buf p (tx_buf conn) (nat (tx_bytes conn)) (enc_evp conn) of (tx, e) \<Rightarrow>
             Live (conn\<lparr>tx_buf := tx, enc_evp := e, state := REQ_ERR, w_local_write := True\<rparr>)
               [Free_gai]
      else
        case ar_result ev of
          [] \<Rightarrow> Assert_fail
        | family # others \<Rightarrow>
            let conn = conn\<lparr>gai := (gai conn)\<lparr>gai_res := family # others\<rparr>,
                            sock_remote := socket_r ev\<rparr>
            in if sock_remote conn < 0 then Dead [Close_local, Free_gai, Free_conn]
               else Live (conn\<lparr>w_remote_write_cb := Connect_cb, w_remote_write := True,
                                state := REQ_RCVD\<rparr>) [Connect_addr family])"

text \<open>The end of the reply case of the server's \<^verbatim>\<open>local_write_cb\<close>.\<close>

definition close_wait_srv :: "senv \<Rightarrow> 'e sconn \<Rightarrow> action list \<Rightarrow> 'e sconn result" where
  "close_wait_srv ev conn acts =
     (let conn = conn\<lparr>state := CLOSE_WAIT\<rparr>
      in if \<not> timer_new ev then Dead (acts @ [Close_local, Free_gai, Free_conn])
         else Live conn (acts @ [Timer_start 1]))"

text \<open>\<^verbatim>\<open>local_write_cb\<close> of the server, cases \<^verbatim>\<open>REQ_ERR\<close> and \<^verbatim>\<open>CONNECTED\<close>: the four-byte
  reply.\<close>

definition local_write_REPLY_srv :: "senv \<Rightarrow> 'e sconn \<Rightarrow> 'e sconn result" where
  "local_write_REPLY_srv ev conn =
     (let n = send_ret (send_r ev);
          acts = send_act Send_local (tx_buf conn) 0 (tx_bytes conn) (send_r ev)
      in if n \<noteq> tx_bytes conn then Dead (acts @ [Close_local, Free_gai, Free_conn])
         else if state conn = CONNECTED
         then Live (conn\<lparr>state := ESTAB, w_remote_read := False, w_remote_write := False,
                          w_remote_write_cb := Remote_write_cb,
                          w_local_read := True, w_remote_read := True\<rparr>) acts
         else close_wait_srv ev conn acts)"

text \<open>\<^verbatim>\<open>local_write_cb\<close> of the server, case \<^verbatim>\<open>ESTAB\<close>.\<close>

definition local_write_ESTAB_srv :: "senv \<Rightarrow> 'e sconn \<Rightarrow> 'e sconn result" where
  "local_write_ESTAB_srv ev conn =
     (if \<not> rx_bytes conn > 0 then Assert_fail
      else
        let n = send_ret (send_r ev);
            acts = send_act Send_local (rx_buf conn) (rx_offset conn) (rx_bytes conn) (send_r ev)
        in if n < 0 then
             (if send_r ev = Send_fail EAGAIN then Live conn acts
              else Dead (acts @ cleanup))
           else if n < rx_bytes conn
           then Live (conn\<lparr>rx_offset := rx_offset conn + n, rx_bytes := rx_bytes conn - n\<rparr>) acts
           else Live (conn\<lparr>w_remote_read := True, w_local_write := False\<rparr>) acts)"

definition local_write_cb_srv :: "senv \<Rightarrow> 'e sconn \<Rightarrow> 'e sconn result" where
  "local_write_cb_srv ev conn =
     (let conn = (if state conn \<noteq> ESTAB then conn\<lparr>w_local_write := False\<rparr> else conn)
      in case state conn of
           REQ_ERR \<Rightarrow> local_write_REPLY_srv ev conn
         | CONNECTED \<Rightarrow> local_write_REPLY_srv ev conn
         | ESTAB \<Rightarrow> local_write_ESTAB_srv ev conn
         | _ \<Rightarrow> Assert_fail)"

text \<open>\<^verbatim>\<open>closewait_cb\<close> of the server.\<close>

definition closewait_cb_srv :: "'e sconn \<Rightarrow> 'e sconn result" where
  "closewait_cb_srv conn =
     (if state conn \<noteq> CLOSE_WAIT then Assert_fail
      else Dead [Timer_stop, Close_local, Free_timer, Free_conn])"

section \<open>The event loop\<close>

text \<open>
  The callbacks are run by the event loop of libev: a watcher's callback is invoked only
  while the watcher is started, the watcher of the remote socket's writability dispatches
  to the callback it was last initialised with, and the linger timer exists exactly while
  the connection is in \<^verbatim>\<open>CLOSE_WAIT\<close>.  An event carries what the operating system will
  answer during the callback.
\<close>

datatype event =
  Local_read env | Local_write env | Remote_read env | Remote_write env | Timer

fun fire :: "'e prims \<Rightarrow> conf \<Rightarrow> event \<Rightarrow> 'e conn \<Rightarrow> 'e conn result option" where
  "fire p cf (Local_read ev) c = (if w_local_read c then Some (local_read_cb p cf ev c) else None)"
| "fire p cf (Local_write ev) c = (if w_local_write c then Some (local_write_cb ev c) else None)"
| "fire p cf (Remote_read ev) c = (if w_remote_read c then Some (remote_read_cb p ev c) else None)"
| "fire p cf (Remote_write ev) c =
     (if w_remote_write c
      then Some (case w_remote_write_cb c of
                   Connect_cb \<Rightarrow> connect_cb ev c
                 | Remote_write_cb \<Rightarrow> remote_write_cb ev c)
      else None)"
| "fire p cf Timer c = (if state c = CLOSE_WAIT then Some (closewait_cb c) else None)"

text \<open>A run of the client on one connection: the events in order, the effects
  collected.  \<open>None\<close> is a schedule the loop cannot produce (an event for a watcher that
  is not started, or an event after the connection was freed).\<close>

fun run :: "'e prims \<Rightarrow> conf \<Rightarrow> event list \<Rightarrow> 'e conn \<Rightarrow> action list \<Rightarrow> 'e conn result option" where
  "run p cf [] c acts = Some (Live c acts)"
| "run p cf (e # es) c acts =
     (case fire p cf e c of
        None \<Rightarrow> None
      | Some (Live c' a) \<Rightarrow> run p cf es c' (acts @ a)
      | Some (Dead a) \<Rightarrow> (if es = [] then Some (Dead (acts @ a)) else None)
      | Some Assert_fail \<Rightarrow> Some Assert_fail
      | Some Overflow \<Rightarrow> Some Overflow)"

text \<open>The connections the client can be in: a freshly accepted one, and every one a
  callback leaves alive.\<close>

inductive reachable :: "'e prims \<Rightarrow> conf \<Rightarrow> 'e conn \<Rightarrow> bool" for p cf where
  accepted: "reachable p cf (accept_cb fd blank)"
| fired: "reachable p cf c \<Longrightarrow> fire p cf e c = Some (Live c' a) \<Longrightarrow> reachable p cf c'"

section \<open>Invariants of the relay\<close>

text \<open>Half-duplex interlock: for each direction exactly one of the reader of the source
  socket and the writer of the sink socket is started.\<close>

definition interlock :: "'e conn \<Rightarrow> bool" where
  "interlock c = (w_local_read c \<noteq> w_remote_write c \<and> w_remote_read c \<noteq> w_local_write c)"

text \<open>The two watchers of a direction, reader first: local to remote through \<^verbatim>\<open>tx_buf\<close>,
  remote to local through \<^verbatim>\<open>rx_buf\<close>.\<close>

definition tx_pipe :: "'e conn \<Rightarrow> bool \<times> bool" where
  "tx_pipe c = (w_local_read c, w_remote_write c)"

definition rx_pipe :: "'e conn \<Rightarrow> bool \<times> bool" where
  "rx_pipe c = (w_remote_read c, w_local_write c)"

text \<open>The watchers that are started in each state of the client.\<close>

definition only :: "'e conn \<Rightarrow> bool \<Rightarrow> bool \<Rightarrow> bool \<Rightarrow> bool \<Rightarrow> bool" where
  "only c lr lw rr rw =
     (w_local_read c = lr \<and> w_local_write c = lw \<and> w_remote_read c = rr \<and> w_remote_write c = rw)"

definition watchers_ok :: "'e conn \<Rightarrow> bool" where
  "watchers_ok c =
     (case state c of
        CLOSED \<Rightarrow> only c True False False False
      | NEGO_RCVD \<Rightarrow> only c False True False False
      | NEGO_ERR \<Rightarrow> only c False True False False
      | NEGO_SENT \<Rightarrow> only c True False False False
      | CMD_RCVD \<Rightarrow> only c False False False True \<and> w_remote_write_cb c = Connect_cb
      | CMD_ERR \<Rightarrow> only c False True False False
      | CONNECTED \<Rightarrow> only c False False False True \<and> w_remote_write_cb c = Remote_write_cb
      | REQ_SENT \<Rightarrow> only c False False True False \<and> w_remote_write_cb c = Remote_write_cb
      | REP_RCVD \<Rightarrow> only c False True False False \<and> w_remote_write_cb c = Remote_write_cb
      | REQ_ERR \<Rightarrow> only c False True False False
      | ESTAB \<Rightarrow> interlock c \<and> w_remote_write_cb c = Remote_write_cb
      | CLOSE_WAIT \<Rightarrow> only c False False False False
      | REQ_RCVD \<Rightarrow> False)"

text \<open>The bounds of the specification's data model, and the bounds that hold for a
  buffer while it is being drained: the offsets are not negative, and a direction whose
  writer is started holds at least one unsent byte, all of them inside the buffer.\<close>

definition buffer_bounds :: "'e conn \<Rightarrow> bool" where
  "buffer_bounds c =
     (0 \<le> rx_offset c \<and> 0 \<le> tx_offset c
      \<and> rx_bytes c + rx_offset c \<le> int BUF_SIZE \<and> tx_bytes c + tx_offset c \<le> int BUF_SIZE)"

definition pending_bounds :: "'e conn \<Rightarrow> bool" where
  "pending_bounds c =
     (0 \<le> rx_offset c \<and> 0 \<le> tx_offset c
      \<and> (w_local_write c \<longrightarrow> 0 < rx_bytes c \<and> rx_bytes c + rx_offset c \<le> int BUF_SIZE)
      \<and> (w_remote_write c \<longrightarrow> 0 < tx_bytes c \<and> tx_bytes c + tx_offset c \<le> int BUF_SIZE))"

section \<open>Sample primitives for concrete runs\<close>

text \<open>
  Concrete runs of the model need concrete primitives.  These are stand-ins with the
  right shapes, not MD5 and RC4: the digest is 16 copies of the length of its input, the
  cipher adds the first key byte to every byte (and subtracts it again), and every IPv6
  address prints as \<^verbatim>\<open>::\<close>.
\<close>

definition sample_prims :: "byte prims" where
  "sample_prims =
     \<lparr>md5 = (\<lambda>x. replicate 16 (of_nat (length x))),
      enc_init = (\<lambda>k. k ! 0),
      io_encrypt = (\<lambda>e x. (map (\<lambda>b. b + e) x, e)),
      io_decrypt = (\<lambda>e x. (map (\<lambda>b. b - e) x, e)),
      inet_ntop6 = (\<lambda>a. [58, 58])\<rparr>"

definition sample_conn :: "byte conn" where
  "sample_conn =
     \<lparr>w_local_read = False, w_local_write = False, w_remote_read = False,
      w_remote_write = False, w_remote_write_cb = Connect_cb,
      rx_bytes = 0, tx_bytes = 0, rx_offset = 0, tx_offset = 0,
      sock_local = 0, sock_remote = 0, state = CLOSED, enc_evp = 0,
      rx_buf = replicate 8192 0, tx_buf = replicate 8192 0\<rparr>"

definition sample_env :: env where
  "sample_env =
     \<lparr>recv_r = Recv_fail, send_r = Send_fail EOTHER, rnd_index = 0, rnd_iv = replicate 236 7,
      socket_r = 5, so_error = 0, timer_new = True\<rparr>"

definition sample_estab :: "byte conn" where
  "sample_estab =
     sample_conn\<lparr>state := ESTAB, w_local_read := True, w_remote_read := True,
                 w_remote_write_cb := Remote_write_cb\<rparr>"

definition sample_conf :: conf where
  "sample_conf = \<lparr>server_num = 1, servers = [server_setup [1, 2, 3]]\<rparr>"

definition sample_sconn :: "byte sconn" where
  "sample_sconn =
     \<lparr>w_local_read = True, w_local_write = False, w_remote_read = False,
      w_remote_write = False, w_remote_write_cb = Connect_cb,
      rx_bytes = 0, tx_bytes = 0, rx_offset = 0, tx_offset = 0,
      sock_local = 0, sock_remote = 0, state = CLOSED, enc_evp = 0,
      rx_buf = replicate 8192 0, tx_buf = replicate 8192 0,
      gai = \<lparr>gai_host = [], gai_port = [], gai_res = []\<rparr>, server_index = 0\<rparr>"

definition sample_senv :: senv where
  "sample_senv =
     \<lparr>recv_r = Recv_fail, send_r = Send_fail EOTHER, rnd_index = 0, rnd_iv = [],
      socket_r = 5, so_error = 0, timer_new = True,
      gai_new = True, getaddrinfo_a_r = 0, gai_error_r = 0, ar_result = [2]\<rparr>"

section \<open>Key derivation agrees on both ends\<close>

lemma length_write_at:
  "off + length bs \<le> length buf \<Longrightarrow> length (write_at buf off bs) = length buf"
  by (simp add: write_at_def)

lemma take_write_at_prefix:
  "off \<le> length buf \<Longrightarrow> take (off + length bs) (write_at buf off bs) = take off buf @ bs"
  by (simp add: write_at_def)

lemma derive_key_chain:
  assumes "md5_ok p"
  shows "derive_key p buf len =
     (let a = md5 p (take len buf); b = md5 p a; c = md5 p (a @ b); d = md5 p (a @ b @ c)
      in a @ b @ c @ d)"
  using assms by (simp add: derive_key_def md5_ok_def write_at_def Let_def)

lemma append_key_prefix:
  assumes "length buf = BUF_SIZE" and "take 236 buf = R" and "length R = 236"
    and "key_len srv \<le> length (key srv)" and "key_len srv \<le> 256"
  shows "take (236 + key_len srv) (write_at buf 236 (take (key_len srv) (key srv)))
         = R @ take (key_len srv) (key srv)"
proof -
  let ?k = "take (key_len srv) (key srv)"
  have lk: "length ?k = key_len srv"
    using assms by simp
  have "take (236 + length ?k) (write_at buf 236 ?k) = take 236 buf @ ?k"
    by (rule take_write_at_prefix) (simp add: assms BUF_SIZE_def)
  then show ?thesis
    using assms by (simp only: lk)
qed

lemma server_setup_prefix:
  "take (key_len (server_setup P)) (key (server_setup P)) = take 256 P"
  by (simp add: server_setup_def min_def)

lemma server_setup_bounds:
  "key_len (server_setup P) \<le> length (key (server_setup P)) \<and> key_len (server_setup P) \<le> 256"
  by (simp add: server_setup_def)

lemma client_key_input:
  assumes "length R = 236" and "length rx = BUF_SIZE"
  shows "take (236 + key_len (server_setup P)) (fst (client_key p (server_setup P) rx R))
         = R @ take 256 P"
proof -
  let ?rx1 = "rand_bytes rx 236 R"
  have l1: "length ?rx1 = BUF_SIZE"
    using assms by (simp add: rand_bytes_def write_at_def BUF_SIZE_def)
  have t1: "take 236 ?rx1 = R"
    using assms by (simp add: rand_bytes_def write_at_def)
  have "fst (client_key p (server_setup P) rx R)
        = write_at ?rx1 236 (take (key_len (server_setup P)) (key (server_setup P)))"
    by (simp add: client_key_def Let_def)
  moreover have "take (236 + key_len (server_setup P))
        (write_at ?rx1 236 (take (key_len (server_setup P)) (key (server_setup P))))
        = R @ take (key_len (server_setup P)) (key (server_setup P))"
    using server_setup_bounds [of P] by (intro append_key_prefix [OF l1 t1 assms(1)]) simp_all
  ultimately show ?thesis
    by (simp only: server_setup_prefix)
qed

lemma server_key_input:
  assumes "length rx = BUF_SIZE" and "length tx = BUF_SIZE"
    and "take 236 (drop 276 rx) = R" and "length R = 236"
  shows "take (236 + key_len (server_setup P)) (fst (server_key p (server_setup P) rx tx))
         = R @ take 256 P"
proof -
  let ?tx1 = "write_at tx 0 (take 236 (drop 276 rx))"
  have l1: "length ?tx1 = BUF_SIZE"
    using assms by (simp add: write_at_def BUF_SIZE_def)
  have t1: "take 236 ?tx1 = R"
    using assms by (simp add: write_at_def)
  have "fst (server_key p (server_setup P) rx tx)
        = write_at ?tx1 236 (take (key_len (server_setup P)) (key (server_setup P)))"
    by (simp add: server_key_def Let_def)
  moreover have "take (236 + key_len (server_setup P))
        (write_at ?tx1 236 (take (key_len (server_setup P)) (key (server_setup P))))
        = R @ take (key_len (server_setup P)) (key (server_setup P))"
    using server_setup_bounds [of P] by (intro append_key_prefix [OF l1 t1 assms(4)]) simp_all
  ultimately show ?thesis
    by (simp only: server_setup_prefix)
qed

lemma spec_key_length: "md5_ok p \<Longrightarrow> length (spec_key p R P) = 64"
  by (simp add: spec_key_def md5_ok_def Let_def)

lemma client_key_spec:
  assumes "md5_ok p" and "length R = 236" and "length rx = BUF_SIZE"
  shows "snd (client_key p (server_setup P) rx R) = spec_key p R P"
proof -
  let ?s = "server_setup P"
  have "snd (client_key p ?s rx R) = derive_key p (fst (client_key p ?s rx R)) (236 + key_len ?s)"
    by (simp add: client_key_def Let_def)
  then show ?thesis
    using assms
    by (simp add: derive_key_chain client_key_input spec_key_def)
qed

lemma server_key_spec:
  assumes "md5_ok p" and "length rx = BUF_SIZE" and "length tx = BUF_SIZE"
    and "take 236 (drop 276 rx) = R" and "length R = 236"
  shows "snd (server_key p (server_setup P) rx tx) = spec_key p R P"
proof -
  let ?s = "server_setup P"
  have "snd (server_key p ?s rx tx) = derive_key p (fst (server_key p ?s rx tx)) (236 + key_len ?s)"
    by (simp add: server_key_def Let_def)
  then show ?thesis
    using assms
    by (simp add: derive_key_chain server_key_input [where R = R] spec_key_def)
qed

lemma md5_ok_sample: "md5_ok sample_prims"
  by (simp add: md5_ok_def sample_prims_def)

lemma cipher_ok_sample: "cipher_ok sample_prims"
  by (simp add: cipher_ok_def sample_prims_def)

section \<open>The SOCKS5 request: error replies\<close>

lemma bzero10: "bzero tx 10 = [0,0,0,0,0,0,0,0,0,0] @ drop 10 tx"
  by (simp add: bzero_def write_at_def numeral_eq_Suc)

lemma recv_nth:
  "i < length d \<Longrightarrow> i < BUF_SIZE \<Longrightarrow> recv_buf (bzero buf n) (Recv_data d) ! i = d ! i"
  by (simp add: recv_buf_def bzero_def write_at_def nth_append)

lemma recv_nth_zero:
  "length d \<le> i \<Longrightarrow> i < n \<Longrightarrow> n \<le> BUF_SIZE \<Longrightarrow> recv_buf (bzero buf n) (Recv_data d) ! i = 0"
  by (auto simp add: recv_buf_def bzero_def write_at_def nth_append min_def BUF_SIZE_def)

lemma recv_ret_pos: "d \<noteq> [] \<Longrightarrow> \<not> recv_ret (Recv_data d) \<le> 0"
  by (simp add: recv_ret_def BUF_SIZE_def)

lemma request_error_cases:
  "request_error rx =
     (if rx ! 3 \<noteq> 1 \<and> rx ! 3 \<noteq> 3 \<and> rx ! 3 \<noteq> 4 then 3
      else if rx ! 1 \<noteq> 1 then 2 else if rx ! 0 \<noteq> 5 then 1 else 0)"
  by (simp add: request_error_def Let_def)


lemma local_read_request_error:
  assumes "state c = NEGO_SENT" and "recv_r ev = Recv_data d" and "d \<noteq> []"
    and "rx = recv_buf (bzero (rx_buf c) 263) (Recv_data d)" and "request_error rx \<noteq> 0"
  shows "local_read_cb p cf ev c =
     Live (c\<lparr>w_local_read := False, rx_buf := rx,
             tx_buf := [5, (if request_error rx = 2 then 0x07 else if request_error rx = 3 then 0x08 else 0x01), 0, 1, 0, 0, 0, 0, 0, 0] @ drop 10 (tx_buf c),
             tx_bytes := 10, state := CMD_ERR, w_local_write := True\<rparr>) []"
  using assms
  by (simp add: local_read_cb_def local_read_NEGO_SENT_def Let_def recv_ret_pos bzero10)

lemma close_wait_ok:
  "timer_new ev \<Longrightarrow> close_wait ev c acts = Live (c\<lparr>state := CLOSE_WAIT\<rparr>) (acts @ [Timer_start 1])"
  by (simp add: close_wait_def Let_def)

lemma local_write_reply_linger:
  assumes "state c = CMD_ERR \<or> state c = REQ_ERR" and "send_r ev = Send_n n" and "int n = tx_bytes c"
    and "timer_new ev"
  shows "local_write_cb ev c =
     Live (c\<lparr>w_local_write := False, state := CLOSE_WAIT\<rparr>)
       [Send_local (take n (tx_buf c)), Timer_start 1]"
  using assms
  by (auto simp add: local_write_cb_def local_write_REPLY_def Let_def close_wait_ok send_ret_def send_act_def)


lemma request_bytes:
  assumes "4 \<le> length d" and "rx = recv_buf (bzero buf 263) (Recv_data d)"
  shows "rx ! 0 = d ! 0 \<and> rx ! 1 = d ! 1 \<and> rx ! 3 = d ! 3"
proof -
  have "d \<noteq> []"
    using assms(1) by auto
  then have "recv_buf (bzero buf 263) (Recv_data d) ! 0 = d ! 0"
    by (intro recv_nth) (simp_all add: BUF_SIZE_def)
  then show ?thesis
    using assms by (simp add: recv_nth BUF_SIZE_def)
qed

lemma closewait_dead:
  "state c = CLOSE_WAIT \<Longrightarrow> closewait_cb c = Dead [Timer_stop, Close_local, Free_timer, Free_conn]"
  by (simp add: closewait_cb_def)

lemma replicate_10: "replicate 10 x = [x, x, x, x, x, x, x, x, x, x]"
  by (simp add: numeral_eq_Suc)

lemmas client_defs =
  local_read_cb_def local_read_CLOSED_def local_read_NEGO_SENT_def local_read_ESTAB_def
  local_write_cb_def local_write_NEGO_def local_write_REPLY_def local_write_ESTAB_def
  remote_read_cb_def remote_read_REQ_SENT_def remote_read_ESTAB_def
  remote_write_cb_def remote_write_CONNECTED_def remote_write_ESTAB_def
  connect_cb_def closewait_cb_def close_wait_def cleanup_def
  recv_ret_def recv_buf_def send_ret_def send_act_def bzero_def write_at_def BUF_SIZE_def


section \<open>The SOCKS5 greeting\<close>

lemma unat_succ_byte: "(i::byte) < n \<Longrightarrow> unat (i + 1) = unat i + 1"
proof -
  assume "i < n"
  then have "unat i < unat n"
    by (simp add: word_less_nat_alt)
  moreover have "unat n < 256"
    using unsigned_less [of n, where ?'a = nat] by simp
  ultimately have "unat i + 1 < 256"
    by simp
  then show ?thesis
    by (simp add: unat_word_ariths)
qed

lemma scan_finds:
  "unat i \<le> j \<Longrightarrow> j < unat n \<Longrightarrow> buf ! (2 + j) = 0 \<Longrightarrow> scan_methods buf n i < n"
proof (induction buf n i rule: scan_methods.induct)
  case (1 buf n i)
  have lt: "i < n"
    using "1.prems" by (simp add: word_less_nat_alt)
  show ?case
  proof (cases "buf ! (2 + unat i) = 0")
    case True
    then show ?thesis
      using lt by (subst scan_methods.simps) simp
  next
    case False
    then have "unat i \<noteq> j"
      using "1.prems" by auto
    then have "unat (i + 1) \<le> j"
      using "1.prems" unat_succ_byte [OF lt] by simp
    then have "scan_methods buf n (i + 1) < n"
      using "1.IH" [OF lt False] "1.prems" by simp
    then show ?thesis
      using lt False by (subst scan_methods.simps) simp
  qed
qed

lemma local_read_greeting_accept:
  assumes "state c = CLOSED" and "recv_r ev = Recv_data d" and "d \<noteq> []"
    and "rx = recv_buf (bzero (rx_buf c) 257) (Recv_data d)"
    and "rx ! 0 = 5" and "scan_methods rx (rx ! 1) 0 < rx ! 1"
  shows "local_read_cb p cf ev c =
     Live (c\<lparr>w_local_read := False, rx_buf := rx, tx_buf := (tx_buf c)[0 := 5, 1 := 0],
             tx_bytes := 2, state := NEGO_RCVD, w_local_write := True\<rparr>) []"
  using assms
  by (simp add: local_read_cb_def local_read_CLOSED_def Let_def recv_ret_pos)

lemma local_write_nego_sent:
  assumes "state c = NEGO_RCVD" and "send_r ev = Send_n n" and "int n = tx_bytes c"
  shows "local_write_cb ev c =
     Live (c\<lparr>w_local_write := False, state := NEGO_SENT, w_local_read := True\<rparr>)
       [Send_local (take n (tx_buf c))]"
  using assms
  by (auto simp add: local_write_cb_def local_write_NEGO_def Let_def send_ret_def send_act_def)


section \<open>Counting the random words that select a server\<close>

lemma residue_bound:
  fixes n i N q :: nat
  assumes "i < n"
  shows "q * n + i < N \<longleftrightarrow> q < N div n + (if i < N mod n then 1 else 0)"
proof -
  have N: "N = (N div n) * n + N mod n"
    by simp
  have r: "N mod n < n"
    using assms by simp
  show ?thesis
  proof (cases "i < N mod n")
    case True
    have "q * n + i < N \<longleftrightarrow> q \<le> N div n"
    proof
      assume a: "q * n + i < N"
      show "q \<le> N div n"
      proof (rule ccontr)
        assume "\<not> q \<le> N div n"
        then have "Suc (N div n) \<le> q" by simp
        then have "Suc (N div n) * n \<le> q * n" by (rule mult_le_mono1)
        then have "N div n * n + n \<le> q * n" by simp
        with r N a show False by linarith
      qed
    next
      assume "q \<le> N div n"
      then have "q * n \<le> N div n * n" by (rule mult_le_mono1)
      with True N show "q * n + i < N" by linarith
    qed
    with True show ?thesis by auto
  next
    case False
    have "q * n + i < N \<longleftrightarrow> q < N div n"
    proof
      assume a: "q * n + i < N"
      show "q < N div n"
      proof (rule ccontr)
        assume "\<not> q < N div n"
        then have "N div n \<le> q" by simp
        then have "N div n * n \<le> q * n" by (rule mult_le_mono1)
        with False N a show False by linarith
      qed
    next
      assume "q < N div n"
      then have "Suc q \<le> N div n" by simp
      then have "Suc q * n \<le> N div n * n" by (rule mult_le_mono1)
      then have "q * n + n \<le> N div n * n" by simp
      with assms N show "q * n + i < N" by linarith
    qed
    with False show ?thesis by auto
  qed
qed

lemma card_residue:
  fixes n i N :: nat
  assumes "i < n"
  shows "card {k. k < N \<and> k mod n = i} = N div n + (if i < N mod n then 1 else 0)"
proof -
  let ?m = "N div n + (if i < N mod n then 1 else 0)"
  have "{k. k < N \<and> k mod n = i} = (\<lambda>q. q * n + i) ` {..<?m}"
  proof (intro set_eqI iffI)
    fix k assume "k \<in> {k. k < N \<and> k mod n = i}"
    then have k: "k < N" "k mod n = i" by auto
    have "k = (k div n) * n + i"
      using k(2) by (metis div_mult_mod_eq)
    moreover from this k(1) have "k div n < ?m"
      using residue_bound [OF assms, of "k div n" N] by simp
    ultimately show "k \<in> (\<lambda>q. q * n + i) ` {..<?m}"
      by blast
  next
    fix k assume "k \<in> (\<lambda>q. q * n + i) ` {..<?m}"
    then obtain q where q: "k = q * n + i" "q < ?m" by auto
    then have "k < N"
      using residue_bound [OF assms, of q N] by simp
    moreover have "k mod n = i"
      using q(1) assms by simp
    ultimately show "k \<in> {k. k < N \<and> k mod n = i}" by simp
  qed
  moreover have "inj_on (\<lambda>q. q * n + i) {..<?m}"
    using assms by (auto simp add: inj_on_def)
  ultimately show ?thesis
    by (simp add: card_image)
qed

lemma select_server_unat:
  assumes "0 < n" and "n < 2 ^ 32"
  shows "unat (select_server v (int n)) = unat v mod n"
proof -
  have "unat (word_of_int (int n) :: 32 word) = n"
    using assms by (simp add: unat_of_nat)
  then show ?thesis
    by (simp add: select_server_def unat_mod)
qed

lemma card_word_pred:
  "card {v :: 32 word. P (unat v)} = card {k. k < 2 ^ 32 \<and> P k}"
proof -
  have "{k. k < 2 ^ 32 \<and> P k} = unat ` {v :: 32 word. P (unat v)}"
  proof (intro set_eqI iffI)
    fix k assume "k \<in> {k. k < 2 ^ 32 \<and> P k}"
    then have "unat (of_nat k :: 32 word) = k" "P k"
      by (simp_all add: unat_of_nat)
    then show "k \<in> unat ` {v :: 32 word. P (unat v)}"
      by (metis (mono_tags, lifting) image_eqI mem_Collect_eq)
  next
    fix k assume "k \<in> unat ` {v :: 32 word. P (unat v)}"
    then obtain v :: "32 word" where "k = unat v" "P (unat v)" by auto
    moreover have "unat v < 2 ^ 32"
      using unsigned_less [of v, where ?'a = nat] by simp
    ultimately show "k \<in> {k. k < 2 ^ 32 \<and> P k}" by simp
  qed
  moreover have "inj_on unat {v :: 32 word. P (unat v)}"
    by (auto simp add: inj_on_def word_unat_eq_iff)
  ultimately show ?thesis
    by (simp add: card_image)
qed


lemma select_server_card:
  assumes "0 < n" and "n < 2 ^ 32" and "i < n"
  shows "card {v. unat (select_server v (int n)) = i}
         = 2 ^ 32 div n + (if i < 2 ^ 32 mod n then 1 else 0)"
proof -
  have "{v. unat (select_server v (int n)) = i} = {v. unat v mod n = i}"
    using assms by (simp add: select_server_unat)
  then show ?thesis
    using card_word_pred [of "\<lambda>k. k mod n = i"] card_residue [OF assms(3), of "2 ^ 32"]
    by simp
qed

section \<open>The inner request frame\<close>

lemma write_at_append:
  "length a = off \<Longrightarrow> write_at (a @ b) off bs = a @ bs @ drop (length bs) b"
  by (simp add: write_at_def)

lemma htonl_magic: "htonl_bytes MAGIC = [0x52, 0x6f, 0x6e, 0x61]"
  by (simp add: htonl_bytes_def MAGIC_def)

lemma request_plain_layout:
  assumes "length tx = BUF_SIZE" and "length rx = BUF_SIZE"
    and "length (cstr host) \<le> 256" and "length (cstr port) \<le> 14"
  shows "request_plain rx host port tx =
         htonl_bytes MAGIC @ cstr host @ replicate (257 - length (cstr host)) 0
         @ cstr port @ replicate (15 - length (cstr port)) 0 @ take 236 rx @ drop 512 tx"
proof -
  let ?h = "cstr host" and ?q = "cstr port" and ?R = "take 236 rx" and ?m = "htonl_bytes MAGIC"
  let ?rest = "drop 512 tx"
  have lR: "length ?R = 236"
    using assms(2) by (simp add: BUF_SIZE_def)
  have lm: "length ?m = 4"
    by (simp add: htonl_bytes_def)
  have t1: "write_at tx 276 ?R = take 276 tx @ ?R @ ?rest"
    using assms(2) by (simp add: write_at_def BUF_SIZE_def)
  have t2: "bzero (write_at tx 276 ?R) 276 = replicate 276 0 @ ?R @ ?rest"
    unfolding t1 using assms(1) by (simp add: bzero_def write_at_def BUF_SIZE_def)
  have t3: "write_at (replicate 276 0 @ ?R @ ?rest) 0 ?m = ?m @ replicate 272 0 @ ?R @ ?rest"
    by (simp add: write_at_def lm)
  have r272: "replicate 272 (0::byte) = replicate (Suc (length ?h)) 0 @ replicate (256 - length ?h) 0 @ replicate 15 0"
  proof -
    have "Suc (length ?h) + ((256 - length ?h) + 15) = 272"
      using assms(3) by simp
    then have "replicate 272 (0::byte) = replicate (Suc (length ?h) + ((256 - length ?h) + 15)) 0"
      by (simp only:)
    then show ?thesis
      by (simp only: replicate_add)
  qed
  have t4: "strcpy (?m @ replicate 272 0 @ ?R @ ?rest) 4 host
            = (?m @ ?h @ replicate (257 - length ?h) 0) @ replicate 15 0 @ ?R @ ?rest"
  proof -
    have "strcpy (?m @ replicate 272 0 @ ?R @ ?rest) 4 host
          = ?m @ (?h @ [0]) @ drop (length (?h @ [0])) (replicate 272 0 @ ?R @ ?rest)"
      unfolding strcpy_def by (rule write_at_append) (rule lm)
    also have "drop (length (?h @ [0])) (replicate 272 0 @ ?R @ ?rest)
          = replicate (256 - length ?h) 0 @ replicate 15 0 @ ?R @ ?rest"
      by (simp add: r272)
    also have "?m @ (?h @ [0]) @ replicate (256 - length ?h) 0 @ replicate 15 0 @ ?R @ ?rest
          = (?m @ ?h @ replicate (257 - length ?h) 0) @ replicate 15 0 @ ?R @ ?rest"
      using assms(3) by (simp add: Suc_diff_le flip: replicate_Suc)
    finally show ?thesis .
  qed
  have l261: "length (?m @ ?h @ replicate (257 - length ?h) 0) = 261"
    using assms(3) by (simp add: lm)
  have r15: "replicate 15 (0::byte) = replicate (Suc (length ?q)) 0 @ replicate (14 - length ?q) 0"
  proof -
    have "Suc (length ?q) + (14 - length ?q) = 15"
      using assms(4) by simp
    then have "replicate 15 (0::byte) = replicate (Suc (length ?q) + (14 - length ?q)) 0"
      by (simp only:)
    then show ?thesis
      by (simp only: replicate_add)
  qed
  have t5: "strcpy ((?m @ ?h @ replicate (257 - length ?h) 0) @ replicate 15 0 @ ?R @ ?rest) 261 port
            = (?m @ ?h @ replicate (257 - length ?h) 0) @ ?q @ replicate (15 - length ?q) 0 @ ?R @ ?rest"
  proof -
    have "strcpy ((?m @ ?h @ replicate (257 - length ?h) 0) @ replicate 15 0 @ ?R @ ?rest) 261 port
          = (?m @ ?h @ replicate (257 - length ?h) 0) @ (?q @ [0])
            @ drop (length (?q @ [0])) (replicate 15 0 @ ?R @ ?rest)"
      unfolding strcpy_def by (rule write_at_append) (rule l261)
    also have "drop (length (?q @ [0])) (replicate 15 0 @ ?R @ ?rest)
          = replicate (14 - length ?q) 0 @ ?R @ ?rest"
      by (simp add: r15)
    also have "(?m @ ?h @ replicate (257 - length ?h) 0) @ (?q @ [0])
            @ replicate (14 - length ?q) 0 @ ?R @ ?rest
          = (?m @ ?h @ replicate (257 - length ?h) 0) @ ?q @ replicate (15 - length ?q) 0 @ ?R @ ?rest"
      using assms(4) by (simp add: Suc_diff_le flip: replicate_Suc)
    finally show ?thesis .
  qed
  have "request_plain rx host port tx
        = (?m @ ?h @ replicate (257 - length ?h) 0) @ ?q @ replicate (15 - length ?q) 0 @ ?R @ ?rest"
    by (simp only: request_plain_def Let_def t2 t3 t4 t5)
  then show ?thesis
    by (simp only: append_assoc)
qed


lemma dec_length: "0 < k \<Longrightarrow> n < 10 ^ k \<Longrightarrow> length (dec n) \<le> k"
proof (induction k arbitrary: n)
  case 0
  then show ?case by simp
next
  case (Suc k)
  show ?case
  proof (cases "n < 10")
    case True
    then show ?thesis
      by (subst dec.simps) simp
  next
    case False
    then have k: "0 < k"
      using Suc.prems by (cases k) auto
    have "n div 10 < 10 ^ k"
      using Suc.prems by (simp add: less_mult_imp_div_less mult.commute)
    then have "length (dec (n div 10)) \<le> k"
      using k by (rule Suc.IH [rotated])
    then show ?thesis
      using False by (subst dec.simps) simp
  qed
qed

lemma dec_byte_length: "length (dec (unat (b::byte))) \<le> 3"
proof -
  have "unat b < 256"
    using unsigned_less [of b, where ?'a = nat] by simp
  then have "unat b < 10 ^ 3"
    by simp
  then show ?thesis
    by (intro dec_length) simp_all
qed

lemma inet_ntop4_length: "length (inet_ntop4 a) \<le> 15"
  using dec_byte_length [of "a ! 0"] dec_byte_length [of "a ! 1"]
    dec_byte_length [of "a ! 2"] dec_byte_length [of "a ! 3"]
  by (simp add: inet_ntop4_def)

lemma dec_port_length: "length (dec (ntohs_at buf off)) \<le> 5"
proof -
  have "unat (buf ! off) < 256" "unat (buf ! (off + 1)) < 256"
    using unsigned_less [of "buf ! off", where ?'a = nat]
      unsigned_less [of "buf ! (off + 1)", where ?'a = nat] by simp_all
  then have "ntohs_at buf off < 10 ^ 5"
    by (simp add: ntohs_at_def)
  then show ?thesis
    by (intro dec_length) simp_all
qed

lemma cstr_length: "length (cstr bs) \<le> length bs"
  by (simp add: cstr_def length_takeWhile_le)

lemma cstr_no_nul: "0 \<notin> set (cstr bs)"
  by (auto simp add: cstr_def dest: set_takeWhileD)

lemma request_host_length:
  assumes "\<forall>a. length (inet_ntop6 p a) \<le> 45"
  shows "length (cstr (request_host p rx)) \<le> 256"
proof -
  have "length (request_host p rx) \<le> 256"
  proof -
    have "unat (rx ! 4) < 256"
      using unsigned_less [of "rx ! 4", where ?'a = nat] by simp
    moreover have "length (inet_ntop6 p (take 16 (drop 4 rx))) \<le> 45"
      using assms by simp
    ultimately show ?thesis
      using inet_ntop4_length [of "take 4 (drop 4 rx)"]
      by (auto simp add: request_host_def)
  qed
  then show ?thesis
    using cstr_length [of "request_host p rx"] by simp
qed

lemma request_port_length: "length (cstr (request_port rx)) \<le> 14"
proof -
  have "length (request_port rx) \<le> 5"
    using dec_port_length [of rx 8] dec_port_length [of rx 20]
      dec_port_length [of rx "unat (rx ! 4) + 5"]
    by (simp add: request_port_def)
  then show ?thesis
    using cstr_length [of "request_port rx"] by simp
qed


lemma local_read_request_ok:
  assumes "state c = NEGO_SENT" and "recv_r ev = Recv_data d" and "d \<noteq> []"
    and "rx = recv_buf (bzero (rx_buf c) 263) (Recv_data d)" and "request_error rx = 0"
    and "0 \<le> socket_r ev"
    and "idx = select_server (rnd_index ev) (server_num cf)"
    and "client_key p (servers cf ! unat idx) rx (rnd_iv ev) = (rx1, k)"
    and "build_request p k rx1 (request_host p rx) (request_port rx) (tx_buf c) = (tx1, e)"
  shows "local_read_cb p cf ev c =
     Live (c\<lparr>w_local_read := False, rx_buf := rx1, tx_buf := tx1, enc_evp := e, tx_bytes := 512,
             sock_remote := socket_r ev, w_remote_write_cb := Connect_cb, w_remote_write := True,
             state := CMD_RCVD\<rparr>) [Connect_server (unat idx)]"
  using assms
  by (simp add: local_read_cb_def local_read_NEGO_SENT_def Let_def recv_ret_pos)

lemma build_request_frame:
  assumes "cipher_ok p" and "length tx = BUF_SIZE" and "length rx1 = BUF_SIZE"
    and "length (cstr host) \<le> 256" and "length (cstr port) \<le> 14"
    and "plain = htonl_bytes MAGIC @ cstr host @ replicate (257 - length (cstr host)) 0
                 @ cstr port @ replicate (15 - length (cstr port)) 0"
  shows "length plain = 276"
    and "build_request p k rx1 host port tx =
           (fst (io_encrypt p (enc_init p (take 64 k)) plain) @ take 236 rx1 @ drop 512 tx,
            snd (io_encrypt p (enc_init p (take 64 k)) plain))"
proof -
  show l: "length plain = 276"
    using assms(4,5,6) by (simp add: htonl_bytes_def)
  have rp: "request_plain rx1 host port tx = plain @ take 236 rx1 @ drop 512 tx"
    using request_plain_layout [OF assms(2,3,4,5)] assms(6) by simp
  have tk: "take 276 (request_plain rx1 host port tx) = plain"
    using l by (simp add: rp)
  have lo: "length (fst (io_encrypt p (enc_init p (take 64 k)) plain)) = 276"
    using assms(1) l by (simp add: cipher_ok_def)
  show "build_request p k rx1 host port tx =
           (fst (io_encrypt p (enc_init p (take 64 k)) plain) @ take 236 rx1 @ drop 512 tx,
            snd (io_encrypt p (enc_init p (take 64 k)) plain))"
  proof -
    obtain out e' where io: "io_encrypt p (enc_init p (take 64 k)) plain = (out, e')"
      by (cases "io_encrypt p (enc_init p (take 64 k)) plain")
    then have "length out = 276"
      using lo by simp
    then have "write_at (plain @ take 236 rx1 @ drop 512 tx) 0 out = out @ take 236 rx1 @ drop 512 tx"
      using l by (simp add: write_at_def)
    then show ?thesis
      unfolding build_request_def encrypt_buf_def tk by (simp add: io rp)
  qed
qed


lemma client_key_buf:
  assumes "length R = 236" and "length rx = BUF_SIZE"
  shows "length (fst (client_key p (server_setup P) rx R)) = BUF_SIZE"
    and "take 236 (fst (client_key p (server_setup P) rx R)) = R"
proof -
  let ?b = "fst (client_key p (server_setup P) rx R)"
  have kl: "key_len (server_setup P) \<le> 256"
    using server_setup_bounds [of P] by simp
  show "length ?b = BUF_SIZE"
    using assms kl
    by (simp add: client_key_def Let_def rand_bytes_def write_at_def BUF_SIZE_def)
  have "take 236 (take (236 + key_len (server_setup P)) ?b) = take 236 (R @ take 256 P)"
    using client_key_input [OF assms, of P p] by simp
  then show "take 236 ?b = R"
    using assms(1) by (simp add: min_def)
qed

lemma connect_cb_ok:
  assumes "state c = CMD_RCVD" and "so_error ev = 0"
  shows "connect_cb ev c =
     Live (c\<lparr>state := CONNECTED, w_remote_write_cb := Remote_write_cb, w_remote_write := True\<rparr>) []"
  using assms by (simp add: connect_cb_def Let_def)

lemma remote_write_request_sent:
  assumes "state c = CONNECTED" and "send_r ev = Send_n n" and "int n = tx_bytes c"
  shows "remote_write_cb ev c =
     Live (c\<lparr>w_remote_write := False, state := REQ_SENT, w_remote_read := True\<rparr>)
       [Send_remote (take n (tx_buf c))]"
  using assms
  by (auto simp add: remote_write_cb_def remote_write_CONNECTED_def Let_def send_ret_def send_act_def)


section \<open>The server's first read\<close>

lemma recv_ret_512: "recv_ret (Recv_data d) = 512 \<longleftrightarrow> length d = 512"
  by (auto simp add: recv_ret_def BUF_SIZE_def min_def)

lemma local_read_srv_reject:
  assumes "state c = CLOSED" and "recv_ret (recv_r ev) \<noteq> 512"
  shows "local_read_cb_srv p srvs ev c = Dead [Close_local, Free_conn]"
  using assms by (simp add: local_read_cb_srv_def local_read_CLOSED_srv_def Let_def)

lemma ntohl_bytes_append: "4 \<le> length a \<Longrightarrow> ntohl_bytes (a @ b) = ntohl_bytes a"
  by (auto simp add: ntohl_bytes_def nth_append)

lemma cstr_nul: "cstr (a @ 0 # b) = cstr a"
proof (cases "\<exists>x\<in>set a. \<not> x \<noteq> 0")
  case True
  then show ?thesis
    unfolding cstr_def by (intro takeWhile_append1) auto
next
  case False
  then have all: "\<forall>x\<in>set a. x \<noteq> 0"
    by auto
  have "takeWhile (\<lambda>b. b \<noteq> 0) (a @ 0 # b) = a @ takeWhile (\<lambda>b. b \<noteq> 0) (0 # b)"
    by (rule takeWhile_append2) (use all in auto)
  also have "\<dots> = a"
    by simp
  also have "a = takeWhile (\<lambda>b. b \<noteq> 0) a"
    by (rule sym, rule takeWhile_eq_all_conv [THEN iffD2]) (use all in auto)
  finally show ?thesis
    unfolding cstr_def .
qed

lemma cstr_update: "n < length zs \<Longrightarrow> cstr (zs[n := 0]) = cstr (take n zs)"
  by (simp add: upd_conv_take_nth_drop cstr_nul)

lemma request_strings:
  assumes "length plain = 276"
  shows "cstr (drop 4 ((plain @ rest)[260 := 0, 275 := 0])) = cstr (take 256 (drop 4 plain))"
    and "cstr (drop 261 ((plain @ rest)[260 := 0, 275 := 0])) = cstr (take 14 (drop 261 plain))"
proof -
  let ?xs = "plain @ rest"
  have "drop 4 (?xs[260 := 0, 275 := 0]) = ((drop 4 ?xs)[256 := 0])[271 := 0]"
    by (simp add: drop_update_swap)
  also have "cstr \<dots> = cstr (take 271 ((drop 4 ?xs)[256 := 0]))"
    using assms by (intro cstr_update) simp
  also have "take 271 ((drop 4 ?xs)[256 := 0]) = (take 271 (drop 4 ?xs))[256 := 0]"
    by (simp add: take_update_swap)
  also have "cstr \<dots> = cstr (take 256 (take 271 (drop 4 ?xs)))"
    using assms by (intro cstr_update) simp
  also have "take 256 (take 271 (drop 4 ?xs)) = take 256 (drop 4 plain)"
    using assms by simp
  finally show "cstr (drop 4 (?xs[260 := 0, 275 := 0])) = cstr (take 256 (drop 4 plain))" .
  have "drop 261 (?xs[260 := 0, 275 := 0]) = (drop 261 ?xs)[14 := 0]"
    by (simp add: drop_update_swap drop_update_cancel)
  also have "cstr \<dots> = cstr (take 14 (drop 261 ?xs))"
    using assms by (intro cstr_update) simp
  also have "take 14 (drop 261 ?xs) = take 14 (drop 261 plain)"
    using assms by simp
  finally show "cstr (drop 261 (?xs[260 := 0, 275 := 0])) = cstr (take 14 (drop 261 plain))" .
qed

lemma local_read_srv_512:
  assumes "state c = CLOSED" and "recv_r ev = Recv_data d" and "length d = 512"
    and "length (rx_buf c) = BUF_SIZE" and "length (tx_buf c) = BUF_SIZE"
    and "md5_ok p" and "cipher_ok p" and "srvs ! server_index c = server_setup P"
    and "k = spec_key p (drop 276 d) P"
    and "plain = fst (io_decrypt p (enc_init p k) (take 276 d))"
    and "e = snd (io_decrypt p (enc_init p k) (take 276 d))"
    and "rx = (plain @ drop 276 d @ drop 512 (rx_buf c))[260 := 0, 275 := 0]"
    and "tx = fst (server_key p (server_setup P) (d @ drop 512 (rx_buf c)) (tx_buf c))"
    and "h = cstr (take 256 (drop 4 plain))" and "q = cstr (take 14 (drop 261 plain))"
  shows "local_read_cb_srv p srvs ev c =
     (if ntohl_bytes plain \<noteq> MAGIC then Dead [Close_local, Free_conn]
      else if \<not> gai_new ev then Dead [Close_local, Free_conn]
      else if \<not> length q < GAI_PORT_SIZE then Overflow
      else if getaddrinfo_a_r ev \<noteq> 0 then Dead [Close_local, Free_conn]
      else Live (c\<lparr>w_local_read := False, rx_buf := rx, tx_buf := tx, enc_evp := e,
                   gai := \<lparr>gai_host = h, gai_port = q, gai_res = []\<rparr>\<rparr>)
             [Getaddrinfo_a h q])"
proof -
  let ?rx0 = "d @ drop 512 (rx_buf c)"
  have rb: "recv_buf (rx_buf c) (recv_r ev) = ?rx0"
    using assms(2,3) by (simp add: recv_buf_def write_at_def BUF_SIZE_def)
  have rr: "recv_ret (recv_r ev) = 512"
    using assms(2,3) by (simp add: recv_ret_512)
  have l0: "length ?rx0 = BUF_SIZE"
    using assms(3,4) by (simp add: BUF_SIZE_def)
  have iv: "take 236 (drop 276 ?rx0) = drop 276 d"
    using assms(3) by simp
  have liv: "length (drop 276 d) = 236"
    using assms(3) by simp
  have ks: "snd (server_key p (server_setup P) ?rx0 (tx_buf c)) = k"
    unfolding assms(9) using assms(6) l0 assms(5) iv liv by (rule server_key_spec)
  have sk: "server_key p (srvs ! server_index c) ?rx0 (tx_buf c) = (tx, k)"
    using ks by (simp add: assms(8,13) prod_eq_iff)
  have lk: "take 64 k = k"
    using spec_key_length [OF assms(6)] by (simp add: assms(9))
  have t276: "take 276 ?rx0 = take 276 d"
    using assms(3) by simp
  have lp: "length plain = 276"
    using assms(7,3) by (simp add: assms(10) cipher_ok_def)
  have db: "decrypt_buf p ?rx0 276 (enc_init p (take 64 k))
        = (plain @ drop 276 d @ drop 512 (rx_buf c), e)"
  proof -
    obtain out e' where io: "io_decrypt p (enc_init p k) (take 276 d) = (out, e')"
      by (cases "io_decrypt p (enc_init p k) (take 276 d)")
    then have "out = plain" "e' = e"
      by (simp_all add: assms(10,11))
    moreover have "write_at ?rx0 0 plain = plain @ drop 276 d @ drop 512 (rx_buf c)"
      using lp assms(3) by (simp add: write_at_def)
    ultimately show ?thesis
      unfolding decrypt_buf_def lk t276 by (simp add: io)
  qed
  have mg: "ntohl_bytes (plain @ drop 276 d @ drop 512 (rx_buf c)) = ntohl_bytes plain"
    using lp by (intro ntohl_bytes_append) simp
  have hq: "cstr (drop 4 rx) = h" "cstr (drop 261 rx) = q"
    unfolding assms(12,14,15) by (rule request_strings [OF lp])+
  have lh: "length h < GAI_HOST_SIZE"
    using cstr_length [of "take 256 (drop 4 plain)"]
    by (simp add: assms(14) GAI_HOST_SIZE_def)
  show ?thesis
    using assms(1) hq lh
    by (simp add: local_read_cb_srv_def local_read_CLOSED_srv_def Let_def rb rr sk db mg
        flip: assms(12))
qed



section \<open>Error paths\<close>

lemma local_read_greeting_reject:
  assumes "state c = CLOSED" and "recv_r ev = Recv_data d" and "d \<noteq> []"
    and "rx = recv_buf (bzero (rx_buf c) 257) (Recv_data d)" and "rx ! 0 \<noteq> 5"
  shows "local_read_cb p cf ev c =
     Live (c\<lparr>w_local_read := False, rx_buf := rx, tx_buf := (tx_buf c)[0 := 5, 1 := 0xff],
             tx_bytes := 2, state := NEGO_ERR, w_local_write := True\<rparr>) []"
  using assms
  by (simp add: local_read_cb_def local_read_CLOSED_def Let_def recv_ret_pos)

lemma local_write_nego_err:
  assumes "state c = NEGO_ERR" and "send_r ev = Send_n n" and "int n = tx_bytes c"
    and "timer_new ev"
  shows "local_write_cb ev c =
     Live (c\<lparr>w_local_write := False, state := CLOSE_WAIT\<rparr>)
       [Send_local (take n (tx_buf c)), Timer_start 1]"
  using assms
  by (auto simp add: local_write_cb_def local_write_NEGO_def Let_def close_wait_ok send_ret_def
      send_act_def)

lemma greeting_error_run:
  assumes "state c = CLOSED" and "w_local_read c" and "length (tx_buf c) = BUF_SIZE"
    and "recv_r ev1 = Recv_data d" and "d \<noteq> []" and "d ! 0 \<noteq> 5"
    and "send_r ev2 = Send_n 2" and "timer_new ev2"
  shows "run p cf [Local_read ev1, Local_write ev2, Timer] c [] =
           Some (Dead [Send_local [5, 0xff], Timer_start 1,
                       Timer_stop, Close_local, Free_timer, Free_conn])"
proof -
  define rx where "rx = recv_buf (bzero (rx_buf c) 257) (Recv_data d)"
  have r0: "rx ! 0 \<noteq> 5"
    unfolding rx_def using assms(5,6) by (simp add: recv_nth BUF_SIZE_def)
  define c1 where "c1 = c\<lparr>w_local_read := False, rx_buf := rx,
      tx_buf := (tx_buf c)[0 := 5, 1 := 0xff], tx_bytes := 2, state := NEGO_ERR,
      w_local_write := True\<rparr>"
  have s1: "local_read_cb p cf ev1 c = Live c1 []"
    unfolding c1_def using assms(1,4,5) rx_def r0 by (rule local_read_greeting_reject)
  have s2: "local_write_cb ev2 c1 =
      Live (c1\<lparr>w_local_write := False, state := CLOSE_WAIT\<rparr>)
        [Send_local (take 2 (tx_buf c1)), Timer_start 1]"
    by (rule local_write_nego_err) (simp_all add: c1_def assms)
  obtain a b rest where tx: "tx_buf c = a # b # rest"
    using assms(3) by (cases "tx_buf c"; cases "tl (tx_buf c)") (auto simp add: BUF_SIZE_def)
  have t: "take 2 (tx_buf c1) = [5, 0xff]"
    by (simp add: c1_def tx)
  have w1: "w_local_write c1"
    by (simp add: c1_def)
  show ?thesis
    using assms(2) s1 s2 w1 t by (simp add: closewait_dead)
qed

lemma request_error_run:
  assumes "state c = NEGO_SENT" and "w_local_read c" and "recv_r ev1 = Recv_data d"
    and "4 \<le> length d"
    and "d ! 0 \<noteq> 5 \<or> d ! 1 \<noteq> 1 \<or> (d ! 3 \<noteq> 1 \<and> d ! 3 \<noteq> 3 \<and> d ! 3 \<noteq> 4)"
    and "send_r ev2 = Send_n 10" and "timer_new ev2"
  shows "run p cf [Local_read ev1, Local_write ev2, Timer] c [] =
           Some (Dead [Send_local [5, (if d ! 3 \<noteq> 1 \<and> d ! 3 \<noteq> 3 \<and> d ! 3 \<noteq> 4 then 8
                                     else if d ! 1 \<noteq> 1 then 7 else 1), 0, 1, 0, 0, 0, 0, 0, 0],
                       Timer_start 1, Timer_stop, Close_local, Free_timer, Free_conn])"
proof -
  define rx where "rx = recv_buf (bzero (rx_buf c) 263) (Recv_data d)"
  have b: "rx ! 0 = d ! 0 \<and> rx ! 1 = d ! 1 \<and> rx ! 3 = d ! 3"
    using assms(4) rx_def by (rule request_bytes)
  have ne: "d \<noteq> []"
    using assms(4) by auto
  have err: "request_error rx \<noteq> 0"
    using assms(5) b by (auto simp add: request_error_cases)
  define c1 where "c1 = c\<lparr>w_local_read := False, rx_buf := rx,
      tx_buf := [5, (if request_error rx = 2 then 0x07 else if request_error rx = 3 then 0x08 else 0x01),
                 0, 1, 0, 0, 0, 0, 0, 0] @ drop 10 (tx_buf c),
      tx_bytes := 10, state := CMD_ERR, w_local_write := True\<rparr>"
  have s1: "local_read_cb p cf ev1 c = Live c1 []"
    unfolding c1_def using assms(1,3) ne rx_def err by (rule local_read_request_error)
  have s2: "local_write_cb ev2 c1 =
      Live (c1\<lparr>w_local_write := False, state := CLOSE_WAIT\<rparr>)
        [Send_local (take 10 (tx_buf c1)), Timer_start 1]"
    by (rule local_write_reply_linger) (simp_all add: c1_def assms)
  have w1: "w_local_write c1"
    by (simp add: c1_def)
  have t: "take 10 (tx_buf c1) = [5, (if d ! 3 \<noteq> 1 \<and> d ! 3 \<noteq> 3 \<and> d ! 3 \<noteq> 4 then 8
                                       else if d ! 1 \<noteq> 1 then 7 else 1), 0, 1, 0, 0, 0, 0, 0, 0]"
    using b by (simp add: c1_def request_error_cases)
  show ?thesis
    using assms(2) s1 s2 w1 t by (simp add: closewait_dead)
qed

lemma remote_read_reply:
  assumes "state c = REQ_SENT" and "recv_r ev = Recv_data d" and "length d = 4"
    and "cipher_ok p" and "length (rx_buf c) = BUF_SIZE"
    and "out = fst (io_decrypt p (enc_evp c) d)" and "e = snd (io_decrypt p (enc_evp c) d)"
  shows "remote_read_cb p ev c =
     Live (c\<lparr>w_remote_read := False, rx_buf := out @ drop 4 (rx_buf c), enc_evp := e,
             tx_buf := [5, (if ntohl_bytes out = MAGIC then 0 else 5), 0, 1, 0, 0, 0, 0, 0, 0]
                       @ drop 10 (tx_buf c),
             tx_bytes := 10, state := (if ntohl_bytes out = MAGIC then REP_RCVD else REQ_ERR),
             w_local_write := True\<rparr>) []"
proof -
  have rb: "recv_buf (rx_buf c) (recv_r ev) = d @ drop 4 (rx_buf c)"
    using assms(2,3) by (simp add: recv_buf_def write_at_def BUF_SIZE_def)
  have rr: "recv_ret (recv_r ev) = 4"
    using assms(2,3) by (simp add: recv_ret_def BUF_SIZE_def)
  have lo: "length out = 4"
    using assms(3,4) by (simp add: assms(6) cipher_ok_def)
  have db: "decrypt_buf p (d @ drop 4 (rx_buf c)) 4 (enc_evp c) = (out @ drop 4 (rx_buf c), e)"
  proof -
    obtain o' e' where io: "io_decrypt p (enc_evp c) d = (o', e')"
      by (cases "io_decrypt p (enc_evp c) d")
    then have "o' = out" "e' = e"
      by (simp_all add: assms(6,7))
    moreover have "write_at (d @ drop 4 (rx_buf c)) 0 out = out @ drop 4 (rx_buf c)"
      using lo assms(3) by (simp add: write_at_def)
    ultimately show ?thesis
      using assms(3) by (simp add: decrypt_buf_def io)
  qed
  have mg: "ntohl_bytes (out @ drop 4 (rx_buf c)) = ntohl_bytes out"
    using lo by (intro ntohl_bytes_append) simp
  show ?thesis
    using assms(1)
    by (simp add: remote_read_cb_def remote_read_REQ_SENT_def Let_def rb rr db mg bzero10)
qed

lemma reply_mismatch_run:
  assumes "cipher_ok p" and "state c = REQ_SENT" and "w_remote_read c"
    and "length (rx_buf c) = BUF_SIZE"
    and "recv_r ev1 = Recv_data d" and "length d = 4"
    and "ntohl_bytes (fst (io_decrypt p (enc_evp c) d)) \<noteq> MAGIC"
    and "send_r ev2 = Send_n 10" and "timer_new ev2"
  shows "run p cf [Remote_read ev1, Local_write ev2, Timer] c [] =
           Some (Dead [Send_local [5, 5, 0, 1, 0, 0, 0, 0, 0, 0], Timer_start 1,
                       Timer_stop, Close_local, Free_timer, Free_conn])"
proof -
  define out where "out = fst (io_decrypt p (enc_evp c) d)"
  define e where "e = snd (io_decrypt p (enc_evp c) d)"
  define c1 where "c1 = c\<lparr>w_remote_read := False, rx_buf := out @ drop 4 (rx_buf c), enc_evp := e,
             tx_buf := [5, (if ntohl_bytes out = MAGIC then 0 else 5), 0, 1, 0, 0, 0, 0, 0, 0]
                       @ drop 10 (tx_buf c),
             tx_bytes := 10, state := (if ntohl_bytes out = MAGIC then REP_RCVD else REQ_ERR),
             w_local_write := True\<rparr>"
  have s1: "remote_read_cb p ev1 c = Live c1 []"
    unfolding c1_def using assms(2,5,6,1,4) out_def e_def by (rule remote_read_reply)
  have mm: "ntohl_bytes out \<noteq> MAGIC"
    using assms(7) by (simp add: out_def)
  have s2: "local_write_cb ev2 c1 =
      Live (c1\<lparr>w_local_write := False, state := CLOSE_WAIT\<rparr>)
        [Send_local (take 10 (tx_buf c1)), Timer_start 1]"
    by (rule local_write_reply_linger) (simp_all add: c1_def assms mm)
  have w1: "w_local_write c1"
    by (simp add: c1_def)
  have t: "take 10 (tx_buf c1) = [5, 5, 0, 1, 0, 0, 0, 0, 0, 0]"
    by (simp add: c1_def mm)
  show ?thesis
    using assms(3) s1 s2 w1 t by (simp add: closewait_dead)
qed

lemma resolv_fail:
  assumes "gai_error_r ev \<noteq> 0" and "cipher_ok p" and "length (tx_buf c) = BUF_SIZE"
    and "out = fst (io_encrypt p (enc_evp c) [0, 0, 0, 0])"
    and "e = snd (io_encrypt p (enc_evp c) [0, 0, 0, 0])"
  shows "resolv_cb p ev c =
     Live (c\<lparr>tx_buf := out @ drop 4 (tx_buf c), tx_bytes := 4, enc_evp := e, state := REQ_ERR,
             w_local_write := True\<rparr>) [Free_gai]"
proof -
  have bz: "bzero (tx_buf c) 4 = 0 # 0 # 0 # 0 # drop 4 (tx_buf c)"
    by (simp add: bzero_def write_at_def numeral_eq_Suc)
  have lo: "length out = 4"
    using assms(2) by (simp add: assms(4) cipher_ok_def)
  have eb: "encrypt_buf p (0 # 0 # 0 # 0 # drop 4 (tx_buf c)) 4 (enc_evp c)
        = (out @ drop 4 (tx_buf c), e)"
  proof -
    obtain o' e' where io: "io_encrypt p (enc_evp c) [0, 0, 0, 0] = (o', e')"
      by (cases "io_encrypt p (enc_evp c) [0, 0, 0, 0]")
    then have "o' = out" "e' = e"
      by (simp_all add: assms(4,5))
    moreover have "write_at (0 # 0 # 0 # 0 # drop 4 (tx_buf c)) 0 out = out @ drop 4 (tx_buf c)"
      using lo by (simp add: write_at_def)
    ultimately show ?thesis
      by (simp add: encrypt_buf_def io)
  qed
  show ?thesis
    using assms(1) by (simp add: resolv_cb_def Let_def bz eb)
qed

lemma local_write_srv_err:
  assumes "state c = REQ_ERR" and "send_r ev = Send_n n" and "int n = tx_bytes c"
    and "timer_new ev"
  shows "local_write_cb_srv ev c =
     Live (c\<lparr>w_local_write := False, state := CLOSE_WAIT\<rparr>)
       [Send_local (take n (tx_buf c)), Timer_start 1]"
  using assms
  by (auto simp add: local_write_cb_srv_def local_write_REPLY_srv_def close_wait_srv_def Let_def
      send_ret_def send_act_def)

lemma dns_failure_chain:
  assumes "cipher_ok p" and "length (tx_buf c) = BUF_SIZE" and "gai_error_r ev1 \<noteq> 0"
    and "send_r ev2 = Send_n 4" and "timer_new ev2"
  shows "\<exists>c1 c2. resolv_cb p ev1 c = Live c1 [Free_gai]
       \<and> local_write_cb_srv ev2 c1 =
           Live c2 [Send_local (fst (io_encrypt p (enc_evp c) [0, 0, 0, 0])), Timer_start 1]
       \<and> closewait_cb_srv c2 = Dead [Timer_stop, Close_local, Free_timer, Free_conn]"
proof -
  define out where "out = fst (io_encrypt p (enc_evp c) [0, 0, 0, 0])"
  define e where "e = snd (io_encrypt p (enc_evp c) [0, 0, 0, 0])"
  define c1 where "c1 = c\<lparr>tx_buf := out @ drop 4 (tx_buf c), tx_bytes := 4, enc_evp := e,
      state := REQ_ERR, w_local_write := True\<rparr>"
  define c2 where "c2 = c1\<lparr>w_local_write := False, state := CLOSE_WAIT\<rparr>"
  have lo: "length out = 4"
    using assms(1) by (simp add: out_def cipher_ok_def)
  have s1: "resolv_cb p ev1 c = Live c1 [Free_gai]"
    unfolding c1_def using assms(3,1,2) out_def e_def by (rule resolv_fail)
  have s2: "local_write_cb_srv ev2 c1 = Live c2 [Send_local (take 4 (tx_buf c1)), Timer_start 1]"
    unfolding c2_def by (rule local_write_srv_err) (simp_all add: c1_def assms)
  have t: "take 4 (tx_buf c1) = out"
    using lo by (simp add: c1_def)
  have s3: "closewait_cb_srv c2 = Dead [Timer_stop, Close_local, Free_timer, Free_conn]"
    by (simp add: closewait_cb_srv_def c2_def)
  show ?thesis
    using s1 s2 s3 t by (auto simp add: out_def)
qed

lemma server_magic_mismatch:
  assumes "md5_ok p" and "cipher_ok p" and "state c = CLOSED"
    and "length (rx_buf c) = BUF_SIZE" and "length (tx_buf c) = BUF_SIZE"
    and "srvs ! server_index c = server_setup P"
    and "recv_r ev = Recv_data d" and "length d = 512"
    and "ntohl_bytes (fst (io_decrypt p (enc_init p (spec_key p (drop 276 d) P)) (take 276 d)))
         \<noteq> MAGIC"
  shows "local_read_cb_srv p srvs ev c = Dead [Close_local, Free_conn]"
  using local_read_srv_512 [OF assms(3,7,8,4,5,1,2,6) refl refl refl refl refl refl refl] assms(9)
  by simp



section \<open>Watchers and buffers during the relay\<close>

lemma accept_ok: "watchers_ok (accept_cb fd blank)"
  by (simp add: watchers_ok_def accept_cb_def only_def)

lemma local_read_cb_ok:
  assumes "watchers_ok c" and "w_local_read c" and "local_read_cb p cf ev c = Live c' a"
  shows "watchers_ok c'"
proof (cases "state c")
  case CLOSED
  with assms show ?thesis
    by (auto simp add: local_read_cb_def local_read_CLOSED_def Let_def watchers_ok_def only_def
        split: if_splits)
next
  case NEGO_SENT
  with assms show ?thesis
    by (auto simp add: local_read_cb_def local_read_NEGO_SENT_def Let_def watchers_ok_def only_def
        split: if_splits prod.splits)
next
  case ESTAB
  with assms show ?thesis
    by (auto simp add: local_read_cb_def local_read_ESTAB_def Let_def watchers_ok_def
        interlock_def split: if_splits prod.splits)
qed (use assms in \<open>simp_all add: local_read_cb_def\<close>)

lemma local_write_cb_ok:
  assumes "watchers_ok c" and "w_local_write c" and "local_write_cb ev c = Live c' a"
  shows "watchers_ok c'"
proof (cases "state c")
  case ESTAB
  with assms show ?thesis
    by (auto simp add: local_write_cb_def local_write_ESTAB_def Let_def watchers_ok_def
        interlock_def split: if_splits)
qed (use assms in \<open>auto simp add: local_write_cb_def local_write_NEGO_def local_write_REPLY_def
      close_wait_def Let_def watchers_ok_def only_def interlock_def split: if_splits\<close>)

lemma remote_read_cb_ok:
  assumes "watchers_ok c" and "w_remote_read c" and "remote_read_cb p ev c = Live c' a"
  shows "watchers_ok c'"
proof (cases "state c")
  case REQ_SENT
  with assms show ?thesis
    by (auto simp add: remote_read_cb_def remote_read_REQ_SENT_def Let_def watchers_ok_def only_def
        split: if_splits prod.splits)
next
  case ESTAB
  with assms show ?thesis
    by (auto simp add: remote_read_cb_def remote_read_ESTAB_def Let_def watchers_ok_def
        interlock_def split: if_splits prod.splits)
qed (use assms in \<open>simp_all add: remote_read_cb_def\<close>)

lemma remote_write_cb_ok:
  assumes "watchers_ok c" and "w_remote_write c" and "remote_write_cb ev c = Live c' a"
  shows "watchers_ok c'"
proof (cases "state c")
  case CONNECTED
  with assms show ?thesis
    by (auto simp add: remote_write_cb_def remote_write_CONNECTED_def Let_def watchers_ok_def
        only_def split: if_splits)
next
  case ESTAB
  with assms show ?thesis
    by (auto simp add: remote_write_cb_def remote_write_ESTAB_def Let_def watchers_ok_def
        interlock_def split: if_splits)
qed (use assms in \<open>simp_all add: remote_write_cb_def\<close>)

lemma connect_cb_ok':
  assumes "watchers_ok c" and "w_remote_write c" and "connect_cb ev c = Live c' a"
  shows "watchers_ok c'"
  using assms
  by (auto simp add: connect_cb_def Let_def watchers_ok_def only_def split: if_splits)

lemma fire_ok:
  assumes "watchers_ok c" and "fire p cf e c = Some (Live c' a)"
  shows "watchers_ok c'"
proof (cases e)
  case (Local_read ev)
  with assms show ?thesis
    by (auto split: if_splits intro: local_read_cb_ok)
next
  case (Local_write ev)
  with assms show ?thesis
    by (auto split: if_splits intro: local_write_cb_ok)
next
  case (Remote_read ev)
  with assms show ?thesis
    by (auto split: if_splits intro: remote_read_cb_ok)
next
  case (Remote_write ev)
  with assms show ?thesis
    by (auto split: if_splits callback.splits intro: remote_write_cb_ok connect_cb_ok')
next
  case Timer
  with assms show ?thesis
    by (auto simp add: closewait_cb_def split: if_splits)
qed

lemma reachable_watchers_ok: "reachable p cf c \<Longrightarrow> watchers_ok c"
  by (induction rule: reachable.induct) (auto intro: accept_ok fire_ok)


lemma run_reachable:
  "reachable p cf c \<Longrightarrow> run p cf es c acts = Some (Live c' acts') \<Longrightarrow> reachable p cf c'"
proof (induction es arbitrary: c acts)
  case Nil
  then show ?case by simp
next
  case (Cons e es)
  then show ?case
    by (auto split: option.splits result.splits if_splits intro: reachable.fired)
qed

lemma replicate_update0: "0 < n \<Longrightarrow> (replicate n x)[0 := y] = y # replicate (n - 1) x"
  by (cases n) simp_all

lemmas eval_defs =
  sample_conn_def sample_env_def sample_conf_def sample_prims_def accept_cb_def
  client_defs Let_def scan_methods.simps request_error_def request_host_def request_port_def
  inet_ntop4_def dec.simps ntohs_at_def select_server_def client_key_def rand_bytes_def
  server_setup_def derive_key_def build_request_def request_plain_def encrypt_buf_def
  decrypt_buf_def strcpy_def cstr_def htonl_bytes_def ntohl_bytes_def MAGIC_def
  replicate_10 nth_append replicate_update0

lemma sample_run_relay:
  "\<exists>c' frame. run sample_prims sample_conf
     [Local_read (sample_env\<lparr>recv_r := Recv_data [5, 1, 0]\<rparr>),
      Local_write (sample_env\<lparr>send_r := Send_n 2\<rparr>),
      Local_read (sample_env\<lparr>recv_r := Recv_data [5, 1, 0, 1, 1, 2, 3, 4, 0, 80]\<rparr>),
      Remote_write sample_env,
      Remote_write (sample_env\<lparr>send_r := Send_n 512\<rparr>),
      Remote_read (sample_env\<lparr>recv_r := Recv_data [65, 94, 93, 80]\<rparr>),
      Local_write (sample_env\<lparr>send_r := Send_n 10\<rparr>)]
     (accept_cb 3 sample_conn) [] = Some (Live c' [Send_local [5, 0], Connect_server 0,
        Send_remote frame, Send_local [5, 0, 0, 1, 0, 0, 0, 0, 0, 0]])
    \<and> state c' = ESTAB \<and> w_local_read c' \<and> w_remote_read c'
    \<and> (\<exists>c'' a. fire sample_prims sample_conf
          (Local_read (sample_env\<lparr>recv_r := Recv_data (replicate 8192 1), send_r := Send_n 100\<rparr>)) c'
          = Some (Live c'' a) \<and> tx_bytes c'' = 8092)
    \<and> (\<exists>c'' a. fire sample_prims sample_conf
          (Remote_read (sample_env\<lparr>recv_r := Recv_data [1, 2, 3], send_r := Send_fail EAGAIN\<rparr>)) c'
          = Some (Live c'' a) \<and> rx_bytes c'' = 3)"
  by (simp add: eval_defs)

lemma relay_run_stale_offset:
  "\<exists>c' frame. run sample_prims sample_conf
     [Local_read (sample_env\<lparr>recv_r := Recv_data [5, 1, 0]\<rparr>),
      Local_write (sample_env\<lparr>send_r := Send_n 2\<rparr>),
      Local_read (sample_env\<lparr>recv_r := Recv_data [5, 1, 0, 1, 1, 2, 3, 4, 0, 80]\<rparr>),
      Remote_write sample_env,
      Remote_write (sample_env\<lparr>send_r := Send_n 512\<rparr>),
      Remote_read (sample_env\<lparr>recv_r := Recv_data [65, 94, 93, 80]\<rparr>),
      Local_write (sample_env\<lparr>send_r := Send_n 10\<rparr>),
      Local_read (sample_env\<lparr>recv_r := Recv_data (replicate 8192 1), send_r := Send_n 100\<rparr>),
      Remote_write (sample_env\<lparr>send_r := Send_n 8092\<rparr>),
      Local_read (sample_env\<lparr>recv_r := Recv_data (replicate 8192 1), send_r := Send_n 8192\<rparr>)]
     (accept_cb 3 sample_conn) [] = Some (Live c' [Send_local [5, 0], Connect_server 0,
        Send_remote frame, Send_local [5, 0, 0, 1, 0, 0, 0, 0, 0, 0],
        Send_remote (replicate 100 240), Send_remote (replicate 8092 240),
        Send_remote (replicate 8192 240)])
    \<and> state c' = ESTAB \<and> tx_bytes c' = 8192 \<and> tx_offset c' = 100"
  by (simp add: eval_defs)


lemma local_read_estab:
  assumes "state c = ESTAB" and "interlock c" and "w_local_read c"
    and "local_read_cb p cf ev c = Live c' a"
  shows "state c' = ESTAB \<and> interlock c' \<and> rx_pipe c' = rx_pipe c
       \<and> tx_pipe c' = (case send_r ev of
                          Send_n n \<Rightarrow> if recv_ret (recv_r ev) \<le> int n then (True, False)
                                      else (False, True)
                        | Send_fail x \<Rightarrow> (False, True))"
  using assms
  by (auto simp add: local_read_cb_def local_read_ESTAB_def Let_def interlock_def tx_pipe_def
      rx_pipe_def send_ret_def split: if_splits prod.splits send_res.splits)

lemma remote_read_estab:
  assumes "state c = ESTAB" and "interlock c" and "w_remote_read c"
    and "remote_read_cb p ev c = Live c' a"
  shows "state c' = ESTAB \<and> interlock c' \<and> tx_pipe c' = tx_pipe c
       \<and> rx_pipe c' = (case send_r ev of
                          Send_n n \<Rightarrow> if recv_ret (recv_r ev) \<le> int n then (True, False)
                                      else (False, True)
                        | Send_fail x \<Rightarrow> (False, True))"
  using assms
  by (auto simp add: remote_read_cb_def remote_read_ESTAB_def Let_def interlock_def tx_pipe_def
      rx_pipe_def send_ret_def split: if_splits prod.splits send_res.splits)

lemma remote_write_estab:
  assumes "state c = ESTAB" and "interlock c" and "w_remote_write c"
    and "remote_write_cb ev c = Live c' a"
  shows "state c' = ESTAB \<and> interlock c' \<and> rx_pipe c' = rx_pipe c
       \<and> tx_pipe c' = (case send_r ev of
                          Send_n n \<Rightarrow> if tx_bytes c \<le> int n then (True, False) else (False, True)
                        | Send_fail x \<Rightarrow> (False, True))"
  using assms
  by (auto simp add: remote_write_cb_def remote_write_ESTAB_def Let_def interlock_def tx_pipe_def
      rx_pipe_def send_ret_def split: if_splits send_res.splits)

lemma local_write_estab:
  assumes "state c = ESTAB" and "interlock c" and "w_local_write c"
    and "local_write_cb ev c = Live c' a"
  shows "state c' = ESTAB \<and> interlock c' \<and> tx_pipe c' = tx_pipe c
       \<and> rx_pipe c' = (case send_r ev of
                          Send_n n \<Rightarrow> if rx_bytes c \<le> int n then (True, False) else (False, True)
                        | Send_fail x \<Rightarrow> (False, True))"
  using assms
  by (auto simp add: local_write_cb_def local_write_ESTAB_def Let_def interlock_def tx_pipe_def
      rx_pipe_def send_ret_def split: if_splits send_res.splits)

lemma fire_estab:
  assumes "state c = ESTAB" and "interlock c" and "fire p cf e c = Some (Live c' a)"
  shows "state c' = ESTAB \<and> interlock c'"
proof (cases e)
  case (Local_read ev)
  with assms show ?thesis
    using local_read_estab [of c p cf ev c' a] by (auto split: if_splits)
next
  case (Local_write ev)
  with assms show ?thesis
    using local_write_estab [of c ev c' a] by (auto split: if_splits)
next
  case (Remote_read ev)
  with assms show ?thesis
    using remote_read_estab [of c p ev c' a] by (auto split: if_splits)
next
  case (Remote_write ev)
  with assms show ?thesis
    using remote_write_estab [of c ev c' a]
    by (auto simp add: connect_cb_def split: if_splits callback.splits)
next
  case Timer
  with assms show ?thesis
    by simp
qed


text \<open>In \<^verbatim>\<open>ESTAB\<close> a callback whose \<^verbatim>\<open>recv\<close> returns data, or whose buffer holds unsent
  bytes, leaves the connection alive unless \<^verbatim>\<open>send\<close> fails with an error other than
  \<^verbatim>\<open>EAGAIN\<close>.\<close>

lemma recv_ret_gt0: "d \<noteq> [] \<Longrightarrow> 0 < recv_ret (Recv_data d)"
  by (simp add: recv_ret_def BUF_SIZE_def)

lemma local_read_live:
  assumes "state c = ESTAB" and "recv_r ev = Recv_data d" and "d \<noteq> []"
    and "send_r ev \<noteq> Send_fail EOTHER"
  shows "\<exists>c' a. local_read_cb p cf ev c = Live c' a"
proof (cases "send_r ev")
  case (Send_fail x)
  with assms(4) have "send_r ev = Send_fail EAGAIN"
    by (cases x) simp_all
  then show ?thesis
    using assms(1,2) recv_ret_gt0 [OF assms(3)]
    by (simp add: local_read_cb_def local_read_ESTAB_def Let_def send_ret_def split: prod.splits)
next
  case (Send_n n)
  then show ?thesis
    using assms(1,2) recv_ret_gt0 [OF assms(3)]
    by (simp add: local_read_cb_def local_read_ESTAB_def Let_def send_ret_def split: prod.splits)
qed

lemma remote_read_live:
  assumes "state c = ESTAB" and "recv_r ev = Recv_data d" and "d \<noteq> []"
    and "send_r ev \<noteq> Send_fail EOTHER"
  shows "\<exists>c' a. remote_read_cb p ev c = Live c' a"
proof (cases "send_r ev")
  case (Send_fail x)
  with assms(4) have "send_r ev = Send_fail EAGAIN"
    by (cases x) simp_all
  then show ?thesis
    using assms(1,2) recv_ret_gt0 [OF assms(3)]
    by (simp add: remote_read_cb_def remote_read_ESTAB_def Let_def send_ret_def split: prod.splits)
next
  case (Send_n n)
  then show ?thesis
    using assms(1,2) recv_ret_gt0 [OF assms(3)]
    by (simp add: remote_read_cb_def remote_read_ESTAB_def Let_def send_ret_def split: prod.splits)
qed

lemma remote_write_live:
  assumes "state c = ESTAB" and "0 < tx_bytes c" and "send_r ev \<noteq> Send_fail EOTHER"
  shows "\<exists>c' a. remote_write_cb ev c = Live c' a"
proof (cases "send_r ev")
  case (Send_fail x)
  with assms(3) have "send_r ev = Send_fail EAGAIN"
    by (cases x) simp_all
  then show ?thesis
    using assms(1,2)
    by (simp add: remote_write_cb_def remote_write_ESTAB_def Let_def send_ret_def)
next
  case (Send_n n)
  then show ?thesis
    using assms(1,2)
    by (simp add: remote_write_cb_def remote_write_ESTAB_def Let_def send_ret_def)
qed

lemma local_write_live:
  assumes "state c = ESTAB" and "0 < rx_bytes c" and "send_r ev \<noteq> Send_fail EOTHER"
  shows "\<exists>c' a. local_write_cb ev c = Live c' a"
proof (cases "send_r ev")
  case (Send_fail x)
  with assms(3) have "send_r ev = Send_fail EAGAIN"
    by (cases x) simp_all
  then show ?thesis
    using assms(1,2)
    by (simp add: local_write_cb_def local_write_ESTAB_def Let_def send_ret_def)
next
  case (Send_n n)
  then show ?thesis
    using assms(1,2)
    by (simp add: local_write_cb_def local_write_ESTAB_def Let_def send_ret_def)
qed

text \<open>A writer that is started in \<^verbatim>\<open>ESTAB\<close> has something to send.\<close>

lemma local_read_pending:
  assumes "watchers_ok c" and "state c = ESTAB \<longrightarrow>
           (w_local_write c \<longrightarrow> 0 < rx_bytes c) \<and> (w_remote_write c \<longrightarrow> 0 < tx_bytes c)"
    and "w_local_read c" and "local_read_cb p cf ev c = Live c' a" and "state c' = ESTAB"
  shows "(w_local_write c' \<longrightarrow> 0 < rx_bytes c') \<and> (w_remote_write c' \<longrightarrow> 0 < tx_bytes c')"
proof (cases "state c")
  case CLOSED
  with assms show ?thesis
    by (auto simp add: local_read_cb_def local_read_CLOSED_def Let_def split: if_splits)
next
  case NEGO_SENT
  with assms show ?thesis
    by (auto simp add: local_read_cb_def local_read_NEGO_SENT_def Let_def
        split: if_splits prod.splits)
next
  case ESTAB
  with assms show ?thesis
    by (auto simp add: local_read_cb_def local_read_ESTAB_def Let_def watchers_ok_def
        interlock_def send_ret_def split: if_splits prod.splits send_res.splits)
qed (use assms in \<open>simp_all add: local_read_cb_def\<close>)

lemma remote_read_pending:
  assumes "watchers_ok c" and "state c = ESTAB \<longrightarrow>
           (w_local_write c \<longrightarrow> 0 < rx_bytes c) \<and> (w_remote_write c \<longrightarrow> 0 < tx_bytes c)"
    and "w_remote_read c" and "remote_read_cb p ev c = Live c' a" and "state c' = ESTAB"
  shows "(w_local_write c' \<longrightarrow> 0 < rx_bytes c') \<and> (w_remote_write c' \<longrightarrow> 0 < tx_bytes c')"
proof (cases "state c")
  case REQ_SENT
  with assms show ?thesis
    by (auto simp add: remote_read_cb_def remote_read_REQ_SENT_def Let_def
        split: if_splits prod.splits)
next
  case ESTAB
  with assms show ?thesis
    by (auto simp add: remote_read_cb_def remote_read_ESTAB_def Let_def watchers_ok_def
        interlock_def send_ret_def split: if_splits prod.splits send_res.splits)
qed (use assms in \<open>simp_all add: remote_read_cb_def\<close>)

lemma remote_write_pending:
  assumes "watchers_ok c" and "state c = ESTAB \<longrightarrow>
           (w_local_write c \<longrightarrow> 0 < rx_bytes c) \<and> (w_remote_write c \<longrightarrow> 0 < tx_bytes c)"
    and "w_remote_write c" and "remote_write_cb ev c = Live c' a" and "state c' = ESTAB"
  shows "(w_local_write c' \<longrightarrow> 0 < rx_bytes c') \<and> (w_remote_write c' \<longrightarrow> 0 < tx_bytes c')"
proof (cases "state c")
  case CONNECTED
  with assms show ?thesis
    by (auto simp add: remote_write_cb_def remote_write_CONNECTED_def Let_def split: if_splits)
next
  case ESTAB
  with assms show ?thesis
    by (auto simp add: remote_write_cb_def remote_write_ESTAB_def Let_def watchers_ok_def
        interlock_def send_ret_def split: if_splits send_res.splits)
qed (use assms in \<open>simp_all add: remote_write_cb_def\<close>)

lemma local_write_pending:
  assumes "watchers_ok c" and "state c = ESTAB \<longrightarrow>
           (w_local_write c \<longrightarrow> 0 < rx_bytes c) \<and> (w_remote_write c \<longrightarrow> 0 < tx_bytes c)"
    and "w_local_write c" and "local_write_cb ev c = Live c' a" and "state c' = ESTAB"
  shows "(w_local_write c' \<longrightarrow> 0 < rx_bytes c') \<and> (w_remote_write c' \<longrightarrow> 0 < tx_bytes c')"
proof (cases "state c")
  case ESTAB
  with assms show ?thesis
    by (auto simp add: local_write_cb_def local_write_ESTAB_def Let_def watchers_ok_def
        interlock_def send_ret_def split: if_splits send_res.splits)
qed (use assms in \<open>auto simp add: local_write_cb_def local_write_NEGO_def local_write_REPLY_def
      close_wait_def Let_def watchers_ok_def only_def split: if_splits\<close>)

lemma fire_pending:
  assumes "watchers_ok c" and "state c = ESTAB \<longrightarrow>
           (w_local_write c \<longrightarrow> 0 < rx_bytes c) \<and> (w_remote_write c \<longrightarrow> 0 < tx_bytes c)"
    and "fire p cf e c = Some (Live c' a)" and "state c' = ESTAB"
  shows "(w_local_write c' \<longrightarrow> 0 < rx_bytes c') \<and> (w_remote_write c' \<longrightarrow> 0 < tx_bytes c')"
proof (cases e)
  case (Local_read ev)
  with assms show ?thesis
    using local_read_pending [of c p cf ev c' a] by (auto split: if_splits)
next
  case (Local_write ev)
  with assms show ?thesis
    using local_write_pending [of c ev c' a] by (auto split: if_splits)
next
  case (Remote_read ev)
  with assms show ?thesis
    using remote_read_pending [of c p ev c' a] by (auto split: if_splits)
next
  case (Remote_write ev)
  with assms show ?thesis
    using remote_write_pending [of c ev c' a]
    by (auto simp add: connect_cb_def Let_def split: if_splits callback.splits)
next
  case Timer
  with assms show ?thesis
    by (auto simp add: closewait_cb_def split: if_splits)
qed

lemma reachable_pending:
  "reachable p cf c \<Longrightarrow>
     state c = ESTAB \<longrightarrow>
       (w_local_write c \<longrightarrow> 0 < rx_bytes c) \<and> (w_remote_write c \<longrightarrow> 0 < tx_bytes c)"
proof (induction rule: reachable.induct)
  case (accepted fd blank)
  show ?case
    by (simp add: accept_cb_def)
next
  case (fired c e c' a)
  show ?case
    using fire_pending [OF reachable_watchers_ok [OF fired(1)] fired(3) fired(2)] by blast
qed


lemma recv_ret_le: "recv_ret r \<le> int BUF_SIZE"
  by (cases r) (simp_all add: recv_ret_def)

lemma local_read_bounds:
  assumes "state c = ESTAB" and "interlock c" and "pending_bounds c" and "w_local_read c"
    and "local_read_cb p cf ev c = Live c' a"
  shows "pending_bounds c'
       \<and> (\<forall>n. send_r ev = Send_n n \<and> int n < recv_ret (recv_r ev) \<longrightarrow>
             tx_offset c' = int n \<and> tx_bytes c' = recv_ret (recv_r ev) - int n)
       \<and> (send_r ev = Send_fail EAGAIN \<longrightarrow>
             tx_offset c' = 0 \<and> tx_bytes c' = recv_ret (recv_r ev))
       \<and> (\<forall>n. send_r ev = Send_n n \<and> recv_ret (recv_r ev) \<le> int n \<longrightarrow>
             tx_offset c' = tx_offset c \<and> tx_bytes c' = recv_ret (recv_r ev))"
  using assms recv_ret_le [of "recv_r ev"]
  by (auto simp add: local_read_cb_def local_read_ESTAB_def Let_def interlock_def
      pending_bounds_def send_ret_def split: if_splits prod.splits send_res.splits)

lemma remote_read_bounds:
  assumes "state c = ESTAB" and "interlock c" and "pending_bounds c" and "w_remote_read c"
    and "remote_read_cb p ev c = Live c' a"
  shows "pending_bounds c'
       \<and> (\<forall>n. send_r ev = Send_n n \<and> int n < recv_ret (recv_r ev) \<longrightarrow>
             rx_offset c' = int n \<and> rx_bytes c' = recv_ret (recv_r ev) - int n)
       \<and> (send_r ev = Send_fail EAGAIN \<longrightarrow>
             rx_offset c' = 0 \<and> rx_bytes c' = recv_ret (recv_r ev))
       \<and> (\<forall>n. send_r ev = Send_n n \<and> recv_ret (recv_r ev) \<le> int n \<longrightarrow>
             rx_offset c' = rx_offset c \<and> rx_bytes c' = recv_ret (recv_r ev))"
  using assms recv_ret_le [of "recv_r ev"]
  by (auto simp add: remote_read_cb_def remote_read_ESTAB_def Let_def interlock_def
      pending_bounds_def send_ret_def split: if_splits prod.splits send_res.splits)

lemma remote_write_bounds:
  assumes "state c = ESTAB" and "interlock c" and "pending_bounds c" and "w_remote_write c"
    and "remote_write_cb ev c = Live c' a"
  shows "pending_bounds c'
       \<and> (\<forall>n. send_r ev = Send_n n \<and> int n < tx_bytes c \<longrightarrow>
             tx_offset c' = tx_offset c + int n \<and> tx_bytes c' = tx_bytes c - int n)"
  using assms
  by (auto simp add: remote_write_cb_def remote_write_ESTAB_def Let_def interlock_def
      pending_bounds_def send_ret_def split: if_splits send_res.splits)

lemma local_write_bounds:
  assumes "state c = ESTAB" and "interlock c" and "pending_bounds c" and "w_local_write c"
    and "local_write_cb ev c = Live c' a"
  shows "pending_bounds c'
       \<and> (\<forall>n. send_r ev = Send_n n \<and> int n < rx_bytes c \<longrightarrow>
             rx_offset c' = rx_offset c + int n \<and> rx_bytes c' = rx_bytes c - int n)"
  using assms
  by (auto simp add: local_write_cb_def local_write_ESTAB_def Let_def interlock_def
      pending_bounds_def send_ret_def split: if_splits send_res.splits)


section \<open>The properties of the specification\<close>

text \<open>
  C1.  Key derivation is a function of the IV and the pre-shared key alone, and both ends
  compute the same 64 bytes: for a 236-byte IV \<open>R\<close> and a configured key \<open>P\<close>, the key the
  client derives after drawing \<open>R\<close>, and the key the server derives from any received frame
  whose bytes 276..511 are \<open>R\<close>, both equal the chain of the specification,
  \<open>MD5(R || P)\<close> followed by the digests of the growing key prefix, with \<open>P\<close> cut to 256
  bytes.
\<close>

theorem key_derivation_agrees:
  assumes "md5_ok p" and "length R = 236"
    and "length crx = BUF_SIZE" and "length srx = BUF_SIZE" and "length stx = BUF_SIZE"
    and "take 236 (drop 276 srx) = R"
  shows "snd (client_key p (server_setup P) crx R) = spec_key p R P
       \<and> snd (server_key p (server_setup P) srx stx) = spec_key p R P
       \<and> length (spec_key p R P) = 64"
  using assms
  by (simp add: client_key_spec server_key_spec [where R = R] spec_key_length)

theorem key_derivation_agrees_witness:
  "md5_ok sample_prims \<and> length (replicate 236 (7::byte)) = 236
   \<and> length (replicate 8192 (0::byte)) = BUF_SIZE
   \<and> length (replicate 276 (1::byte) @ replicate 236 7 @ replicate 7680 0) = BUF_SIZE
   \<and> take 236 (drop 276 (replicate 276 (1::byte) @ replicate 236 7 @ replicate 7680 0))
       = replicate 236 7
   \<and> snd (client_key sample_prims (server_setup [1, 2, 3]) (replicate 8192 0) (replicate 236 7))
       = spec_key sample_prims (replicate 236 7) [1, 2, 3]
   \<and> snd (server_key sample_prims (server_setup [1, 2, 3])
            (replicate 276 1 @ replicate 236 7 @ replicate 7680 0) (replicate 8192 0))
       = spec_key sample_prims (replicate 236 7) [1, 2, 3]
   \<and> length (spec_key sample_prims (replicate 236 7) [1, 2, 3]) = 64"
  using key_derivation_agrees [of sample_prims "replicate 236 7" "replicate 8192 0"
      "replicate 276 1 @ replicate 236 7 @ replicate 7680 0" "replicate 8192 0" "[1, 2, 3]"]
  by (simp add: md5_ok_sample BUF_SIZE_def)

text \<open>
  C2.  For a SOCKS5 request that passes the three checks, the client lays out the inner
  request as the four magic bytes \<^verbatim>\<open>52 6f 6e 61\<close>, the host string padded with NULs to 257
  bytes, the decimal port string padded with NULs to 15 bytes, and the 236 bytes of the
  IV; it encrypts exactly the first 276 bytes with the cipher initialised with the key
  derived from the IV and the chosen server's key, and after the connect succeeds it
  sends these 276 encrypted bytes followed by the IV in the clear, 512 bytes in all.
\<close>

theorem inner_request_layout:
  assumes "state c = NEGO_SENT" and "w_local_read c"
    and "length (rx_buf c) = BUF_SIZE" and "length (tx_buf c) = BUF_SIZE"
    and "md5_ok p" and "cipher_ok p" and "\<forall>a. length (inet_ntop6 p a) \<le> 45"
    and "servers cf = map server_setup keys" and "server_num cf = int (length keys)"
    and "keys \<noteq> []" and "length keys < 2 ^ 31"
    and "recv_r ev1 = Recv_data d" and "d \<noteq> []"
    and "rx = recv_buf (bzero (rx_buf c) 263) (Recv_data d)"
    and "rx ! 0 = 5" and "rx ! 1 = 1" and "rx ! 3 = 1 \<or> rx ! 3 = 3 \<or> rx ! 3 = 4"
    and "length (rnd_iv ev1) = 236" and "0 \<le> socket_r ev1"
    and "so_error ev2 = 0" and "send_r ev3 = Send_n 512"
    and "host = cstr (request_host p rx)" and "port = cstr (request_port rx)"
    and "idx = unat (select_server (rnd_index ev1) (server_num cf))"
    and "plain = [0x52, 0x6f, 0x6e, 0x61] @ host @ replicate (257 - length host) 0
                 @ port @ replicate (15 - length port) 0"
    and "k = spec_key p (rnd_iv ev1) (keys ! idx)"
  shows "length host \<le> 256 \<and> length port \<le> 14 \<and> 0 \<notin> set host \<and> 0 \<notin> set port
       \<and> length plain = 276 \<and> idx < length keys
       \<and> (\<exists>c'. run p cf [Local_read ev1, Remote_write ev2, Remote_write ev3] c [] =
                 Some (Live c' [Connect_server idx,
                                Send_remote (fst (io_encrypt p (enc_init p k) plain) @ rnd_iv ev1)])
               \<and> state c' = REQ_SENT
               \<and> enc_evp c' = snd (io_encrypt p (enc_init p k) plain))"
proof -
  let ?R = "rnd_iv ev1"
  have lh: "length (cstr (request_host p rx)) \<le> 256"
    using assms(7) by (rule request_host_length)
  have lp: "length (cstr (request_port rx)) \<le> 14"
    by (rule request_port_length)
  have n: "0 < length keys" "length keys < 2 ^ 32"
    using assms(10,11) by simp_all
  have idx: "idx < length keys"
    using n by (simp add: assms(24,9) select_server_unat)
  have srv: "servers cf ! idx = server_setup (keys ! idx)"
    using idx by (simp add: assms(8))
  have err: "request_error rx = 0"
    using assms(15,16,17) by (auto simp add: request_error_def Let_def)
  define rx1 where "rx1 = fst (client_key p (server_setup (keys ! idx)) rx ?R)"
  have lrx: "length rx = BUF_SIZE"
    using assms(3) by (simp add: assms(14) recv_buf_def bzero_def write_at_def BUF_SIZE_def)
  have l1: "length rx1 = BUF_SIZE" and t1: "take 236 rx1 = ?R"
    unfolding rx1_def using assms(18) lrx by (rule client_key_buf)+
  have ks: "snd (client_key p (server_setup (keys ! idx)) rx ?R) = k"
    unfolding assms(26) using assms(5,18) lrx by (rule client_key_spec)
  have lk: "take 64 k = k"
    using spec_key_length [OF assms(5)] by (simp add: assms(26))
  have ck: "client_key p (servers cf ! idx) rx ?R = (rx1, k)"
    unfolding srv rx1_def using ks by (simp add: prod_eq_iff)
  have pl: "plain = htonl_bytes MAGIC @ cstr (request_host p rx)
        @ replicate (257 - length (cstr (request_host p rx))) 0
        @ cstr (request_port rx) @ replicate (15 - length (cstr (request_port rx))) 0"
    by (simp add: assms(25,22,23) htonl_magic)
  define out where "out = fst (io_encrypt p (enc_init p k) plain)"
  define e where "e = snd (io_encrypt p (enc_init p k) plain)"
  have l276: "length plain = 276"
    using assms(6,4) l1 lh lp pl by (rule build_request_frame(1))
  have br: "build_request p k rx1 (request_host p rx) (request_port rx) (tx_buf c)
        = (out @ ?R @ drop 512 (tx_buf c), e)"
    using build_request_frame(2) [OF assms(6,4) l1 lh lp pl, of k]
    by (simp add: lk t1 out_def e_def)
  have lo: "length out = 276"
    using assms(6) l276 by (simp add: out_def cipher_ok_def)
  define c1 where "c1 = c\<lparr>w_local_read := False, rx_buf := rx1,
      tx_buf := out @ ?R @ drop 512 (tx_buf c), enc_evp := e, tx_bytes := 512,
      sock_remote := socket_r ev1, w_remote_write_cb := Connect_cb, w_remote_write := True,
      state := CMD_RCVD\<rparr>"
  have s1: "local_read_cb p cf ev1 c = Live c1 [Connect_server idx]"
    unfolding c1_def assms(24)
    using assms(1,12,13,14) err assms(19) refl ck [unfolded assms(24)] br
    by (rule local_read_request_ok)
  define c2 where "c2 = c1\<lparr>state := CONNECTED, w_remote_write_cb := Remote_write_cb,
      w_remote_write := True\<rparr>"
  have s2: "connect_cb ev2 c1 = Live c2 []"
    unfolding c2_def by (rule connect_cb_ok) (simp_all add: c1_def assms(20))
  have s3: "remote_write_cb ev3 c2 =
      Live (c2\<lparr>w_remote_write := False, state := REQ_SENT, w_remote_read := True\<rparr>)
        [Send_remote (take 512 (tx_buf c2))]"
    by (rule remote_write_request_sent) (simp_all add: c2_def c1_def assms(21))
  have t: "take 512 (tx_buf c2) = out @ ?R"
    using lo assms(18) by (simp add: c2_def c1_def)
  have w: "w_remote_write c1" "w_remote_write_cb c1 = Connect_cb"
    "w_remote_write c2" "w_remote_write_cb c2 = Remote_write_cb"
    by (simp_all add: c1_def c2_def)
  have "run p cf [Local_read ev1, Remote_write ev2, Remote_write ev3] c [] =
      Some (Live (c2\<lparr>w_remote_write := False, state := REQ_SENT, w_remote_read := True\<rparr>)
             [Connect_server idx, Send_remote (out @ ?R)])"
    using assms(2) s1 s2 s3 w t by simp
  moreover have "enc_evp (c2\<lparr>w_remote_write := False, state := REQ_SENT, w_remote_read := True\<rparr>) = e"
    by (simp add: c2_def c1_def)
  ultimately show ?thesis
    using lh lp l276 idx by (simp add: assms(22,23) out_def e_def cstr_no_nul)
qed


theorem inner_request_layout_witness:
  "state (sample_conn\<lparr>state := NEGO_SENT, w_local_read := True\<rparr>) = NEGO_SENT
   \<and> w_local_read (sample_conn\<lparr>state := NEGO_SENT, w_local_read := True\<rparr>)
   \<and> md5_ok sample_prims \<and> cipher_ok sample_prims
   \<and> servers sample_conf = map server_setup [[1, 2, 3]]
   \<and> server_num sample_conf = int (length [[1, 2, 3 :: byte]])
   \<and> request_error (recv_buf (bzero (rx_buf sample_conn) 263)
         (Recv_data [5, 1, 0, 1, 1, 2, 3, 4, 0, 80])) = 0
   \<and> length (rnd_iv sample_env) = 236
   \<and> cstr (request_host sample_prims (recv_buf (bzero (rx_buf sample_conn) 263)
         (Recv_data [5, 1, 0, 1, 1, 2, 3, 4, 0, 80]))) = [49, 46, 50, 46, 51, 46, 52]
   \<and> cstr (request_port (recv_buf (bzero (rx_buf sample_conn) 263)
         (Recv_data [5, 1, 0, 1, 1, 2, 3, 4, 0, 80]))) = [56, 48]
   \<and> (\<exists>c'. run sample_prims sample_conf
          [Local_read (sample_env\<lparr>recv_r := Recv_data [5, 1, 0, 1, 1, 2, 3, 4, 0, 80]\<rparr>),
           Remote_write sample_env,
           Remote_write (sample_env\<lparr>send_r := Send_n 512\<rparr>)]
          (sample_conn\<lparr>state := NEGO_SENT, w_local_read := True\<rparr>) [] =
        Some (Live c' [Connect_server 0,
          Send_remote (fst (io_encrypt sample_prims
              (enc_init sample_prims (spec_key sample_prims (replicate 236 7) [1, 2, 3]))
              ([0x52, 0x6f, 0x6e, 0x61] @ [49, 46, 50, 46, 51, 46, 52] @ replicate 250 0
               @ [56, 48] @ replicate 13 0))
            @ replicate 236 7)])
        \<and> state c' = REQ_SENT)"
proof -
  let ?c = "sample_conn\<lparr>state := NEGO_SENT, w_local_read := True\<rparr>"
  let ?d = "[5, 1, 0, 1, 1, 2, 3, 4, 0, 80] :: byte list"
  let ?rx = "recv_buf (bzero (rx_buf sample_conn) 263) (Recv_data ?d)"
  let ?plain = "[0x52, 0x6f, 0x6e, 0x61] @ [49, 46, 50, 46, 51, 46, 52] @ replicate 250 0
               @ [56, 48] @ replicate 13 (0::byte)"
  have rx: "?rx = ?d @ replicate 253 0 @ replicate 7929 0"
    by (simp add: sample_conn_def recv_buf_def bzero_def write_at_def BUF_SIZE_def)
  have host: "cstr (request_host sample_prims ?rx) = [49, 46, 50, 46, 51, 46, 52]"
    unfolding rx by (simp add: request_host_def inet_ntop4_def dec.simps cstr_def)
  have port: "cstr (request_port ?rx) = [56, 48]"
    unfolding rx by (simp add: request_port_def ntohs_at_def dec.simps cstr_def)
  have err: "request_error ?rx = 0"
    unfolding rx by (simp add: request_error_def)
  have run: "length [49, 46, 50, 46, 51, 46, 52 :: byte] \<le> 256 \<and> length [56, 48 :: byte] \<le> 14
       \<and> 0 \<notin> set [49, 46, 50, 46, 51, 46, 52 :: byte] \<and> 0 \<notin> set [56, 48 :: byte]
       \<and> length ?plain = 276 \<and> 0 < length [[1, 2, 3 :: byte]]
       \<and> (\<exists>c'. run sample_prims sample_conf
                 [Local_read (sample_env\<lparr>recv_r := Recv_data ?d\<rparr>), Remote_write sample_env,
                  Remote_write (sample_env\<lparr>send_r := Send_n 512\<rparr>)] ?c [] =
                 Some (Live c' [Connect_server 0,
                   Send_remote (fst (io_encrypt sample_prims
                       (enc_init sample_prims (spec_key sample_prims (rnd_iv
                          (sample_env\<lparr>recv_r := Recv_data ?d\<rparr>)) ([[1, 2, 3]] ! 0))) ?plain)
                     @ rnd_iv (sample_env\<lparr>recv_r := Recv_data ?d\<rparr>))])
               \<and> state c' = REQ_SENT
               \<and> enc_evp c' = snd (io_encrypt sample_prims
                       (enc_init sample_prims (spec_key sample_prims (rnd_iv
                          (sample_env\<lparr>recv_r := Recv_data ?d\<rparr>)) ([[1, 2, 3]] ! 0))) ?plain))"
  proof (rule inner_request_layout [where d = ?d and rx = ?rx])
    show "?rx ! 0 = 5" "?rx ! 1 = 1" "?rx ! 3 = 1 \<or> ?rx ! 3 = 3 \<or> ?rx ! 3 = 4"
      unfolding rx by simp_all
    show "[49, 46, 50, 46, 51, 46, 52] = cstr (request_host sample_prims ?rx)"
      by (simp only: host)
    show "[56, 48] = cstr (request_port ?rx)"
      by (simp only: port)
    show "\<forall>a. length (inet_ntop6 sample_prims a) \<le> 45"
      by (simp add: sample_prims_def)
  qed (simp_all add: sample_conn_def sample_env_def sample_conf_def md5_ok_sample
        cipher_ok_sample BUF_SIZE_def select_server_def)
  then have "\<exists>c'. run sample_prims sample_conf
          [Local_read (sample_env\<lparr>recv_r := Recv_data ?d\<rparr>), Remote_write sample_env,
           Remote_write (sample_env\<lparr>send_r := Send_n 512\<rparr>)] ?c [] =
        Some (Live c' [Connect_server 0,
          Send_remote (fst (io_encrypt sample_prims
              (enc_init sample_prims (spec_key sample_prims (replicate 236 7) [1, 2, 3])) ?plain)
            @ replicate 236 7)])
        \<and> state c' = REQ_SENT"
    by (auto simp add: sample_env_def simp del: run.simps)
  then show ?thesis
    using err host port
    by (simp del: run.simps
        add: md5_ok_sample cipher_ok_sample sample_conf_def sample_env_def sample_conn_def)
qed

text \<open>
  C3 (as amended).  A greeting with a wrong version byte, a request with a wrong version
  byte or an unknown address type, a server reply that does not decrypt to the magic, and
  a failed name resolution on the server are each answered with the error frame of the
  protocol; when the local socket takes the whole frame and the pool has a timer block,
  the end lingers one second in \<^verbatim>\<open>CLOSE_WAIT\<close> and closes.  When the server's decryption of
  a 512-byte inner request does not yield the magic, the server closes the local socket
  and frees the connection at once: it sends nothing and does not linger.
\<close>

theorem protocol_error_paths:
  assumes "md5_ok p" and "cipher_ok p"
  shows "(\<forall>c ev1 ev2 d.
            state c = CLOSED \<and> w_local_read c \<and> length (tx_buf c) = BUF_SIZE
            \<and> recv_r ev1 = Recv_data d \<and> d \<noteq> [] \<and> d ! 0 \<noteq> 5
            \<and> send_r ev2 = Send_n 2 \<and> timer_new ev2 \<longrightarrow>
            run p cf [Local_read ev1, Local_write ev2, Timer] c [] =
              Some (Dead [Send_local [5, 0xff], Timer_start 1,
                          Timer_stop, Close_local, Free_timer, Free_conn]))
       \<and> (\<forall>c ev1 ev2 d.
            state c = NEGO_SENT \<and> w_local_read c \<and> recv_r ev1 = Recv_data d \<and> 4 \<le> length d
            \<and> (d ! 0 \<noteq> 5 \<or> d ! 3 \<noteq> 1 \<and> d ! 3 \<noteq> 3 \<and> d ! 3 \<noteq> 4)
            \<and> send_r ev2 = Send_n 10 \<and> timer_new ev2 \<longrightarrow>
            run p cf [Local_read ev1, Local_write ev2, Timer] c [] =
              Some (Dead [Send_local [5, (if d ! 3 \<noteq> 1 \<and> d ! 3 \<noteq> 3 \<and> d ! 3 \<noteq> 4 then 8
                                        else if d ! 1 \<noteq> 1 then 7 else 1), 0, 1, 0, 0, 0, 0, 0, 0],
                          Timer_start 1, Timer_stop, Close_local, Free_timer, Free_conn]))
       \<and> (\<forall>c ev1 ev2 d.
            state c = REQ_SENT \<and> w_remote_read c \<and> length (rx_buf c) = BUF_SIZE
            \<and> recv_r ev1 = Recv_data d \<and> length d = 4
            \<and> ntohl_bytes (fst (io_decrypt p (enc_evp c) d)) \<noteq> MAGIC
            \<and> send_r ev2 = Send_n 10 \<and> timer_new ev2 \<longrightarrow>
            run p cf [Remote_read ev1, Local_write ev2, Timer] c [] =
              Some (Dead [Send_local [5, 5, 0, 1, 0, 0, 0, 0, 0, 0], Timer_start 1,
                          Timer_stop, Close_local, Free_timer, Free_conn]))
       \<and> (\<forall>c ev1 ev2.
            length (tx_buf c) = BUF_SIZE \<and> gai_error_r ev1 \<noteq> 0
            \<and> send_r ev2 = Send_n 4 \<and> timer_new ev2 \<longrightarrow>
            (\<exists>c1 c2. resolv_cb p ev1 c = Live c1 [Free_gai]
              \<and> local_write_cb_srv ev2 c1 =
                  Live c2 [Send_local (fst (io_encrypt p (enc_evp c) [0, 0, 0, 0])), Timer_start 1]
              \<and> closewait_cb_srv c2 = Dead [Timer_stop, Close_local, Free_timer, Free_conn]))
       \<and> (\<forall>c ev d P.
            state c = CLOSED \<and> length (rx_buf c) = BUF_SIZE \<and> length (tx_buf c) = BUF_SIZE
            \<and> srvs ! server_index c = server_setup P
            \<and> recv_r ev = Recv_data d \<and> length d = 512
            \<and> ntohl_bytes (fst (io_decrypt p (enc_init p (spec_key p (drop 276 d) P))
                  (take 276 d))) \<noteq> MAGIC \<longrightarrow>
            local_read_cb_srv p srvs ev c = Dead [Close_local, Free_conn])"
proof (intro conjI allI impI)
  fix c :: "'a conn" and ev1 ev2 :: env and d :: "byte list"
  assume "state c = CLOSED \<and> w_local_read c \<and> length (tx_buf c) = BUF_SIZE
            \<and> recv_r ev1 = Recv_data d \<and> d \<noteq> [] \<and> d ! 0 \<noteq> 5
            \<and> send_r ev2 = Send_n 2 \<and> timer_new ev2"
  then show "run p cf [Local_read ev1, Local_write ev2, Timer] c [] =
              Some (Dead [Send_local [5, 0xff], Timer_start 1,
                          Timer_stop, Close_local, Free_timer, Free_conn])"
    by (elim conjE) (rule greeting_error_run [where d = d], assumption+)
next
  fix c :: "'a conn" and ev1 ev2 :: env and d :: "byte list"
  assume a: "state c = NEGO_SENT \<and> w_local_read c \<and> recv_r ev1 = Recv_data d \<and> 4 \<le> length d
            \<and> (d ! 0 \<noteq> 5 \<or> d ! 3 \<noteq> 1 \<and> d ! 3 \<noteq> 3 \<and> d ! 3 \<noteq> 4)
            \<and> send_r ev2 = Send_n 10 \<and> timer_new ev2"
  then have "d ! 0 \<noteq> 5 \<or> d ! 1 \<noteq> 1 \<or> (d ! 3 \<noteq> 1 \<and> d ! 3 \<noteq> 3 \<and> d ! 3 \<noteq> 4)"
    by blast
  with a show "run p cf [Local_read ev1, Local_write ev2, Timer] c [] =
              Some (Dead [Send_local [5, (if d ! 3 \<noteq> 1 \<and> d ! 3 \<noteq> 3 \<and> d ! 3 \<noteq> 4 then 8
                                        else if d ! 1 \<noteq> 1 then 7 else 1), 0, 1, 0, 0, 0, 0, 0, 0],
                          Timer_start 1, Timer_stop, Close_local, Free_timer, Free_conn])"
    by (elim conjE) (rule request_error_run [where d = d], assumption+)
next
  fix c :: "'a conn" and ev1 ev2 :: env and d :: "byte list"
  assume "state c = REQ_SENT \<and> w_remote_read c \<and> length (rx_buf c) = BUF_SIZE
            \<and> recv_r ev1 = Recv_data d \<and> length d = 4
            \<and> ntohl_bytes (fst (io_decrypt p (enc_evp c) d)) \<noteq> MAGIC
            \<and> send_r ev2 = Send_n 10 \<and> timer_new ev2"
  then show "run p cf [Remote_read ev1, Local_write ev2, Timer] c [] =
              Some (Dead [Send_local [5, 5, 0, 1, 0, 0, 0, 0, 0, 0], Timer_start 1,
                          Timer_stop, Close_local, Free_timer, Free_conn])"
    by (elim conjE) (rule reply_mismatch_run [where d = d, OF assms(2)], assumption+)
next
  fix c :: "'a sconn" and ev1 ev2 :: senv
  assume "length (tx_buf c) = BUF_SIZE \<and> gai_error_r ev1 \<noteq> 0
            \<and> send_r ev2 = Send_n 4 \<and> timer_new ev2"
  then show "\<exists>c1 c2. resolv_cb p ev1 c = Live c1 [Free_gai]
              \<and> local_write_cb_srv ev2 c1 =
                  Live c2 [Send_local (fst (io_encrypt p (enc_evp c) [0, 0, 0, 0])), Timer_start 1]
              \<and> closewait_cb_srv c2 = Dead [Timer_stop, Close_local, Free_timer, Free_conn]"
    by (elim conjE) (rule dns_failure_chain [OF assms(2)], assumption+)
next
  fix c :: "'a sconn" and ev :: senv and d P :: "byte list"
  assume "state c = CLOSED \<and> length (rx_buf c) = BUF_SIZE \<and> length (tx_buf c) = BUF_SIZE
            \<and> srvs ! server_index c = server_setup P
            \<and> recv_r ev = Recv_data d \<and> length d = 512
            \<and> ntohl_bytes (fst (io_decrypt p (enc_init p (spec_key p (drop 276 d) P))
                  (take 276 d))) \<noteq> MAGIC"
  then show "local_read_cb_srv p srvs ev c = Dead [Close_local, Free_conn]"
    by (elim conjE) (rule server_magic_mismatch [where P = P and d = d, OF assms], assumption+)
qed

theorem protocol_error_paths_witness:
  "md5_ok sample_prims \<and> cipher_ok sample_prims
   \<and> run sample_prims sample_conf
        [Local_read (sample_env\<lparr>recv_r := Recv_data [4, 1, 0]\<rparr>),
         Local_write (sample_env\<lparr>send_r := Send_n 2\<rparr>), Timer]
        (sample_conn\<lparr>w_local_read := True\<rparr>) [] =
      Some (Dead [Send_local [5, 0xff], Timer_start 1,
                  Timer_stop, Close_local, Free_timer, Free_conn])
   \<and> run sample_prims sample_conf
        [Local_read (sample_env\<lparr>recv_r := Recv_data [5, 1, 0, 9]\<rparr>),
         Local_write (sample_env\<lparr>send_r := Send_n 10\<rparr>), Timer]
        (sample_conn\<lparr>state := NEGO_SENT, w_local_read := True\<rparr>) [] =
      Some (Dead [Send_local [5, 8, 0, 1, 0, 0, 0, 0, 0, 0], Timer_start 1,
                  Timer_stop, Close_local, Free_timer, Free_conn])
   \<and> run sample_prims sample_conf
        [Remote_read (sample_env\<lparr>recv_r := Recv_data [0, 0, 0, 0]\<rparr>),
         Local_write (sample_env\<lparr>send_r := Send_n 10\<rparr>), Timer]
        (sample_conn\<lparr>state := REQ_SENT, w_remote_read := True\<rparr>) [] =
      Some (Dead [Send_local [5, 5, 0, 1, 0, 0, 0, 0, 0, 0], Timer_start 1,
                  Timer_stop, Close_local, Free_timer, Free_conn])
   \<and> (\<exists>c1 c2. resolv_cb sample_prims (sample_senv\<lparr>gai_error_r := - 2\<rparr>) sample_sconn
          = Live c1 [Free_gai]
        \<and> local_write_cb_srv (sample_senv\<lparr>send_r := Send_n 4\<rparr>) c1 =
            Live c2 [Send_local (fst (io_encrypt sample_prims (enc_evp sample_sconn) [0, 0, 0, 0])),
                     Timer_start 1]
        \<and> closewait_cb_srv c2 = Dead [Timer_stop, Close_local, Free_timer, Free_conn])
   \<and> local_read_cb_srv sample_prims [server_setup [1, 2, 3]]
        (sample_senv\<lparr>recv_r := Recv_data (replicate 512 0)\<rparr>) sample_sconn
      = Dead [Close_local, Free_conn]"
proof -
  note T = protocol_error_paths [OF md5_ok_sample cipher_ok_sample,
      of sample_conf "[server_setup [1, 2, 3]]"]
  have a: "run sample_prims sample_conf
        [Local_read (sample_env\<lparr>recv_r := Recv_data [4, 1, 0]\<rparr>),
         Local_write (sample_env\<lparr>send_r := Send_n 2\<rparr>), Timer]
        (sample_conn\<lparr>w_local_read := True\<rparr>) [] =
      Some (Dead [Send_local [5, 0xff], Timer_start 1,
                  Timer_stop, Close_local, Free_timer, Free_conn])"
    by (rule T [THEN conjunct1, rule_format, where d = "[4, 1, 0]"])
      (simp add: sample_conn_def sample_env_def BUF_SIZE_def)
  have b: "run sample_prims sample_conf
        [Local_read (sample_env\<lparr>recv_r := Recv_data [5, 1, 0, 9]\<rparr>),
         Local_write (sample_env\<lparr>send_r := Send_n 10\<rparr>), Timer]
        (sample_conn\<lparr>state := NEGO_SENT, w_local_read := True\<rparr>) [] =
      Some (Dead [Send_local [5, 8, 0, 1, 0, 0, 0, 0, 0, 0], Timer_start 1,
                  Timer_stop, Close_local, Free_timer, Free_conn])"
    using T [THEN conjunct2, THEN conjunct1, rule_format,
        of "sample_conn\<lparr>state := NEGO_SENT, w_local_read := True\<rparr>"
           "sample_env\<lparr>recv_r := Recv_data [5, 1, 0, 9]\<rparr>" "[5, 1, 0, 9]"
           "sample_env\<lparr>send_r := Send_n 10\<rparr>"]
    by (simp add: sample_conn_def sample_env_def del: run.simps)
  have c: "run sample_prims sample_conf
        [Remote_read (sample_env\<lparr>recv_r := Recv_data [0, 0, 0, 0]\<rparr>),
         Local_write (sample_env\<lparr>send_r := Send_n 10\<rparr>), Timer]
        (sample_conn\<lparr>state := REQ_SENT, w_remote_read := True\<rparr>) [] =
      Some (Dead [Send_local [5, 5, 0, 1, 0, 0, 0, 0, 0, 0], Timer_start 1,
                  Timer_stop, Close_local, Free_timer, Free_conn])"
    by (rule T [THEN conjunct2, THEN conjunct2, THEN conjunct1, rule_format,
          where d = "[0, 0, 0, 0]"])
      (simp add: sample_conn_def sample_env_def sample_prims_def BUF_SIZE_def ntohl_bytes_def
        MAGIC_def)
  have d: "\<exists>c1 c2. resolv_cb sample_prims (sample_senv\<lparr>gai_error_r := - 2\<rparr>) sample_sconn
          = Live c1 [Free_gai]
        \<and> local_write_cb_srv (sample_senv\<lparr>send_r := Send_n 4\<rparr>) c1 =
            Live c2 [Send_local (fst (io_encrypt sample_prims (enc_evp sample_sconn) [0, 0, 0, 0])),
                     Timer_start 1]
        \<and> closewait_cb_srv c2 = Dead [Timer_stop, Close_local, Free_timer, Free_conn]"
    by (rule T [THEN conjunct2, THEN conjunct2, THEN conjunct2, THEN conjunct1, rule_format])
      (simp add: sample_sconn_def sample_senv_def BUF_SIZE_def)
  have e: "local_read_cb_srv sample_prims [server_setup [1, 2, 3]]
        (sample_senv\<lparr>recv_r := Recv_data (replicate 512 0)\<rparr>) sample_sconn
      = Dead [Close_local, Free_conn]"
    by (rule T [THEN conjunct2, THEN conjunct2, THEN conjunct2, THEN conjunct2, rule_format,
          where d = "replicate 512 0" and P = "[1, 2, 3]"])
      (simp add: sample_sconn_def sample_senv_def sample_prims_def BUF_SIZE_def spec_key_def
        nth_append ntohl_bytes_def MAGIC_def)
  show ?thesis
    using a b c d e md5_ok_sample cipher_ok_sample by blast
qed

theorem server_magic_mismatch_counterexample:
  "length (replicate 512 (0::byte)) = 512
   \<and> ntohl_bytes (fst (io_decrypt sample_prims
        (enc_init sample_prims (spec_key sample_prims (drop 276 (replicate 512 0)) [1, 2, 3]))
        (take 276 (replicate 512 0)))) \<noteq> MAGIC
   \<and> local_read_cb_srv sample_prims [server_setup [1, 2, 3]]
        (sample_senv\<lparr>recv_r := Recv_data (replicate 512 0)\<rparr>) sample_sconn
      = Dead [Close_local, Free_conn]"
proof -
  have m: "ntohl_bytes (fst (io_decrypt sample_prims
        (enc_init sample_prims (spec_key sample_prims (drop 276 (replicate 512 0)) [1, 2, 3]))
        (take 276 (replicate 512 0)))) \<noteq> MAGIC"
    by (simp add: sample_prims_def spec_key_def nth_append ntohl_bytes_def MAGIC_def)
  have "local_read_cb_srv sample_prims [server_setup [1, 2, 3]]
        (sample_senv\<lparr>recv_r := Recv_data (replicate 512 0)\<rparr>) sample_sconn
      = Dead [Close_local, Free_conn]"
    using md5_ok_sample cipher_ok_sample _ _ _ _ _ _ m
    by (rule server_magic_mismatch) (simp_all add: sample_sconn_def sample_senv_def BUF_SIZE_def)
  with m show ?thesis
    by simp
qed

text \<open>
  C4.  In the server's state \<^verbatim>\<open>CLOSED\<close> a read that fails or returns any number of bytes
  other than 512 (511 and 513 among them) ends the connection at once: the local socket
  is closed and the block freed, and nothing is sent.  A read of exactly 512 bytes is
  processed: the key is derived from bytes 276..511 and the listener's key, the first 276
  bytes are decrypted, and the magic decides.  With a wrong magic, or without a resolver
  block, the connection is closed and freed.  With the right magic the host string (at
  most 256 characters) and the port string (at most 14) are copied into the resolver
  block: a port string of 8 characters or more does not fit \<^verbatim>\<open>char port[8]\<close> and is written
  past its end; a shorter one leaves the connection alive with the cipher state after the
  decryption and a launched name resolution for the host and port, or closed and freed
  when the query cannot be launched.
\<close>

theorem inner_request_length:
  assumes "state c = CLOSED"
    and "length (rx_buf c) = BUF_SIZE" and "length (tx_buf c) = BUF_SIZE"
    and "md5_ok p" and "cipher_ok p" and "srvs ! server_index c = server_setup P"
    and "k = spec_key p (drop 276 d) P"
    and "plain = fst (io_decrypt p (enc_init p k) (take 276 d))"
    and "e = snd (io_decrypt p (enc_init p k) (take 276 d))"
    and "rx = (plain @ drop 276 d @ drop 512 (rx_buf c))[260 := 0, 275 := 0]"
    and "tx = fst (server_key p (server_setup P) (d @ drop 512 (rx_buf c)) (tx_buf c))"
    and "h = cstr (take 256 (drop 4 plain))" and "q = cstr (take 14 (drop 261 plain))"
  shows "(recv_r ev = Recv_fail \<or> recv_r ev = Recv_data d \<and> length d \<noteq> 512 \<longrightarrow>
            local_read_cb_srv p srvs ev c = Dead [Close_local, Free_conn])
       \<and> (recv_r ev = Recv_data d \<and> length d = 512 \<longrightarrow>
            local_read_cb_srv p srvs ev c =
              (if ntohl_bytes plain \<noteq> MAGIC then Dead [Close_local, Free_conn]
               else if \<not> gai_new ev then Dead [Close_local, Free_conn]
               else if \<not> length q < GAI_PORT_SIZE then Overflow
               else if getaddrinfo_a_r ev \<noteq> 0 then Dead [Close_local, Free_conn]
               else Live (c\<lparr>w_local_read := False, rx_buf := rx, tx_buf := tx, enc_evp := e,
                            gai := \<lparr>gai_host = h, gai_port = q, gai_res = []\<rparr>\<rparr>)
                      [Getaddrinfo_a h q]))"
proof (intro conjI impI)
  assume "recv_r ev = Recv_fail \<or> recv_r ev = Recv_data d \<and> length d \<noteq> 512"
  then have "recv_ret (recv_r ev) \<noteq> 512"
    by (auto simp add: recv_ret_512) (simp add: recv_ret_def)
  with assms(1) show "local_read_cb_srv p srvs ev c = Dead [Close_local, Free_conn]"
    by (rule local_read_srv_reject)
next
  assume a: "recv_r ev = Recv_data d \<and> length d = 512"
  show "local_read_cb_srv p srvs ev c =
      (if ntohl_bytes plain \<noteq> MAGIC then Dead [Close_local, Free_conn]
       else if \<not> gai_new ev then Dead [Close_local, Free_conn]
       else if \<not> length q < GAI_PORT_SIZE then Overflow
       else if getaddrinfo_a_r ev \<noteq> 0 then Dead [Close_local, Free_conn]
       else Live (c\<lparr>w_local_read := False, rx_buf := rx, tx_buf := tx, enc_evp := e,
                    gai := \<lparr>gai_host = h, gai_port = q, gai_res = []\<rparr>\<rparr>)
              [Getaddrinfo_a h q])"
    using assms(1) a [THEN conjunct1] a [THEN conjunct2] assms(2-13)
    by (rule local_read_srv_512)
qed

theorem inner_request_length_witness:
  "local_read_cb_srv sample_prims [server_setup [1, 2, 3]]
      (sample_senv\<lparr>recv_r := Recv_data (replicate 511 0)\<rparr>) sample_sconn
     = Dead [Close_local, Free_conn]
   \<and> local_read_cb_srv sample_prims [server_setup [1, 2, 3]]
      (sample_senv\<lparr>recv_r := Recv_data (replicate 513 0)\<rparr>) sample_sconn
     = Dead [Close_local, Free_conn]
   \<and> (\<exists>c'. local_read_cb_srv sample_prims [server_setup [1, 2, 3]]
        (sample_senv\<lparr>recv_r := Recv_data ([65, 94, 93, 80] @ replicate 272 239 @ replicate 236 7)\<rparr>)
        sample_sconn
       = Live c' [Getaddrinfo_a [] []])
   \<and> local_read_cb_srv sample_prims [server_setup [1, 2, 3]]
        (sample_senv\<lparr>recv_r := Recv_data ([65, 94, 93, 80] @ replicate 257 239
            @ [32, 33, 34, 35, 36, 37, 38, 39] @ replicate 7 239 @ replicate 236 7)\<rparr>)
        sample_sconn
       = Overflow"
proof -
  let ?f = "[65, 94, 93, 80] @ replicate 272 239 @ replicate 236 (7::byte)"
  let ?g = "[65, 94, 93, 80] @ replicate 257 239 @ [32, 33, 34, 35, 36, 37, 38, 39]
            @ replicate 7 239 @ replicate 236 (7::byte)"
  have h: "state sample_sconn = CLOSED" "length (rx_buf sample_sconn) = BUF_SIZE"
    "length (tx_buf sample_sconn) = BUF_SIZE"
    "[server_setup [1, 2, 3]] ! server_index sample_sconn = server_setup [1, 2, 3]"
    by (simp_all add: sample_sconn_def BUF_SIZE_def)
  note T = inner_request_length [OF h(1,2,3) md5_ok_sample cipher_ok_sample h(4)
      refl refl refl refl refl refl refl]
  have a: "local_read_cb_srv sample_prims [server_setup [1, 2, 3]]
      (sample_senv\<lparr>recv_r := Recv_data (replicate 511 0)\<rparr>) sample_sconn
     = Dead [Close_local, Free_conn]"
    using T [where d = "replicate 511 0" and ev = "sample_senv\<lparr>recv_r := Recv_data (replicate 511 0)\<rparr>"]
    by simp
  have b: "local_read_cb_srv sample_prims [server_setup [1, 2, 3]]
      (sample_senv\<lparr>recv_r := Recv_data (replicate 513 0)\<rparr>) sample_sconn
     = Dead [Close_local, Free_conn]"
    using T [where d = "replicate 513 0" and ev = "sample_senv\<lparr>recv_r := Recv_data (replicate 513 0)\<rparr>"]
    by simp
  have k: "enc_init sample_prims (spec_key sample_prims (replicate 236 7) [1, 2, 3]) = 239"
    by (simp add: sample_prims_def spec_key_def nth_append)
  have pl: "fst (io_decrypt sample_prims 239 (65 # 94 # 93 # 80 # replicate 272 239))
      = 0x52 # 0x6f # 0x6e # 0x61 # replicate 272 0"
    by (simp add: sample_prims_def)
  have c: "\<exists>c'. local_read_cb_srv sample_prims [server_setup [1, 2, 3]]
        (sample_senv\<lparr>recv_r := Recv_data ?f\<rparr>) sample_sconn
       = Live c' [Getaddrinfo_a [] []]"
    using T [where d = ?f and ev = "sample_senv\<lparr>recv_r := Recv_data ?f\<rparr>"]
    by (simp add: k pl ntohl_bytes_def MAGIC_def sample_senv_def cstr_def GAI_PORT_SIZE_def)
  have d: "local_read_cb_srv sample_prims [server_setup [1, 2, 3]]
        (sample_senv\<lparr>recv_r := Recv_data ?g\<rparr>) sample_sconn = Overflow"
    using T [where d = ?g and ev = "sample_senv\<lparr>recv_r := Recv_data ?g\<rparr>"]
    by (simp add: sample_prims_def spec_key_def nth_append ntohl_bytes_def MAGIC_def
        sample_senv_def cstr_def GAI_PORT_SIZE_def)
  show ?thesis
    using a b c d by blast
qed

text \<open>
  C5.  Every connection the client can reach in state \<^verbatim>\<open>ESTAB\<close> has, for each of the two
  directions, exactly one of the reader of the source socket and the writer of the sink
  socket started, and every relay callback that leaves the connection alive keeps it so.
  After a read, the pipe is (reader, writer) = (started, stopped) when the synchronous
  write took everything and (stopped, started) after a partial write or a would-block;
  after a write callback it is (started, stopped) when the buffer was drained and
  (stopped, started) otherwise.

  The callbacks do complete in these cases.  A read callback whose \<^verbatim>\<open>recv\<close> returns at
  least one byte, and a write callback of a started writer, leave the connection alive in
  \<^verbatim>\<open>ESTAB\<close> with the watchers of the other direction untouched and those of its own
  direction as above, whatever \<^verbatim>\<open>send\<close> answers short of an error other than
  \<^verbatim>\<open>EAGAIN\<close>/\<^verbatim>\<open>EWOULDBLOCK\<close>: a started writer of a reachable connection always has at
  least one unsent byte, so its \<^verbatim>\<open>assert\<close> holds.
\<close>

theorem half_duplex_interlock:
  assumes "reachable p cf c" and "state c = ESTAB"
  shows "interlock c
       \<and> (\<forall>e c' a. fire p cf e c = Some (Live c' a) \<longrightarrow> state c' = ESTAB \<and> interlock c')
       \<and> (\<forall>ev c' a. fire p cf (Local_read ev) c = Some (Live c' a) \<longrightarrow>
             tx_pipe c' = (case send_r ev of
                             Send_n n \<Rightarrow> if recv_ret (recv_r ev) \<le> int n then (True, False)
                                         else (False, True)
                           | Send_fail x \<Rightarrow> (False, True)))
       \<and> (\<forall>ev c' a. fire p cf (Remote_write ev) c = Some (Live c' a) \<longrightarrow>
             tx_pipe c' = (case send_r ev of
                             Send_n n \<Rightarrow> if tx_bytes c \<le> int n then (True, False)
                                         else (False, True)
                           | Send_fail x \<Rightarrow> (False, True)))
       \<and> (\<forall>ev c' a. fire p cf (Remote_read ev) c = Some (Live c' a) \<longrightarrow>
             rx_pipe c' = (case send_r ev of
                             Send_n n \<Rightarrow> if recv_ret (recv_r ev) \<le> int n then (True, False)
                                         else (False, True)
                           | Send_fail x \<Rightarrow> (False, True)))
       \<and> (\<forall>ev c' a. fire p cf (Local_write ev) c = Some (Live c' a) \<longrightarrow>
             rx_pipe c' = (case send_r ev of
                             Send_n n \<Rightarrow> if rx_bytes c \<le> int n then (True, False)
                                         else (False, True)
                           | Send_fail x \<Rightarrow> (False, True)))
       \<and> (\<forall>ev d. w_local_read c \<and> recv_r ev = Recv_data d \<and> d \<noteq> []
                  \<and> send_r ev \<noteq> Send_fail EOTHER \<longrightarrow>
             (\<exists>c' a. fire p cf (Local_read ev) c = Some (Live c' a)
                \<and> state c' = ESTAB \<and> interlock c' \<and> rx_pipe c' = rx_pipe c
                \<and> tx_pipe c' = (case send_r ev of
                                  Send_n n \<Rightarrow> if recv_ret (recv_r ev) \<le> int n
                                              then (True, False) else (False, True)
                                | Send_fail x \<Rightarrow> (False, True))))
       \<and> (\<forall>ev. w_remote_write c \<and> send_r ev \<noteq> Send_fail EOTHER \<longrightarrow>
             (\<exists>c' a. fire p cf (Remote_write ev) c = Some (Live c' a)
                \<and> state c' = ESTAB \<and> interlock c' \<and> rx_pipe c' = rx_pipe c
                \<and> tx_pipe c' = (case send_r ev of
                                  Send_n n \<Rightarrow> if tx_bytes c \<le> int n then (True, False)
                                              else (False, True)
                                | Send_fail x \<Rightarrow> (False, True))))
       \<and> (\<forall>ev d. w_remote_read c \<and> recv_r ev = Recv_data d \<and> d \<noteq> []
                  \<and> send_r ev \<noteq> Send_fail EOTHER \<longrightarrow>
             (\<exists>c' a. fire p cf (Remote_read ev) c = Some (Live c' a)
                \<and> state c' = ESTAB \<and> interlock c' \<and> tx_pipe c' = tx_pipe c
                \<and> rx_pipe c' = (case send_r ev of
                                  Send_n n \<Rightarrow> if recv_ret (recv_r ev) \<le> int n
                                              then (True, False) else (False, True)
                                | Send_fail x \<Rightarrow> (False, True))))
       \<and> (\<forall>ev. w_local_write c \<and> send_r ev \<noteq> Send_fail EOTHER \<longrightarrow>
             (\<exists>c' a. fire p cf (Local_write ev) c = Some (Live c' a)
                \<and> state c' = ESTAB \<and> interlock c' \<and> tx_pipe c' = tx_pipe c
                \<and> rx_pipe c' = (case send_r ev of
                                  Send_n n \<Rightarrow> if rx_bytes c \<le> int n then (True, False)
                                              else (False, True)
                                | Send_fail x \<Rightarrow> (False, True))))"
proof -
  have w: "watchers_ok c"
    using assms(1) by (rule reachable_watchers_ok)
  then have i: "interlock c" and cb: "w_remote_write_cb c = Remote_write_cb"
    using assms(2) by (simp_all add: watchers_ok_def)
  have pd: "(w_local_write c \<longrightarrow> 0 < rx_bytes c) \<and> (w_remote_write c \<longrightarrow> 0 < tx_bytes c)"
    using reachable_pending [OF assms(1)] assms(2) by blast
  have all: "\<forall>e c' a. fire p cf e c = Some (Live c' a) \<longrightarrow> state c' = ESTAB \<and> interlock c'"
    using fire_estab [OF assms(2) i] by blast
  have lr: "\<forall>ev c' a. fire p cf (Local_read ev) c = Some (Live c' a) \<longrightarrow>
             tx_pipe c' = (case send_r ev of
                             Send_n n \<Rightarrow> if recv_ret (recv_r ev) \<le> int n then (True, False)
                                         else (False, True)
                           | Send_fail x \<Rightarrow> (False, True))"
    using local_read_estab [OF assms(2) i] by (auto split: if_splits)
  have rw: "\<forall>ev c' a. fire p cf (Remote_write ev) c = Some (Live c' a) \<longrightarrow>
             tx_pipe c' = (case send_r ev of
                             Send_n n \<Rightarrow> if tx_bytes c \<le> int n then (True, False)
                                         else (False, True)
                           | Send_fail x \<Rightarrow> (False, True))"
    using remote_write_estab [OF assms(2) i] cb by (auto split: if_splits)
  have rr: "\<forall>ev c' a. fire p cf (Remote_read ev) c = Some (Live c' a) \<longrightarrow>
             rx_pipe c' = (case send_r ev of
                             Send_n n \<Rightarrow> if recv_ret (recv_r ev) \<le> int n then (True, False)
                                         else (False, True)
                           | Send_fail x \<Rightarrow> (False, True))"
    using remote_read_estab [OF assms(2) i] by (auto split: if_splits)
  have lw: "\<forall>ev c' a. fire p cf (Local_write ev) c = Some (Live c' a) \<longrightarrow>
             rx_pipe c' = (case send_r ev of
                             Send_n n \<Rightarrow> if rx_bytes c \<le> int n then (True, False)
                                         else (False, True)
                           | Send_fail x \<Rightarrow> (False, True))"
    using local_write_estab [OF assms(2) i] by (auto split: if_splits)
  have lr_live: "\<exists>c' a. fire p cf (Local_read ev) c = Some (Live c' a)
                \<and> state c' = ESTAB \<and> interlock c' \<and> rx_pipe c' = rx_pipe c
                \<and> tx_pipe c' = (case send_r ev of
                                  Send_n n \<Rightarrow> if recv_ret (recv_r ev) \<le> int n
                                              then (True, False) else (False, True)
                                | Send_fail x \<Rightarrow> (False, True))"
    if h: "w_local_read c \<and> recv_r ev = Recv_data d \<and> d \<noteq> [] \<and> send_r ev \<noteq> Send_fail EOTHER"
    for ev d
  proof -
    obtain c' a where f: "local_read_cb p cf ev c = Live c' a"
      using local_read_live [OF assms(2), of ev d p cf] h by blast
    have "fire p cf (Local_read ev) c = Some (Live c' a)"
      using h f by simp
    then show ?thesis
      using local_read_estab [OF assms(2) i _ f] h by simp
  qed
  have rr_live: "\<exists>c' a. fire p cf (Remote_read ev) c = Some (Live c' a)
                \<and> state c' = ESTAB \<and> interlock c' \<and> tx_pipe c' = tx_pipe c
                \<and> rx_pipe c' = (case send_r ev of
                                  Send_n n \<Rightarrow> if recv_ret (recv_r ev) \<le> int n
                                              then (True, False) else (False, True)
                                | Send_fail x \<Rightarrow> (False, True))"
    if h: "w_remote_read c \<and> recv_r ev = Recv_data d \<and> d \<noteq> [] \<and> send_r ev \<noteq> Send_fail EOTHER"
    for ev d
  proof -
    obtain c' a where f: "remote_read_cb p ev c = Live c' a"
      using remote_read_live [OF assms(2), of ev d p] h by blast
    have "fire p cf (Remote_read ev) c = Some (Live c' a)"
      using h f by simp
    then show ?thesis
      using remote_read_estab [OF assms(2) i _ f] h by simp
  qed
  have rw_live: "\<exists>c' a. fire p cf (Remote_write ev) c = Some (Live c' a)
                \<and> state c' = ESTAB \<and> interlock c' \<and> rx_pipe c' = rx_pipe c
                \<and> tx_pipe c' = (case send_r ev of
                                  Send_n n \<Rightarrow> if tx_bytes c \<le> int n then (True, False)
                                              else (False, True)
                                | Send_fail x \<Rightarrow> (False, True))"
    if h: "w_remote_write c \<and> send_r ev \<noteq> Send_fail EOTHER" for ev
  proof -
    have "0 < tx_bytes c"
      using pd h by blast
    then obtain c' a where f: "remote_write_cb ev c = Live c' a"
      using remote_write_live [OF assms(2), of ev] h by blast
    have "fire p cf (Remote_write ev) c = Some (Live c' a)"
      using h f cb by simp
    then show ?thesis
      using remote_write_estab [OF assms(2) i _ f] h by simp
  qed
  have lw_live: "\<exists>c' a. fire p cf (Local_write ev) c = Some (Live c' a)
                \<and> state c' = ESTAB \<and> interlock c' \<and> tx_pipe c' = tx_pipe c
                \<and> rx_pipe c' = (case send_r ev of
                                  Send_n n \<Rightarrow> if rx_bytes c \<le> int n then (True, False)
                                              else (False, True)
                                | Send_fail x \<Rightarrow> (False, True))"
    if h: "w_local_write c \<and> send_r ev \<noteq> Send_fail EOTHER" for ev
  proof -
    have "0 < rx_bytes c"
      using pd h by blast
    then obtain c' a where f: "local_write_cb ev c = Live c' a"
      using local_write_live [OF assms(2), of ev] h by blast
    have "fire p cf (Local_write ev) c = Some (Live c' a)"
      using h f by simp
    then show ?thesis
      using local_write_estab [OF assms(2) i _ f] h by simp
  qed
  show ?thesis
    using i all lr rw rr lw
    by (intro conjI allI impI lr_live rw_live rr_live lw_live) (assumption | blast)+
qed


theorem half_duplex_interlock_witness:
  "\<exists>c' frame c2 a2 c3 a3.
     run sample_prims sample_conf
       [Local_read (sample_env\<lparr>recv_r := Recv_data [5, 1, 0]\<rparr>),
        Local_write (sample_env\<lparr>send_r := Send_n 2\<rparr>),
        Local_read (sample_env\<lparr>recv_r := Recv_data [5, 1, 0, 1, 1, 2, 3, 4, 0, 80]\<rparr>),
        Remote_write sample_env,
        Remote_write (sample_env\<lparr>send_r := Send_n 512\<rparr>),
        Remote_read (sample_env\<lparr>recv_r := Recv_data [65, 94, 93, 80]\<rparr>),
        Local_write (sample_env\<lparr>send_r := Send_n 10\<rparr>)]
       (accept_cb 3 sample_conn) [] = Some (Live c' [Send_local [5, 0], Connect_server 0,
          Send_remote frame, Send_local [5, 0, 0, 1, 0, 0, 0, 0, 0, 0]])
    \<and> reachable sample_prims sample_conf c' \<and> state c' = ESTAB \<and> interlock c'
    \<and> fire sample_prims sample_conf
          (Local_read (sample_env\<lparr>recv_r := Recv_data (replicate 8192 1), send_r := Send_n 100\<rparr>)) c'
          = Some (Live c2 a2)
    \<and> state c2 = ESTAB \<and> interlock c2 \<and> tx_pipe c2 = (False, True)
    \<and> (\<exists>d b. fire sample_prims sample_conf
          (Local_read (sample_env\<lparr>recv_r := Recv_data [1, 2, 3], send_r := Send_fail EAGAIN\<rparr>)) c'
          = Some (Live d b) \<and> tx_pipe d = (False, True))
    \<and> (\<exists>d b. fire sample_prims sample_conf
          (Local_read (sample_env\<lparr>recv_r := Recv_data [1, 2, 3], send_r := Send_n 3\<rparr>)) c'
          = Some (Live d b) \<and> tx_pipe d = (True, False))
    \<and> (\<exists>d b. fire sample_prims sample_conf (Remote_write (sample_env\<lparr>send_r := Send_n 10\<rparr>)) c2
          = Some (Live d b) \<and> tx_pipe d = (False, True))
    \<and> (\<exists>d b. fire sample_prims sample_conf
          (Remote_write (sample_env\<lparr>send_r := Send_fail EAGAIN\<rparr>)) c2
          = Some (Live d b) \<and> tx_pipe d = (False, True))
    \<and> (\<exists>d b. fire sample_prims sample_conf (Remote_write (sample_env\<lparr>send_r := Send_n 8092\<rparr>)) c2
          = Some (Live d b) \<and> tx_pipe d = (True, False))
    \<and> fire sample_prims sample_conf
          (Remote_read (sample_env\<lparr>recv_r := Recv_data [1, 2, 3], send_r := Send_fail EAGAIN\<rparr>)) c'
          = Some (Live c3 a3)
    \<and> state c3 = ESTAB \<and> interlock c3 \<and> rx_pipe c3 = (False, True)
    \<and> (\<exists>d b. fire sample_prims sample_conf (Local_write (sample_env\<lparr>send_r := Send_n 1\<rparr>)) c3
          = Some (Live d b) \<and> rx_pipe d = (False, True))
    \<and> (\<exists>d b. fire sample_prims sample_conf (Local_write (sample_env\<lparr>send_r := Send_n 3\<rparr>)) c3
          = Some (Live d b) \<and> rx_pipe d = (True, False))"
proof -
  let ?lr = "sample_env\<lparr>recv_r := Recv_data (replicate 8192 1), send_r := Send_n 100\<rparr>"
  let ?rr = "sample_env\<lparr>recv_r := Recv_data [1, 2, 3], send_r := Send_fail EAGAIN\<rparr>"
  obtain c' frame c2 a2 c3 a3 where
    r: "run sample_prims sample_conf
     [Local_read (sample_env\<lparr>recv_r := Recv_data [5, 1, 0]\<rparr>),
      Local_write (sample_env\<lparr>send_r := Send_n 2\<rparr>),
      Local_read (sample_env\<lparr>recv_r := Recv_data [5, 1, 0, 1, 1, 2, 3, 4, 0, 80]\<rparr>),
      Remote_write sample_env,
      Remote_write (sample_env\<lparr>send_r := Send_n 512\<rparr>),
      Remote_read (sample_env\<lparr>recv_r := Recv_data [65, 94, 93, 80]\<rparr>),
      Local_write (sample_env\<lparr>send_r := Send_n 10\<rparr>)]
     (accept_cb 3 sample_conn) [] = Some (Live c' [Send_local [5, 0], Connect_server 0,
        Send_remote frame, Send_local [5, 0, 0, 1, 0, 0, 0, 0, 0, 0]])"
    and st: "state c' = ESTAB" and wl: "w_local_read c'" and wr: "w_remote_read c'"
    and f2: "fire sample_prims sample_conf (Local_read ?lr) c' = Some (Live c2 a2)"
    and b2: "tx_bytes c2 = 8092"
    and f3: "fire sample_prims sample_conf (Remote_read ?rr) c' = Some (Live c3 a3)"
    and b3: "rx_bytes c3 = 3"
    using sample_run_relay by blast
  have re: "reachable sample_prims sample_conf c'"
    using reachable.accepted r by (rule run_reachable)
  note T = half_duplex_interlock [OF re st]
  have i: "interlock c'"
    using T by (rule conjunct1)
  have s2: "state c2 = ESTAB \<and> interlock c2"
    using f2 by (rule T [THEN conjunct2, THEN conjunct1, rule_format])
  have "tx_pipe c2 = (case send_r ?lr of
                        Send_n n \<Rightarrow> if recv_ret (recv_r ?lr) \<le> int n then (True, False)
                                    else (False, True)
                      | Send_fail x \<Rightarrow> (False, True))"
    using f2 by (rule T [THEN conjunct2, THEN conjunct2, THEN conjunct1, rule_format])
  then have p2: "tx_pipe c2 = (False, True)"
    by (simp add: sample_env_def recv_ret_def BUF_SIZE_def)
  have s3: "state c3 = ESTAB \<and> interlock c3"
    using f3 by (rule T [THEN conjunct2, THEN conjunct1, rule_format])
  have "rx_pipe c3 = (case send_r ?rr of
                        Send_n n \<Rightarrow> if recv_ret (recv_r ?rr) \<le> int n then (True, False)
                                    else (False, True)
                      | Send_fail x \<Rightarrow> (False, True))"
    using f3 by (rule T [THEN conjunct2, THEN conjunct2, THEN conjunct2, THEN conjunct2, THEN conjunct1, rule_format])
  then have p3: "rx_pipe c3 = (False, True)"
    by (simp add: sample_env_def)
  have live_lr: "\<exists>d b. fire sample_prims sample_conf (Local_read ev) c' = Some (Live d b)
      \<and> tx_pipe d = (case send_r ev of
                       Send_n n \<Rightarrow> if recv_ret (recv_r ev) \<le> int n then (True, False)
                                   else (False, True)
                     | Send_fail x \<Rightarrow> (False, True))"
    if "recv_r ev = Recv_data [1, 2, 3]" and "send_r ev \<noteq> Send_fail EOTHER" for ev
  proof -
    have "w_local_read c' \<and> recv_r ev = Recv_data [1, 2, 3] \<and> [1, 2, 3] \<noteq> ([] :: byte list)
        \<and> send_r ev \<noteq> Send_fail EOTHER"
      using wl that by simp
    then show ?thesis
      using T [THEN conjunct2, THEN conjunct2, THEN conjunct2, THEN conjunct2, THEN conjunct2, THEN conjunct2, THEN conjunct1, rule_format] by blast
  qed
  have l1: "\<exists>d b. fire sample_prims sample_conf
          (Local_read (sample_env\<lparr>recv_r := Recv_data [1, 2, 3], send_r := Send_fail EAGAIN\<rparr>)) c'
          = Some (Live d b) \<and> tx_pipe d = (False, True)"
    using live_lr [of "sample_env\<lparr>recv_r := Recv_data [1, 2, 3], send_r := Send_fail EAGAIN\<rparr>"]
    by (simp add: sample_env_def)
  have l2: "\<exists>d b. fire sample_prims sample_conf
          (Local_read (sample_env\<lparr>recv_r := Recv_data [1, 2, 3], send_r := Send_n 3\<rparr>)) c'
          = Some (Live d b) \<and> tx_pipe d = (True, False)"
    using live_lr [of "sample_env\<lparr>recv_r := Recv_data [1, 2, 3], send_r := Send_n 3\<rparr>"]
    by (simp add: sample_env_def recv_ret_def BUF_SIZE_def)
  have re2: "reachable sample_prims sample_conf c2"
    using re f2 by (rule reachable.fired)
  note T2 = half_duplex_interlock [OF re2 s2 [THEN conjunct1]]
  have ww: "w_remote_write c2"
    using p2 by (simp add: tx_pipe_def)
  have live_rw: "\<exists>d b. fire sample_prims sample_conf (Remote_write ev) c2 = Some (Live d b)
      \<and> tx_pipe d = (case send_r ev of
                       Send_n n \<Rightarrow> if tx_bytes c2 \<le> int n then (True, False) else (False, True)
                     | Send_fail x \<Rightarrow> (False, True))"
    if "send_r ev \<noteq> Send_fail EOTHER" for ev
  proof -
    have "w_remote_write c2 \<and> send_r ev \<noteq> Send_fail EOTHER"
      using ww that by simp
    then show ?thesis
      using T2 [THEN conjunct2, THEN conjunct2, THEN conjunct2, THEN conjunct2, THEN conjunct2, THEN conjunct2, THEN conjunct2, THEN conjunct1, rule_format] by blast
  qed
  have w1: "\<exists>d b. fire sample_prims sample_conf (Remote_write (sample_env\<lparr>send_r := Send_n 10\<rparr>)) c2
          = Some (Live d b) \<and> tx_pipe d = (False, True)"
    using live_rw [of "sample_env\<lparr>send_r := Send_n 10\<rparr>"] by (simp add: b2)
  have w2: "\<exists>d b. fire sample_prims sample_conf
          (Remote_write (sample_env\<lparr>send_r := Send_fail EAGAIN\<rparr>)) c2
          = Some (Live d b) \<and> tx_pipe d = (False, True)"
    using live_rw [of "sample_env\<lparr>send_r := Send_fail EAGAIN\<rparr>"] by simp
  have w3: "\<exists>d b. fire sample_prims sample_conf (Remote_write (sample_env\<lparr>send_r := Send_n 8092\<rparr>)) c2
          = Some (Live d b) \<and> tx_pipe d = (True, False)"
    using live_rw [of "sample_env\<lparr>send_r := Send_n 8092\<rparr>"] by (simp add: b2)
  have re3: "reachable sample_prims sample_conf c3"
    using re f3 by (rule reachable.fired)
  note T3 = half_duplex_interlock [OF re3 s3 [THEN conjunct1]]
  have wlw: "w_local_write c3"
    using p3 by (simp add: rx_pipe_def)
  have live_lw: "\<exists>d b. fire sample_prims sample_conf (Local_write ev) c3 = Some (Live d b)
      \<and> rx_pipe d = (case send_r ev of
                       Send_n n \<Rightarrow> if rx_bytes c3 \<le> int n then (True, False) else (False, True)
                     | Send_fail x \<Rightarrow> (False, True))"
    if "send_r ev \<noteq> Send_fail EOTHER" for ev
  proof -
    have "w_local_write c3 \<and> send_r ev \<noteq> Send_fail EOTHER"
      using wlw that by simp
    then show ?thesis
      using T3 [THEN conjunct2, THEN conjunct2, THEN conjunct2, THEN conjunct2, THEN conjunct2, THEN conjunct2, THEN conjunct2, THEN conjunct2, THEN conjunct2, rule_format] by blast
  qed
  have v1: "\<exists>d b. fire sample_prims sample_conf (Local_write (sample_env\<lparr>send_r := Send_n 1\<rparr>)) c3
          = Some (Live d b) \<and> rx_pipe d = (False, True)"
    using live_lw [of "sample_env\<lparr>send_r := Send_n 1\<rparr>"] by (simp add: b3)
  have v2: "\<exists>d b. fire sample_prims sample_conf (Local_write (sample_env\<lparr>send_r := Send_n 3\<rparr>)) c3
          = Some (Live d b) \<and> rx_pipe d = (True, False)"
    using live_lw [of "sample_env\<lparr>send_r := Send_n 3\<rparr>"] by (simp add: b3)
  show ?thesis
    using r re st i f2 s2 p2 l1 l2 w1 w2 w3 f3 s3 p3 v1 v2 by blast
qed

text \<open>
  C6 (as amended).  Every relay callback keeps both offsets non-negative and keeps, for
  each direction whose writer is started, at least one unsent byte in the buffer and
  \<open>bytes + offset \<le> 8192\<close>: after a read with a partial send the offset is the number of
  bytes sent and the count is reduced by it, after a would-block the offset is 0, and a
  drain step advances the offset and reduces the count by the number of bytes sent.  A
  read whose synchronous write takes everything stores the new count and leaves the
  offset of the previous drain in place, so \<open>bytes + offset \<le> 8192\<close> is not kept for a
  direction whose reader is started: the offset is read again only after a partial send
  or a would-block has set it anew.
\<close>

theorem pending_bounds_preserved:
  assumes "state c = ESTAB" and "interlock c" and "pending_bounds c"
    and "fire p cf e c = Some (Live c' a)"
  shows "pending_bounds c'
       \<and> (\<forall>ev n. e = Local_read ev \<and> send_r ev = Send_n n \<and> int n < recv_ret (recv_r ev) \<longrightarrow>
             tx_offset c' = int n \<and> tx_bytes c' = recv_ret (recv_r ev) - int n)
       \<and> (\<forall>ev n. e = Remote_write ev \<and> send_r ev = Send_n n \<and> int n < tx_bytes c \<longrightarrow>
             tx_offset c' = tx_offset c + int n \<and> tx_bytes c' = tx_bytes c - int n)
       \<and> (\<forall>ev n. e = Remote_read ev \<and> send_r ev = Send_n n \<and> int n < recv_ret (recv_r ev) \<longrightarrow>
             rx_offset c' = int n \<and> rx_bytes c' = recv_ret (recv_r ev) - int n)
       \<and> (\<forall>ev n. e = Local_write ev \<and> send_r ev = Send_n n \<and> int n < rx_bytes c \<longrightarrow>
             rx_offset c' = rx_offset c + int n \<and> rx_bytes c' = rx_bytes c - int n)
       \<and> (\<forall>ev. e = Local_read ev \<and> send_r ev = Send_fail EAGAIN \<longrightarrow>
             tx_offset c' = 0 \<and> tx_bytes c' = recv_ret (recv_r ev))
       \<and> (\<forall>ev. e = Remote_read ev \<and> send_r ev = Send_fail EAGAIN \<longrightarrow>
             rx_offset c' = 0 \<and> rx_bytes c' = recv_ret (recv_r ev))
       \<and> (\<forall>ev n. e = Local_read ev \<and> send_r ev = Send_n n \<and> recv_ret (recv_r ev) \<le> int n \<longrightarrow>
             tx_offset c' = tx_offset c \<and> tx_bytes c' = recv_ret (recv_r ev))
       \<and> (\<forall>ev n. e = Remote_read ev \<and> send_r ev = Send_n n \<and> recv_ret (recv_r ev) \<le> int n \<longrightarrow>
             rx_offset c' = rx_offset c \<and> rx_bytes c' = recv_ret (recv_r ev))"
proof (cases e)
  case (Local_read ev)
  with assms show ?thesis
    using local_read_bounds [of c p cf ev c' a] by (auto split: if_splits)
next
  case (Local_write ev)
  with assms show ?thesis
    using local_write_bounds [of c ev c' a] by (auto split: if_splits)
next
  case (Remote_read ev)
  with assms show ?thesis
    using remote_read_bounds [of c p ev c' a] by (auto split: if_splits)
next
  case (Remote_write ev)
  with assms show ?thesis
    using remote_write_bounds [of c ev c' a]
    by (auto simp add: connect_cb_def split: if_splits callback.splits)
next
  case Timer
  with assms show ?thesis
    by simp
qed

theorem pending_bounds_preserved_witness:
  "state sample_estab = ESTAB \<and> interlock sample_estab \<and> pending_bounds sample_estab
   \<and> fire sample_prims sample_conf
        (Local_read (sample_env\<lparr>recv_r := Recv_data (replicate 8192 1), send_r := Send_n 100\<rparr>))
        sample_estab
      = Some (Live (sample_estab\<lparr>tx_buf := replicate 8192 1, tx_bytes := 8092, tx_offset := 100,
                                 w_remote_write := True, w_local_read := False\<rparr>)
                [Send_remote (replicate 100 1)])
   \<and> pending_bounds (sample_estab\<lparr>tx_buf := replicate 8192 1, tx_bytes := 8092, tx_offset := 100,
                                 w_remote_write := True, w_local_read := False\<rparr>)"
proof -
  have h: "state sample_estab = ESTAB" "interlock sample_estab" "pending_bounds sample_estab"
    by (simp_all add: sample_estab_def sample_conn_def interlock_def pending_bounds_def)
  have f: "fire sample_prims sample_conf
        (Local_read (sample_env\<lparr>recv_r := Recv_data (replicate 8192 1), send_r := Send_n 100\<rparr>))
        sample_estab
      = Some (Live (sample_estab\<lparr>tx_buf := replicate 8192 1, tx_bytes := 8092, tx_offset := 100,
                                 w_remote_write := True, w_local_read := False\<rparr>)
                [Send_remote (replicate 100 1)])"
    by (simp add: sample_estab_def eval_defs)
  show ?thesis
    using pending_bounds_preserved [OF h f] h f by simp
qed

theorem buffer_bounds_counterexample:
  "state (sample_estab\<lparr>tx_bytes := 8092, tx_offset := 100\<rparr>) = ESTAB
   \<and> buffer_bounds (sample_estab\<lparr>tx_bytes := 8092, tx_offset := 100\<rparr>)
   \<and> fire sample_prims sample_conf
        (Local_read (sample_env\<lparr>recv_r := Recv_data (replicate 8192 1), send_r := Send_n 8192\<rparr>))
        (sample_estab\<lparr>tx_bytes := 8092, tx_offset := 100\<rparr>)
      = Some (Live (sample_estab\<lparr>tx_buf := replicate 8192 1, tx_bytes := 8192, tx_offset := 100\<rparr>)
                [Send_remote (replicate 8192 1)])
   \<and> \<not> buffer_bounds (sample_estab\<lparr>tx_buf := replicate 8192 1, tx_bytes := 8192, tx_offset := 100\<rparr>)"
  by (simp add: sample_estab_def buffer_bounds_def eval_defs)

text \<open>
  C7 (as amended).  The server is chosen by reducing the 32-bit random word modulo
  \<^verbatim>\<open>server_num\<close>.  For every number \<open>n\<close> of servers from 1 up to \<^verbatim>\<open>MAX_SERVER\<close> (a constant
  of the missing \<^verbatim>\<open>conf.h\<close>, here the parameter \<open>max_server\<close>) and every index \<open>i < n\<close>,
  the number of 32-bit words that select \<open>i\<close> is \<open>2^32 div n\<close>, plus one for the indices
  below \<open>2^32 mod n\<close>.  The counts are equal exactly when \<open>n\<close> divides \<open>2^32\<close>; with three
  servers index 0 is selected by one word more than index 1.
\<close>

theorem select_server_counts:
  assumes "0 < n" and "n \<le> max_server" and "max_server < 2 ^ 31" and "i < n"
  shows "card {v. unat (select_server v (int n)) = i}
         = 2 ^ 32 div n + (if i < 2 ^ 32 mod n then 1 else 0)"
proof -
  have "n < 2 ^ 32"
    using assms(2,3) by simp
  then show ?thesis
    using assms(1,4) by (simp add: select_server_card)
qed

theorem select_server_counts_witness:
  "(0::nat) < 3 \<and> (3::nat) \<le> 8 \<and> (8::nat) < 2 ^ 31 \<and> (0::nat) < 3
   \<and> card {v. unat (select_server v (int 3)) = 0} = 1431655766"
  using select_server_counts [of 3 8 0]
  by simp

theorem select_server_counterexample:
  "card {v. unat (select_server v 3) = 0} = 1431655766
   \<and> card {v. unat (select_server v 3) = 1} = 1431655765"
  using select_server_card [of 3 0] select_server_card [of 3 1]
  by simp

text \<open>
  C8 (as amended).  A request in state \<^verbatim>\<open>NEGO_SENT\<close> whose command byte is 0x02 (BIND) or
  0x03 (UDP ASSOCIATE) and whose address type is 1, 3 or 4 is answered with the 10 bytes
  \<^verbatim>\<open>05 07 00 01 00 00 00 00 00 00\<close>; when the local socket takes them and the pool has a
  timer block, the client lingers one second in \<^verbatim>\<open>CLOSE_WAIT\<close> and closes.  With any other
  address type the reply code is 0x08: the run below is BIND with address type 5.
\<close>

theorem bind_reply:
  assumes "state c = NEGO_SENT" and "w_local_read c" and "recv_r ev1 = Recv_data d"
    and "4 \<le> length d"
    and "d ! 1 = 2 \<or> d ! 1 = 3"
    and "d ! 3 = 1 \<or> d ! 3 = 3 \<or> d ! 3 = 4"
    and "send_r ev2 = Send_n 10" and "timer_new ev2"
  shows "run p cf [Local_read ev1, Local_write ev2, Timer] c [] =
           Some (Dead [Send_local [5, 7, 0, 1, 0, 0, 0, 0, 0, 0], Timer_start 1,
                       Timer_stop, Close_local, Free_timer, Free_conn])"
proof -
  have "d ! 0 \<noteq> 5 \<or> d ! 1 \<noteq> 1 \<or> (d ! 3 \<noteq> 1 \<and> d ! 3 \<noteq> 3 \<and> d ! 3 \<noteq> 4)"
    using assms(5) by auto
  then have "run p cf [Local_read ev1, Local_write ev2, Timer] c [] =
           Some (Dead [Send_local [5, (if d ! 3 \<noteq> 1 \<and> d ! 3 \<noteq> 3 \<and> d ! 3 \<noteq> 4 then 8
                                     else if d ! 1 \<noteq> 1 then 7 else 1), 0, 1, 0, 0, 0, 0, 0, 0],
                       Timer_start 1, Timer_stop, Close_local, Free_timer, Free_conn])"
    using assms(1,2,3,4,7,8) by (intro request_error_run) simp_all
  then show ?thesis
    using assms(5,6) by (auto simp del: run.simps)
qed

theorem bind_reply_witness:
  "state (sample_conn\<lparr>state := NEGO_SENT, w_local_read := True\<rparr>) = NEGO_SENT
   \<and> w_local_read (sample_conn\<lparr>state := NEGO_SENT, w_local_read := True\<rparr>)
   \<and> recv_r (sample_env\<lparr>recv_r := Recv_data [5, 2, 0, 1, 1, 2, 3, 4, 0, 80]\<rparr>)
       = Recv_data [5, 2, 0, 1, 1, 2, 3, 4, 0, 80]
   \<and> 4 \<le> length [5, 2, 0, 1, 1, 2, 3, 4, 0, 80 :: byte]
   \<and> [5, 2, 0, 1, 1, 2, 3, 4, 0, 80 :: byte] ! 1 = 2
   \<and> [5, 2, 0, 1, 1, 2, 3, 4, 0, 80 :: byte] ! 3 = 1
   \<and> send_r (sample_env\<lparr>send_r := Send_n 10\<rparr>) = Send_n 10
   \<and> timer_new (sample_env\<lparr>send_r := Send_n 10\<rparr>)
   \<and> run sample_prims sample_conf
        [Local_read (sample_env\<lparr>recv_r := Recv_data [5, 2, 0, 1, 1, 2, 3, 4, 0, 80]\<rparr>),
         Local_write (sample_env\<lparr>send_r := Send_n 10\<rparr>), Timer]
        (sample_conn\<lparr>state := NEGO_SENT, w_local_read := True\<rparr>) [] =
      Some (Dead [Send_local [5, 7, 0, 1, 0, 0, 0, 0, 0, 0], Timer_start 1,
                  Timer_stop, Close_local, Free_timer, Free_conn])"
  using bind_reply [of "sample_conn\<lparr>state := NEGO_SENT, w_local_read := True\<rparr>"
      "sample_env\<lparr>recv_r := Recv_data [5, 2, 0, 1, 1, 2, 3, 4, 0, 80]\<rparr>"
      "[5, 2, 0, 1, 1, 2, 3, 4, 0, 80]"
      "sample_env\<lparr>send_r := Send_n 10\<rparr>" sample_prims sample_conf]
  by (simp add: sample_conn_def sample_env_def)

theorem bind_reply_counterexample:
  "run sample_prims sample_conf
     [Local_read (sample_env\<lparr>recv_r := Recv_data [5, 2, 0, 5, 0, 0, 0, 0, 0, 0]\<rparr>),
      Local_write (sample_env\<lparr>send_r := Send_n 10\<rparr>), Timer]
     (sample_conn\<lparr>state := NEGO_SENT, w_local_read := True\<rparr>) [] =
   Some (Dead [Send_local [5, 8, 0, 1, 0, 0, 0, 0, 0, 0], Timer_start 1,
               Timer_stop, Close_local, Free_timer, Free_conn])"
  by (simp add: sample_conn_def sample_env_def client_defs request_error_def Let_def replicate_10)

text \<open>
  C9.  The greeting is read into a receive buffer whose first 257 bytes were zeroed.  When
  the greeting announces more methods than the read delivered, the scan reaches an unread
  position, finds 0x00 there and stops: with version byte 0x05 the client accepts and
  answers \<^verbatim>\<open>05 00\<close>, whatever the method bytes it did receive are.
\<close>

theorem unread_methods_accepted:
  assumes "state c = CLOSED" and "w_local_read c" and "length (tx_buf c) = BUF_SIZE"
    and "recv_r ev1 = Recv_data d" and "2 \<le> length d" and "d ! 0 = 5"
    and "length d - 2 < unat (d ! 1)"
    and "send_r ev2 = Send_n 2"
  shows "\<exists>c'. run p cf [Local_read ev1, Local_write ev2] c [] = Some (Live c' [Send_local [5, 0]])
         \<and> state c' = NEGO_SENT"
proof -
  define rx where "rx = recv_buf (bzero (rx_buf c) 257) (Recv_data d)"
  have ne: "d \<noteq> []"
    using assms(5) by auto
  have r0: "rx ! 0 = d ! 0"
    unfolding rx_def using ne by (intro recv_nth) (simp_all add: BUF_SIZE_def)
  have r1: "rx ! 1 = d ! 1"
    unfolding rx_def using assms(5) by (intro recv_nth) (simp_all add: BUF_SIZE_def)
  have "unat (d ! 1) < 256"
    using unsigned_less [of "d ! 1", where ?'a = nat] by simp
  then have len: "length d < 257"
    using assms(7) by simp
  have z: "rx ! (2 + (length d - 2)) = 0"
    unfolding rx_def using assms(5) len by (intro recv_nth_zero) (simp_all add: BUF_SIZE_def)
  have found: "scan_methods rx (rx ! 1) 0 < rx ! 1"
    using assms(7) z r1 by (intro scan_finds [where j = "length d - 2"]) simp_all
  define c1 where "c1 = c\<lparr>w_local_read := False, rx_buf := rx, tx_buf := (tx_buf c)[0 := 5, 1 := 0],
      tx_bytes := 2, state := NEGO_RCVD, w_local_write := True\<rparr>"
  have s1: "local_read_cb p cf ev1 c = Live c1 []"
    unfolding c1_def using assms(1,4) ne rx_def _ found
    by (rule local_read_greeting_accept) (simp add: r0 assms(6))
  have s2: "local_write_cb ev2 c1 =
      Live (c1\<lparr>w_local_write := False, state := NEGO_SENT, w_local_read := True\<rparr>)
        [Send_local (take 2 (tx_buf c1))]"
    by (rule local_write_nego_sent) (simp_all add: c1_def assms)
  have w1: "w_local_write c1"
    by (simp add: c1_def)
  obtain a b rest where tx: "tx_buf c = a # b # rest"
    using assms(3) by (cases "tx_buf c"; cases "tl (tx_buf c)") (auto simp add: BUF_SIZE_def)
  have t: "take 2 (tx_buf c1) = [5, 0]"
    by (simp add: c1_def tx)
  show ?thesis
    using assms(2) s1 s2 w1 t by simp
qed

theorem unread_methods_accepted_witness:
  "state (sample_conn\<lparr>w_local_read := True\<rparr>) = CLOSED
   \<and> w_local_read (sample_conn\<lparr>w_local_read := True\<rparr>)
   \<and> length (tx_buf (sample_conn\<lparr>w_local_read := True\<rparr>)) = BUF_SIZE
   \<and> recv_r (sample_env\<lparr>recv_r := Recv_data [5, 3, 2]\<rparr>) = Recv_data [5, 3, 2]
   \<and> 2 \<le> length [5, 3, 2 :: byte] \<and> [5, 3, 2 :: byte] ! 0 = 5
   \<and> length [5, 3, 2 :: byte] - 2 < unat ([5, 3, 2 :: byte] ! 1)
   \<and> [5, 3, 2 :: byte] ! 2 \<noteq> 0
   \<and> send_r (sample_env\<lparr>send_r := Send_n 2\<rparr>) = Send_n 2
   \<and> (\<exists>c'. run sample_prims sample_conf
              [Local_read (sample_env\<lparr>recv_r := Recv_data [5, 3, 2]\<rparr>),
               Local_write (sample_env\<lparr>send_r := Send_n 2\<rparr>)]
              (sample_conn\<lparr>w_local_read := True\<rparr>) [] = Some (Live c' [Send_local [5, 0]])
          \<and> state c' = NEGO_SENT)"
  using unread_methods_accepted [of "sample_conn\<lparr>w_local_read := True\<rparr>"
      "sample_env\<lparr>recv_r := Recv_data [5, 3, 2]\<rparr>" "[5, 3, 2]"
      "sample_env\<lparr>send_r := Send_n 2\<rparr>" sample_prims sample_conf]
  by (simp add: sample_conn_def sample_env_def BUF_SIZE_def)

text \<open>
  C10.  When a SOCKS5 request fails more than one check, the check made last decides the
  reply code: an address type other than 1, 3 and 4 gives REP 0x08 whatever the version
  and command bytes are; otherwise a command other than CONNECT gives REP 0x07 whatever
  the version byte is; only then does a wrong version byte give REP 0x01.  The reply goes
  out when the local socket takes its 10 bytes; the client then lingers and closes.
\<close>

theorem later_check_wins:
  assumes "state c = NEGO_SENT" and "w_local_read c" and "recv_r ev1 = Recv_data d"
    and "4 \<le> length d"
    and "d ! 0 \<noteq> 5 \<or> d ! 1 \<noteq> 1 \<or> (d ! 3 \<noteq> 1 \<and> d ! 3 \<noteq> 3 \<and> d ! 3 \<noteq> 4)"
    and "send_r ev2 = Send_n 10" and "timer_new ev2"
  shows "run p cf [Local_read ev1, Local_write ev2, Timer] c [] =
           Some (Dead [Send_local [5, (if d ! 3 \<noteq> 1 \<and> d ! 3 \<noteq> 3 \<and> d ! 3 \<noteq> 4 then 8
                                     else if d ! 1 \<noteq> 1 then 7 else 1), 0, 1, 0, 0, 0, 0, 0, 0],
                       Timer_start 1, Timer_stop, Close_local, Free_timer, Free_conn])"
  using assms by (rule request_error_run)

theorem later_check_wins_witness:
  "state (sample_conn\<lparr>state := NEGO_SENT, w_local_read := True\<rparr>) = NEGO_SENT
   \<and> w_local_read (sample_conn\<lparr>state := NEGO_SENT, w_local_read := True\<rparr>)
   \<and> 4 \<le> length [4, 2, 0, 9 :: byte]
   \<and> [4, 2, 0, 9 :: byte] ! 0 \<noteq> 5 \<and> [4, 2, 0, 9 :: byte] ! 1 \<noteq> 1
   \<and> [4, 2, 0, 9 :: byte] ! 3 \<noteq> 1 \<and> [4, 2, 0, 9 :: byte] ! 3 \<noteq> 3 \<and> [4, 2, 0, 9 :: byte] ! 3 \<noteq> 4
   \<and> run sample_prims sample_conf
        [Local_read (sample_env\<lparr>recv_r := Recv_data [4, 2, 0, 9]\<rparr>),
         Local_write (sample_env\<lparr>send_r := Send_n 10\<rparr>), Timer]
        (sample_conn\<lparr>state := NEGO_SENT, w_local_read := True\<rparr>) [] =
      Some (Dead [Send_local [5, 8, 0, 1, 0, 0, 0, 0, 0, 0], Timer_start 1,
                  Timer_stop, Close_local, Free_timer, Free_conn])
   \<and> run sample_prims sample_conf
        [Local_read (sample_env\<lparr>recv_r := Recv_data [4, 2, 0, 1]\<rparr>),
         Local_write (sample_env\<lparr>send_r := Send_n 10\<rparr>), Timer]
        (sample_conn\<lparr>state := NEGO_SENT, w_local_read := True\<rparr>) [] =
      Some (Dead [Send_local [5, 7, 0, 1, 0, 0, 0, 0, 0, 0], Timer_start 1,
                  Timer_stop, Close_local, Free_timer, Free_conn])
   \<and> run sample_prims sample_conf
        [Local_read (sample_env\<lparr>recv_r := Recv_data [4, 1, 0, 1]\<rparr>),
         Local_write (sample_env\<lparr>send_r := Send_n 10\<rparr>), Timer]
        (sample_conn\<lparr>state := NEGO_SENT, w_local_read := True\<rparr>) [] =
      Some (Dead [Send_local [5, 1, 0, 1, 0, 0, 0, 0, 0, 0], Timer_start 1,
                  Timer_stop, Close_local, Free_timer, Free_conn])"
  using later_check_wins [of "sample_conn\<lparr>state := NEGO_SENT, w_local_read := True\<rparr>"
      "sample_env\<lparr>recv_r := Recv_data [4, 2, 0, 9]\<rparr>" "[4, 2, 0, 9]"
      "sample_env\<lparr>send_r := Send_n 10\<rparr>" sample_prims sample_conf]
    later_check_wins [of "sample_conn\<lparr>state := NEGO_SENT, w_local_read := True\<rparr>"
      "sample_env\<lparr>recv_r := Recv_data [4, 2, 0, 1]\<rparr>" "[4, 2, 0, 1]"
      "sample_env\<lparr>send_r := Send_n 10\<rparr>" sample_prims sample_conf]
    later_check_wins [of "sample_conn\<lparr>state := NEGO_SENT, w_local_read := True\<rparr>"
      "sample_env\<lparr>recv_r := Recv_data [4, 1, 0, 1]\<rparr>" "[4, 1, 0, 1]"
      "sample_env\<lparr>send_r := Send_n 10\<rparr>" sample_prims sample_conf]
  by (simp add: sample_conn_def sample_env_def del: run.simps)

end
